(* ===== verification/Go_Prelude.thy ===== *)
theory Go_Prelude
  imports "HOL-Library.Word" "HOL-Library.Multiset" "HOL-Library.Char_ord" "HOL-Library.List_Lexorder"
begin

text \<open>
  What every component of the development shares: run-time panics as values, 64-bit
  integers, byte strings with the few functions of the standard packages
  \<^verbatim>\<open>strings\<close> and \<^verbatim>\<open>time\<close> the source calls, the contract of
  \<^verbatim>\<open>sort.Sort\<close>, and generic lemmas on lists.
\<close>

section \<open>Panics as values\<close>

text \<open>
  A call either returns or panics.  The panics the source can raise are a nil dereference, a slice
  index out of range, an argument that a library function or \<^verbatim>\<open>make\<close> refuses, and those of
  its own; \<open>deref\<close> is \<^verbatim>\<open>*p\<close> (or a field access through \<^verbatim>\<open>p\<close>), \<open>index\<close> is
  \<^verbatim>\<open>xs[i]\<close>.
\<close>

datatype panic = NilDeref | IndexOutOfRange | InvalidArgument | Explicit

datatype 'a go = Panic panic | Ret 'a

fun go_bind :: "'a go \<Rightarrow> ('a \<Rightarrow> 'b go) \<Rightarrow> 'b go" where
  "go_bind (Panic p) f = Panic p"
| "go_bind (Ret x) f = f x"

fun deref :: "'a option \<Rightarrow> 'a go" where
  "deref None = Panic NilDeref"
| "deref (Some x) = Ret x"

definition index :: "'a list \<Rightarrow> nat \<Rightarrow> 'a go" where
  "index xs i = (if i < length xs then Ret (xs ! i) else Panic IndexOutOfRange)"

section \<open>Machine integers and time\<close>

text \<open>
  An \<^verbatim>\<open>int64\<close> is an \<^typ>\<open>int\<close> in the range of the type; arithmetic that can leave
  the range goes through \<open>wrap64\<close>, which is two's complement reduction.
  Integer division truncates towards zero.  A \<^verbatim>\<open>time.Time\<close> is its distance to the Unix
  epoch in nanoseconds and a \<^verbatim>\<open>time.Duration\<close> a number of nanoseconds.
\<close>

definition wrap64 :: "int \<Rightarrow> int" where
  "wrap64 x = (x + 2 ^ 63) mod 2 ^ 64 - 2 ^ 63"

definition is_int64 :: "int \<Rightarrow> bool" where
  "is_int64 x \<longleftrightarrow> - (2 ^ 63) \<le> x \<and> x < 2 ^ 63"

definition trunc_div :: "int \<Rightarrow> int \<Rightarrow> int" where
  "trunc_div a b = sgn a * sgn b * (\<bar>a\<bar> div \<bar>b\<bar>)"

type_synonym time = int
type_synonym duration = int

definition Second :: duration where "Second = 1000000000"
definition Millisecond :: duration where "Millisecond = 1000000"
definition Minute :: duration where "Minute = 60 * Second"
definition Hour :: duration where "Hour = 60 * Minute"

definition Unix :: "time \<Rightarrow> int" where
  "Unix t = t div Second"

definition UnixNano :: "time \<Rightarrow> int" where
  "UnixNano t = wrap64 t"

section \<open>Byte strings\<close>

definition lower_char :: "char \<Rightarrow> char" where
  "lower_char c = (let n = of_char c :: nat in
     if 65 \<le> n \<and> n \<le> 90 then char_of (n + 32) else c)"

definition ToLower :: "string \<Rightarrow> string" where
  "ToLower s = map lower_char s"

text \<open>
  \<open>split1 c s\<close> cuts \<open>s\<close> at the first byte \<open>c\<close>; \<open>SplitN2\<close> is
  \<^verbatim>\<open>strings.SplitN(s, c, 2)\<close> and \<open>Split\<close> is \<^verbatim>\<open>strings.Split(s, c)\<close>, both for a
  separator of one byte.
\<close>

fun split1 :: "char \<Rightarrow> string \<Rightarrow> (string \<times> string) option" where
  "split1 c [] = None"
| "split1 c (x # xs) =
     (if x = c then Some ([], xs)
      else (case split1 c xs of None \<Rightarrow> None | Some (a, b) \<Rightarrow> Some (x # a, b)))"

definition SplitN2 :: "char \<Rightarrow> string \<Rightarrow> string list" where
  "SplitN2 c s = (case split1 c s of None \<Rightarrow> [s] | Some (a, b) \<Rightarrow> [a, b])"

fun Split :: "char \<Rightarrow> string \<Rightarrow> string list" where
  "Split c [] = [[]]"
| "Split c (x # xs) =
     (if x = c then [] # Split c xs
      else (case Split c xs of [] \<Rightarrow> [[x]] | y # ys \<Rightarrow> (x # y) # ys))"

text \<open>
  \<^verbatim>\<open>strings.TrimSpace\<close> removes the runes of Unicode's White\_Space property at both
  ends.  They are listed by their UTF-8 encodings.
\<close>

definition bytes :: "nat list \<Rightarrow> string" where
  "bytes ns = map char_of ns"

definition space_encodings :: "string list" where
  "space_encodings =
     map bytes ([[9], [10], [11], [12], [13], [32], [194, 133], [194, 160],
       [225, 154, 128], [226, 128, 168], [226, 128, 169], [226, 128, 175],
       [226, 129, 159], [227, 128, 128]]
     @ map (\<lambda>n. [226, 128, n]) [128..<139])"

definition starts_with :: "string \<Rightarrow> string \<Rightarrow> bool" where
  "starts_with p s \<longleftrightarrow> take (length p) s = p"

function strip_front :: "string list \<Rightarrow> string \<Rightarrow> string" where
  "strip_front ps s =
     (case find (\<lambda>p. p \<noteq> [] \<and> s \<noteq> [] \<and> starts_with p s) ps of
        None \<Rightarrow> s
      | Some p \<Rightarrow> strip_front ps (drop (length p) s))"
  by pat_completeness auto
termination
  by (relation "measure (\<lambda>(ps, s). length s)") (auto simp: find_Some_iff)

declare strip_front.simps [simp del]

definition TrimSpace :: "string \<Rightarrow> string" where
  "TrimSpace s =
     (let t = strip_front space_encodings s
      in rev (strip_front (map rev space_encodings) (rev t)))"

text \<open>
  \<^verbatim>\<open>strings.EqualFold(s, t)\<close> for a \<open>t\<close> of lower-case ASCII letters.  Under
  Unicode's simple folding the long s (U+017F) equals \<open>s\<close> and the Kelvin sign (U+212A)
  equals \<open>k\<close>; no other rune outside ASCII folds to an ASCII letter.
\<close>

definition fold_encodings :: "char \<Rightarrow> string list" where
  "fold_encodings c =
     (if c = CHR ''s'' then [bytes [197, 191]] else if c = CHR ''k'' then [bytes [226, 132, 170]] else [])"

fun EqualFold :: "string \<Rightarrow> string \<Rightarrow> bool" where
  "EqualFold s [] = (s = [])"
| "EqualFold s (t # ts) =
     ((s \<noteq> [] \<and> lower_char (hd s) = t \<and> EqualFold (tl s) ts) \<or>
      list_ex (\<lambda>e. starts_with e s \<and> EqualFold (drop (length e) s) ts) (fold_encodings t))"

declare EqualFold.simps [simp del]

text \<open>The decimal rendering of an integer, \<^verbatim>\<open>%d\<close>.\<close>

fun decimal_nat :: "nat \<Rightarrow> string" where
  "decimal_nat n = (if n < 10 then [char_of (48 + n)] else decimal_nat (n div 10) @ [char_of (48 + n mod 10)])"

declare decimal_nat.simps [simp del]

definition decimal :: "int \<Rightarrow> string" where
  "decimal i = (if i < 0 then CHR ''-'' # decimal_nat (nat (- i)) else decimal_nat (nat i))"

section \<open>The contract of sort.Sort\<close>

text \<open>
  \<^verbatim>\<open>sort.Sort\<close> promises a rearrangement in which no element is less than an earlier
  one; it promises no stability.  The definitions that sort take the sorting function as an
  argument, and the theorems about them ask for this contract.  \<open>insertion_sort\<close> (the
  algorithm the package itself uses on short slices) shows that the contract can be met.
\<close>

definition sorted_by :: "('a \<Rightarrow> 'a \<Rightarrow> bool) \<Rightarrow> 'a list \<Rightarrow> bool" where
  "sorted_by lt xs \<longleftrightarrow> sorted_wrt (\<lambda>a b. \<not> lt b a) xs"

definition sort_contract :: "('a \<Rightarrow> 'a \<Rightarrow> bool) \<Rightarrow> ('a list \<Rightarrow> 'a list) \<Rightarrow> bool" where
  "sort_contract lt srt \<longleftrightarrow> (\<forall>xs. mset (srt xs) = mset xs \<and> sorted_by lt (srt xs))"

fun insert_by :: "('a \<Rightarrow> 'a \<Rightarrow> bool) \<Rightarrow> 'a \<Rightarrow> 'a list \<Rightarrow> 'a list" where
  "insert_by lt x [] = [x]"
| "insert_by lt x (y # ys) = (if lt y x then y # insert_by lt x ys else x # y # ys)"

fun insertion_sort :: "('a \<Rightarrow> 'a \<Rightarrow> bool) \<Rightarrow> 'a list \<Rightarrow> 'a list" where
  "insertion_sort lt [] = []"
| "insertion_sort lt (x # xs) = insert_by lt x (insertion_sort lt xs)"

section \<open>Collections and shared lemmas\<close>

named_theorems go_simps \<open>inversion rules for early returns on error values\<close>

lemma go_bind_eq_Ret [simp]:
  "go_bind m f = Ret y \<longleftrightarrow> (\<exists>x. m = Ret x \<and> f x = Ret y)"
  by (cases m) auto

lemma go_bind_eq_Panic:
  "go_bind m f = Panic p \<longleftrightarrow> m = Panic p \<or> (\<exists>x. m = Ret x \<and> f x = Panic p)"
  by (cases m) auto

lemma go_bind_cong [fundef_cong]:
  "m = m' \<Longrightarrow> (\<And>x. m' = Ret x \<Longrightarrow> f x = f' x) \<Longrightarrow> go_bind m f = go_bind m' f'"
  by (cases m') auto

lemma go_bind_assoc: "go_bind (go_bind m f) g = go_bind m (\<lambda>x. go_bind (f x) g)"
  by (cases m) auto

text \<open>Returning early on an error value, in a result and inside the panic monad.\<close>

lemma case_sum_eq_Inr [go_simps]:
  "(case r of Inl e \<Rightarrow> Inl (h e) | Inr y \<Rightarrow> Inr (g y)) = Inr z \<longleftrightarrow> (\<exists>y. r = Inr y \<and> z = g y)"
  by (cases r) auto

lemma case_sum_Ret_Inr [go_simps]:
  "(case r of Inl e \<Rightarrow> Ret (c, Inl e) | Inr y \<Rightarrow> k y) = Ret (c', Inr z) \<longleftrightarrow>
     (\<exists>y. r = Inr y \<and> k y = Ret (c', Inr z))"
  by (cases r) auto

lemma deref_eq_Ret [simp]: "deref p = Ret x \<longleftrightarrow> p = Some x"
  by (cases p) auto

lemma index_eq_Ret [simp]: "index xs i = Ret x \<longleftrightarrow> i < length xs \<and> xs ! i = x"
  by (auto simp: index_def)

lemma wrap64_id: "is_int64 x \<Longrightarrow> wrap64 x = x"
  by (simp add: wrap64_def is_int64_def)

lemma wrap64_range: "is_int64 (wrap64 x)"
proof -
  have "0 \<le> (x + 2 ^ 63) mod 2 ^ 64" and "(x + 2 ^ 63) mod 2 ^ 64 < (2::int) ^ 64"
    by simp_all
  then show ?thesis by (simp add: wrap64_def is_int64_def)
qed

lemma wrap64_sint: "wrap64 x = sint (word_of_int x :: 64 word)"
  by (simp add: wrap64_def sint_sbintrunc' signed_take_bit_eq_take_bit_shift take_bit_eq_mod)

text \<open>A text of printing ASCII characters has no space around it.\<close>

definition plain_char :: "char \<Rightarrow> bool" where
  "plain_char c \<longleftrightarrow> (let n = of_char c :: nat in 32 < n \<and> n < 127)"

lemma strip_front_plain:
  assumes "list_all (\<lambda>p. p = [] \<or> \<not> plain_char (hd p)) ps" and "list_all plain_char s"
  shows "strip_front ps s = s"
proof -
  have "hd p = hd s" if "p \<noteq> []" "s \<noteq> []" "starts_with p s" for p
    using that by (cases p; cases s) (auto simp: starts_with_def)
  with assms have "\<not> (p \<noteq> [] \<and> s \<noteq> [] \<and> starts_with p s)" if "p \<in> set ps" for p
    using that by (auto simp: list_all_iff)
  then have "find (\<lambda>p. p \<noteq> [] \<and> s \<noteq> [] \<and> starts_with p s) ps = None"
    by (auto simp: find_None_iff)
  then show ?thesis by (subst strip_front.simps) simp
qed

lemma space_not_plain:
  "list_all (\<lambda>p. p = [] \<or> \<not> plain_char (hd p)) space_encodings"
  "list_all (\<lambda>p. p = [] \<or> \<not> plain_char (hd p)) (map rev space_encodings)"
  by (simp_all add: space_encodings_def bytes_def plain_char_def upt_conv_Cons list_all_iff)

lemma TrimSpace_plain: "list_all plain_char s \<Longrightarrow> TrimSpace s = s"
  using strip_front_plain [OF space_not_plain(1), of s] strip_front_plain [OF space_not_plain(2), of "rev s"]
  by (simp add: TrimSpace_def)

lemma trim_examples: "TrimSpace [] = []" "TrimSpace ''a'' = ''a''" "TrimSpace ''b'' = ''b''"
  by (simp_all add: TrimSpace_plain plain_char_def)

subsection \<open>Updating and filtering lists\<close>

lemma filter_none_in_range:
  assumes "\<forall>m. a \<le> m \<and> m < b \<longrightarrow> \<not> P (xs ! m)" and "a \<le> b" and "b \<le> length xs"
  shows "filter P (drop a xs) = filter P (drop b xs)"
proof -
  have split: "drop a xs = take (b - a) (drop a xs) @ drop b xs"
    using assms(2) by (metis add.commute append_take_drop_id drop_drop le_add_diff_inverse)
  have "filter P (take (b - a) (drop a xs)) = []"
    using assms by (auto simp: filter_empty_conv in_set_conv_nth)
  then show ?thesis by (subst split) simp
qed

lemma list_all_take_Suc:
  "i < length xs \<Longrightarrow> list_all P (take (Suc i) xs) \<longleftrightarrow> list_all P (take i xs) \<and> P (xs ! i)"
  by (auto simp: take_Suc_conv_app_nth)

lemma set_map_of_lookup:
  "distinct (map fst kvs) \<Longrightarrow> (k, v) \<in> set kvs \<Longrightarrow> map_of kvs k = Some v"
  by (simp add: map_of_is_SomeI)

subsection \<open>Strict weak orders and sorting\<close>

text \<open>
  The interface between a comparison and the sorting routines that call it: a strict weak
  order.  It is interpreted on every \<^verbatim>\<open>Less\<close> of the source.
\<close>

locale strict_weak_order =
  fixes lt :: "'a \<Rightarrow> 'a \<Rightarrow> bool"
  assumes lt_irrefl: "\<not> lt a a"
    and lt_trans: "lt a b \<Longrightarrow> lt b c \<Longrightarrow> lt a c"
    and lt_neg_trans: "\<not> lt a b \<Longrightarrow> \<not> lt b c \<Longrightarrow> \<not> lt a c"
begin

lemma lt_asym: "lt a b \<Longrightarrow> \<not> lt b a"
  using lt_trans lt_irrefl by blast

lemma mset_insert_by: "mset (insert_by lt x xs) = add_mset x (mset xs)"
  by (induction xs) auto

lemma set_insert_by: "set (insert_by lt x xs) = insert x (set xs)"
  by (induction xs) auto

lemma sorted_insert_by: "sorted_by lt xs \<Longrightarrow> sorted_by lt (insert_by lt x xs)"
proof (induction xs)
  case Nil
  then show ?case by (simp add: sorted_by_def)
next
  case (Cons y ys)
  show ?case
  proof (cases "lt y x")
    case True
    with Cons show ?thesis
      by (auto simp: sorted_by_def set_insert_by dest: lt_asym)
  next
    case False
    with Cons.prems have "\<forall>z \<in> set ys. \<not> lt z x"
      using lt_neg_trans by (auto simp: sorted_by_def)
    with False Cons.prems show ?thesis by (simp add: sorted_by_def)
  qed
qed

lemma insertion_sort_contract: "sort_contract lt (insertion_sort lt)"
proof -
  have "mset (insertion_sort lt xs) = mset xs" for xs
    by (induction xs) (auto simp: mset_insert_by)
  moreover have "sorted_by lt (insertion_sort lt xs)" for xs
    by (induction xs) (auto simp: sorted_insert_by, simp add: sorted_by_def)
  ultimately show ?thesis by (simp add: sort_contract_def)
qed

text \<open>A sorted rearrangement is unique as soon as no two elements tie.\<close>

lemma sorted_by_unique:
  assumes "mset xs = mset ys" and "sorted_by lt xs" and "sorted_by lt ys"
    and "\<forall>a \<in> set xs. \<forall>b \<in> set xs. \<not> lt a b \<and> \<not> lt b a \<longrightarrow> a = b"
  shows "xs = ys"
  using assms
proof (induction xs arbitrary: ys)
  case Nil
  then show ?case by simp
next
  case (Cons x xs)
  then obtain y ys' where ys: "ys = y # ys'" by (cases ys) auto
  have sets: "set (x # xs) = set ys" using Cons.prems(1) by (metis set_mset_mset)
  have "y \<in> set (x # xs)" and "x \<in> set (y # ys')" using sets ys by auto
  then have "\<not> lt y x" and "\<not> lt x y"
    using Cons.prems(2,3) lt_irrefl ys by (auto simp: sorted_by_def)
  then have "x = y" using Cons.prems(4) sets ys by auto
  moreover from this Cons.prems ys have "xs = ys'"
    by (intro Cons.IH) (auto simp: sorted_by_def)
  ultimately show ?case using ys by simp
qed

lemma sort_contract_sorted: "sort_contract lt srt \<Longrightarrow> sorted_by lt (srt xs)"
  and sort_contract_mset: "sort_contract lt srt \<Longrightarrow> mset (srt xs) = mset xs"
  and sort_contract_set: "sort_contract lt srt \<Longrightarrow> set (srt xs) = set xs"
  by (auto simp: sort_contract_def dest!: spec [of _ xs] mset_eq_setD)

end

end
