(* ===== verification/Reader.thy ===== *)
theory Reader
  imports Go_Prelude
begin

text \<open>
  \<^verbatim>\<open>pkg/reader/reader.go\<close>: the reader that stops with \<^verbatim>\<open>ErrTooLong\<close>, and
  \<^verbatim>\<open>io.ReadAll\<close> over it.  The locale \<open>byte_source\<close> is the contract of
  \<^verbatim>\<open>io.Reader\<close> the loop relies on; it is interpreted on the streams a request body
  delivers and on the limited reader on top of them.
\<close>

section \<open>Readers\<close>

datatype io_err = EOF | ErrTooLong | OtherIO string

text \<open>
  A stream is the script of what its successive reads deliver: non-empty chunks and then a
  final error (\<^verbatim>\<open>io.EOF\<close> for a body that ends).  With \<open>st_eager\<close> the final error
  comes in the same call as the last bytes, otherwise in a call of its own; the contract of
  \<^verbatim>\<open>io.Reader\<close> allows both.  A chunk that does not fit the buffer is delivered in
  parts.
\<close>

record stream =
  st_chunks :: "string list"
  st_end :: io_err
  st_eager :: bool

fun stream_Read :: "stream \<Rightarrow> nat \<Rightarrow> string \<times> io_err option \<times> stream" where
  "stream_Read s k =
     (case st_chunks s of
        [] \<Rightarrow> ([], Some (st_end s), s)
      | c # cs \<Rightarrow>
          if k < length c then (take k c, None, s\<lparr>st_chunks := drop k c # cs\<rparr>)
          else (c, (if cs = [] \<and> st_eager s then Some (st_end s) else None), s\<lparr>st_chunks := cs\<rparr>))"

declare stream_Read.simps [simp del]

text \<open>
  A body: a stream, a \<^verbatim>\<open>limitReadCloser\<close> on top of another body, or the limited
  reader of the standard library, which ends with \<^verbatim>\<open>io.EOF\<close> instead.
\<close>

datatype body = Stream stream | LimitedReader body int | io_LimitedReader body int

definition LimitReader :: "body \<Rightarrow> int \<Rightarrow> body" where
  "LimitReader r n = LimitedReader r n"

definition NewLimitReadCloser :: "body \<Rightarrow> int \<Rightarrow> body" where
  "NewLimitReadCloser r n = LimitReader r n"

fun body_Read :: "body \<Rightarrow> nat \<Rightarrow> string \<times> io_err option \<times> body" where
  "body_Read (Stream s) k = (let (out, err, s') = stream_Read s k in (out, err, Stream s'))"
| "body_Read (LimitedReader r N) k =
     (if N \<le> 0 then ([], Some ErrTooLong, LimitedReader r N)
      else (let k' = (if int k > N then nat N else k);
                (out, err, r') = body_Read r k'
            in (out, err, LimitedReader r' (N - int (length out)))))"
| "body_Read (io_LimitedReader r N) k =
     (if N \<le> 0 then ([], Some EOF, io_LimitedReader r N)
      else (let k' = (if int k > N then nat N else k);
                (out, err, r') = body_Read r k'
            in (out, err, io_LimitedReader r' (N - int (length out)))))"

section \<open>io.ReadAll\<close>

text \<open>
  \<^verbatim>\<open>io.ReadAll\<close> calls \<^verbatim>\<open>Read\<close> on the free part of its buffer, growing the buffer
  first when it is full, until an error comes; \<^verbatim>\<open>io.EOF\<close> is not reported.  How large the
  buffer grows is not promised: \<open>room n\<close> bytes are free once \<open>n\<close> have been read, and
  at least one.  A reader that makes progress ends after at most \<open>steps\<close> calls.
\<close>

fun body_steps :: "body \<Rightarrow> nat" where
  "body_steps (Stream s) = length (concat (st_chunks s)) + length (st_chunks s)"
| "body_steps (LimitedReader r N) = body_steps r"
| "body_steps (io_LimitedReader r N) = body_steps r"

lemma stream_Read_steps:
  "stream_Read s (Suc k) = (out, None, s') \<Longrightarrow>
     length (concat (st_chunks s')) + length (st_chunks s') <
     length (concat (st_chunks s)) + length (st_chunks s)"
  by (auto simp: stream_Read.simps split: list.splits if_splits)

lemma body_Read_steps: "0 < k \<Longrightarrow> body_Read r k = (out, None, r') \<Longrightarrow> body_steps r' < body_steps r"
proof (induction r k arbitrary: out r' rule: body_Read.induct)
  case (1 s k)
  then obtain k' where "k = Suc k'" by (cases k) auto
  with 1 show ?case by (auto split: prod.splits dest: stream_Read_steps)
next
  case (2 r N k)
  then show ?case by (auto simp: Let_def split: if_splits prod.splits)
next
  case (3 r N k)
  then show ?case by (auto simp: Let_def split: if_splits prod.splits)
qed

function ReadAll :: "(nat \<Rightarrow> nat) \<Rightarrow> string \<Rightarrow> body \<Rightarrow> string \<times> io_err option" where
  "ReadAll room acc r =
     (case body_Read r (max 1 (room (length acc))) of
        (out, Some e, r') \<Rightarrow> (acc @ out, if e = EOF then None else Some e)
      | (out, None, r') \<Rightarrow> ReadAll room (acc @ out) r')"
  by pat_completeness auto
termination
  by (relation "measure (\<lambda>(room, acc, r). body_steps r)") (auto dest!: body_Read_steps [rotated, OF sym])

declare ReadAll.simps [simp del]

section \<open>What reading to the end yields\<close>

text \<open>The bytes a body has left to deliver.\<close>

fun body_left :: "body \<Rightarrow> string" where
  "body_left (Stream s) = concat (st_chunks s)"
| "body_left (LimitedReader r N) = take (nat N) (body_left r)"
| "body_left (io_LimitedReader r N) = take (nat N) (body_left r)"

text \<open>How reading a stream through a limit of \<open>N\<close> bytes ends.\<close>

definition limited_end :: "stream \<Rightarrow> int \<Rightarrow> io_err" where
  "limited_end s N =
     (let L = int (length (concat (st_chunks s)))
      in if N \<le> 0 \<or> N < L \<or> (N = L \<and> \<not> st_eager s) then ErrTooLong else st_end s)"

definition proper_stream :: "stream \<Rightarrow> bool" where
  "proper_stream s \<longleftrightarrow> [] \<notin> set (st_chunks s)"

locale byte_source =
  fixes read :: "'r \<Rightarrow> nat \<Rightarrow> string \<times> io_err option \<times> 'r" and left :: "'r \<Rightarrow> string"
  assumes read_prefix: "read r k = (out, err, r') \<Longrightarrow> left r = out @ left r'"
    and read_fits: "read r k = (out, err, r') \<Longrightarrow> length out \<le> k"
    and read_ends: "read r k = (out, Some e, r') \<Longrightarrow> left r' = []"
begin

lemma read_some_left: "read r k = (out, None, r') \<Longrightarrow> length (left r') \<le> length (left r)"
  using read_prefix by fastforce

text \<open>A limit on top of a source: what is delivered stays within the limit and what is left.\<close>

lemma read_limited:
  assumes "read r (if int k > N then nat N else k) = (out, err, r')" and "0 < N"
  shows "take (nat N) (left r) = out @ take (nat (N - int (length out))) (left r')"
    and "length out \<le> k" and "int (length out) \<le> N"
  using read_prefix [OF assms(1)] read_fits [OF assms(1)] assms(2)
  by (auto split: if_splits simp: nat_diff_distrib)

end

interpretation stream_source: byte_source stream_Read "\<lambda>s. concat (st_chunks s)"
  by unfold_locales (auto simp: stream_Read.simps split: list.splits if_splits)

lemma body_Read_contract:
  "body_Read r k = (out, err, r') \<Longrightarrow>
     body_left r = out @ body_left r' \<and> length out \<le> k \<and> (err \<noteq> None \<longrightarrow> body_left r' = [])"
proof (induction r k arbitrary: out err r' rule: body_Read.induct)
  case (1 s k)
  then obtain s' where rd: "stream_Read s k = (out, err, s')" "r' = Stream s'"
    by (auto split: prod.splits)
  with stream_source.read_prefix [OF rd(1)] stream_source.read_fits [OF rd(1)]
    stream_source.read_ends show ?case by fastforce
next
  case (2 r N k)
  show ?case
  proof (cases "N \<le> 0")
    case False
    with 2 show ?thesis by (fastforce simp: Let_def nat_diff_distrib split: if_splits prod.splits)
  qed (use 2 in auto)
next
  case (3 r N k)
  show ?case
  proof (cases "N \<le> 0")
    case False
    with 3 show ?thesis by (fastforce simp: Let_def nat_diff_distrib split: if_splits prod.splits)
  qed (use 3 in auto)
qed

interpretation body_source: byte_source body_Read body_left
  by unfold_locales (auto dest: body_Read_contract)

lemma ReadAll_data: "fst (ReadAll room acc r) = acc @ body_left r"
proof (induction room acc r rule: ReadAll.induct)
  case (1 room acc r)
  obtain out err r' where rd: "body_Read r (max 1 (room (length acc))) = (out, err, r')"
    by (metis prod.exhaust)
  show ?case
  proof (cases err)
    case None
    with 1 rd body_source.read_prefix [OF rd] show ?thesis by (subst ReadAll.simps) simp
  next
    case (Some e)
    with rd body_source.read_prefix [OF rd] body_source.read_ends show ?thesis
      by (subst ReadAll.simps) fastforce
  qed
qed

lemma concat_proper: "[] \<notin> set cs \<Longrightarrow> cs \<noteq> [] \<Longrightarrow> 0 < int (length (concat cs))"
  by (cases cs) (auto intro: add_pos_nonneg)

lemma limited_step:
  assumes "proper_stream s" and "0 < N" and "0 < k"
    and "body_Read (LimitedReader (Stream s) N) k = (out, err, r')"
  obtains s' where "r' = LimitedReader (Stream s') (N - int (length out))" and "proper_stream s'"
    and "err = None \<longrightarrow> limited_end s' (N - int (length out)) = limited_end s N"
    and "\<forall>e. err = Some e \<longrightarrow> e = limited_end s N"
proof -
  define k' where "k' = (if int k > N then N else int k)"
  obtain s' where s': "stream_Read s (if int k > N then nat N else k) = (out, err, s')"
    and r': "r' = LimitedReader (Stream s') (N - int (length out))"
    using assms by (auto simp: Let_def split: prod.splits)
  show ?thesis
  proof (rule that [OF r'])
    show "proper_stream s'" using s' assms(1-3)
      by (auto simp: stream_Read.simps proper_stream_def split: list.splits if_splits)
    show "err = None \<longrightarrow> limited_end s' (N - int (length out)) = limited_end s N"
    proof (cases "st_chunks s")
      case (Cons c cs)
      define n where "n = length (concat cs)"
      have n: "cs \<noteq> [] \<Longrightarrow> 0 < n"
        using assms(1) Cons concat_proper [of cs] by (simp add: proper_stream_def n_def)
      have len: "length (concat (st_chunks s)) = length c + n" using Cons by (simp add: n_def)
      have k: "k' \<le> N" "0 < k'" using assms(2,3) by (auto simp: k'_def)
      show ?thesis
      proof (cases "int (length c) > k'")
        case True
        with s' Cons k have "out = take (nat k') c" "s' = s\<lparr>st_chunks := drop (nat k') c # cs\<rparr>"
          by (auto simp: stream_Read.simps k'_def split: if_splits)
        moreover have "length (concat (drop (nat k') c # cs)) = length c - nat k' + n"
          by (simp add: n_def)
        ultimately show ?thesis using True k len assms(2)
          by (simp only: limited_end_def Let_def length_take) auto
      next
        case False
        with s' Cons k have whole: "length out = length c" "length (concat (st_chunks s')) = n"
          "st_end s' = st_end s" "st_eager s' = st_eager s"
          "err = None \<longrightarrow> \<not> st_eager s \<or> cs \<noteq> []"
          by (auto simp: stream_Read.simps k'_def n_def split: if_splits)
        from whole(1,5) False k n assms(2) have "err = None \<longrightarrow>
            (N - int (length out) \<le> 0 \<or> N - int (length out) < int n \<or>
              N - int (length out) = int n \<and> \<not> st_eager s) =
            (N \<le> 0 \<or> N < int (length c + n) \<or> N = int (length c + n) \<and> \<not> st_eager s)"
          by auto
        with whole(2-4) len show ?thesis by (simp only: limited_end_def Let_def) simp
      qed
    qed (use s' in \<open>simp add: stream_Read.simps\<close>)
    show "\<forall>e. err = Some e \<longrightarrow> e = limited_end s N"
      using s' assms(1-3)
      by (auto simp: stream_Read.simps limited_end_def Let_def split: list.splits if_splits)
  qed
qed

lemma ReadAll_limited_end:
  assumes "proper_stream s"
  shows "snd (ReadAll room acc (LimitedReader (Stream s) N)) =
    (if limited_end s N = EOF then None else Some (limited_end s N))"
  using assms
proof (induction "body_steps (Stream s)" arbitrary: s N acc rule: less_induct)
  case less
  let ?k = "max 1 (room (length acc))"
  obtain out err r' where rd: "body_Read (LimitedReader (Stream s) N) ?k = (out, err, r')"
    by (metis prod.exhaust)
  show ?case
  proof (cases "0 < N")
    case False
    then show ?thesis by (subst ReadAll.simps) (simp add: limited_end_def)
  next
    case True
    have pos: "0 < ?k" by simp
    obtain s' where s': "r' = LimitedReader (Stream s') (N - int (length out))" "proper_stream s'"
      "err = None \<longrightarrow> limited_end s' (N - int (length out)) = limited_end s N"
      "\<forall>e. err = Some e \<longrightarrow> e = limited_end s N"
      by (rule limited_step [OF less.prems True pos rd])
    show ?thesis
    proof (cases err)
      case None
      with rd have "body_steps (Stream s') < body_steps (Stream s)"
        using body_Read_steps [of ?k "LimitedReader (Stream s) N"] s'(1) by fastforce
      from less.hyps [OF this s'(2)] None s' rd show ?thesis by (subst ReadAll.simps) simp
    next
      case (Some e)
      with s'(4) rd show ?thesis by (subst ReadAll.simps) simp
    qed
  qed
qed

lemma ReadAll_stream_end: "snd (ReadAll room acc (Stream s)) = (if st_end s = EOF then None else Some (st_end s))"
proof (induction "body_steps (Stream s)" arbitrary: s acc rule: less_induct)
  case less
  let ?k = "max 1 (room (length acc))"
  obtain out err s' where rd: "stream_Read s ?k = (out, err, s')" by (metis prod.exhaust)
  then have ends: "st_end s' = st_end s" "\<And>e. err = Some e \<Longrightarrow> e = st_end s"
    by (auto simp: stream_Read.simps split: list.splits if_splits)
  show ?case
  proof (cases err)
    case None
    with rd have "body_steps (Stream s') < body_steps (Stream s)"
      using body_Read_steps [of ?k "Stream s"] by fastforce
    from less.hyps [OF this] None rd ends show ?thesis by (subst ReadAll.simps) simp
  next
    case (Some e)
    with rd ends show ?thesis by (subst ReadAll.simps) simp
  qed
qed

lemma ReadAll_stream:
  "ReadAll room [] (Stream s) =
     (concat (st_chunks s), if st_end s = EOF then None else Some (st_end s))"
  using ReadAll_data [of room "[]" "Stream s"] ReadAll_stream_end [of room "[]" s]
  by (metis append_Nil body_left.simps(1) prod.collapse)

lemma ReadAll_limited:
  "proper_stream s \<Longrightarrow> ReadAll room [] (LimitedReader (Stream s) N) =
     (take (nat N) (concat (st_chunks s)),
      if limited_end s N = EOF then None else Some (limited_end s N))"
  using ReadAll_data [of room "[]" "LimitedReader (Stream s) N"] ReadAll_limited_end [of s room "[]" N]
  by (metis append_Nil body_left.simps(1,2) prod.collapse)

text \<open>The limited reader of the standard library ends as the stream below it does.\<close>

fun ends_eof :: "body \<Rightarrow> bool" where
  "ends_eof (Stream s) = (st_end s = EOF)"
| "ends_eof (LimitedReader r N) = False"
| "ends_eof (io_LimitedReader r N) = ends_eof r"

lemma body_Read_eof:
  "ends_eof r \<Longrightarrow> body_Read r k = (out, err, r') \<Longrightarrow> ends_eof r' \<and> (err = None \<or> err = Some EOF)"
proof (induction r k arbitrary: out err r' rule: body_Read.induct)
  case (1 s k)
  then show ?case by (auto simp: stream_Read.simps Let_def split: list.splits if_splits)
next
  case (3 r N k)
  then show ?case by (fastforce simp: Let_def split: if_splits prod.splits)
qed simp

lemma ReadAll_eof: "ends_eof r \<Longrightarrow> ReadAll room acc r = (acc @ body_left r, None)"
proof -
  have "ends_eof r \<Longrightarrow> snd (ReadAll room acc r) = None" for acc r
  proof (induction room acc r rule: ReadAll.induct)
    case (1 room acc r)
    obtain out err r' where rd: "body_Read r (max 1 (room (length acc))) = (out, err, r')"
      using prod_cases3 by blast
    with 1 body_Read_eof [OF 1(2) rd] show ?case by (subst ReadAll.simps) (auto split: option.split)
  qed
  then show "ends_eof r \<Longrightarrow> ReadAll room acc r = (acc @ body_left r, None)"
    using ReadAll_data [of room acc r] by (metis prod.collapse)
qed

section \<open>Properties\<close>

text \<open>
  C32: \<^verbatim>\<open>io.ReadAll\<close> over a body limited to \<open>N\<close> bytes returns the body and no error
  exactly when the body is shorter than \<open>N\<close> (or has \<open>N\<close> bytes and announces its end
  together with the last of them) and ends in \<^verbatim>\<open>io.EOF\<close>; a longer body always ends in
  \<^verbatim>\<open>ErrTooLong\<close>, and at most \<open>N\<close> bytes are handed on, however the reads are cut.
\<close>

theorem ReadAll_limited_exact:
  assumes "proper_stream s"
  shows "ReadAll room [] (NewLimitReadCloser (Stream s) N) =
    (take (nat N) (concat (st_chunks s)),
     if 0 < N \<and> (int (length (concat (st_chunks s))) < N \<or>
          int (length (concat (st_chunks s))) = N \<and> st_eager s)
     then (if st_end s = EOF then None else Some (st_end s)) else Some ErrTooLong)"
  using ReadAll_limited [OF assms, of room N]
  by (auto simp: NewLimitReadCloser_def LimitReader_def limited_end_def Let_def)

theorem ReadAll_limited_exact_witness:
  "ReadAll (\<lambda>_. 2) [] (NewLimitReadCloser (Stream \<lparr>st_chunks = [''abc'', ''d''], st_end = EOF, st_eager = False\<rparr>) 4) =
     (''abcd'', Some ErrTooLong) \<and>
   ReadAll (\<lambda>_. 2) [] (NewLimitReadCloser (Stream \<lparr>st_chunks = [''abc'', ''d''], st_end = EOF, st_eager = False\<rparr>) 5) =
     (''abcd'', None)"
proof -
  have "proper_stream \<lparr>st_chunks = [''abc'', ''d''], st_end = EOF, st_eager = False\<rparr>"
    by (simp add: proper_stream_def)
  from ReadAll_limited_exact [OF this, of "\<lambda>_. 2" 4] ReadAll_limited_exact [OF this, of "\<lambda>_. 2" 5]
  show ?thesis by simp
qed

end
