(* ===== verification/Client_Model.thy ===== *)
theory Client_Model
  imports Go_Prelude
begin

text \<open>
  The data the metric-family packages work on: the fields of the protobuf structs of
  \<^verbatim>\<open>vendor/github.com/prometheus/client_model/go/metrics.pb.go\<close> that the source reads
  or writes, their nil-safe getters, the errors of \<^verbatim>\<open>pkg/metricfamily\<close> and the result
  type of the \<^verbatim>\<open>Transformer\<close> interface.  A pointer is an option and a slice a list, so
  \<^verbatim>\<open>[]*Metric\<close> is a list of options.  A \<^verbatim>\<open>float64\<close> is only ever copied and is
  kept as its 64 bits.
\<close>

section \<open>Structs\<close>

type_synonym float64 = "64 word"

record label_pair =
  lp_Name :: "string option"
  lp_Value :: "string option"

record gauge = g_Value :: "float64 option"
record counter = c_Value :: "float64 option"
record untyped = u_Value :: "float64 option"
record summary = s_SampleCount :: "64 word option"
record histogram = h_SampleCount :: "64 word option"

datatype metric_type =
  COUNTER | GAUGE | SUMMARY | UNTYPED | HISTOGRAM | GAUGE_HISTOGRAM | OTHER_TYPE int

record metric =
  m_Label :: "label_pair option list"
  m_Gauge :: "gauge option"
  m_Counter :: "counter option"
  m_Summary :: "summary option"
  m_Untyped :: "untyped option"
  m_Histogram :: "histogram option"
  m_TimestampMs :: "int option"

record family =
  f_Name :: "string option"
  f_Help :: "string option"
  f_Type :: "metric_type option"
  f_Metric :: "metric option list"

section \<open>Getters\<close>

text \<open>The generated getters accept a nil receiver and a nil field.\<close>

definition GetName :: "label_pair option \<Rightarrow> string" where
  "GetName p = (case Option.bind p lp_Name of None \<Rightarrow> [] | Some s \<Rightarrow> s)"

definition GetValue :: "label_pair option \<Rightarrow> string" where
  "GetValue p = (case Option.bind p lp_Value of None \<Rightarrow> [] | Some s \<Rightarrow> s)"

definition GetTimestampMs :: "metric option \<Rightarrow> int" where
  "GetTimestampMs m = (case Option.bind m m_TimestampMs of None \<Rightarrow> 0 | Some t \<Rightarrow> t)"

definition family_GetName :: "family option \<Rightarrow> string" where
  "family_GetName f = (case Option.bind f f_Name of None \<Rightarrow> [] | Some s \<Rightarrow> s)"

text \<open>A \<^verbatim>\<open>LabelPair{Name: &k, Value: &v}\<close>, and a label with all its fields present.\<close>

definition mk_label :: "string \<Rightarrow> string \<Rightarrow> label_pair" where
  "mk_label k v = \<lparr>lp_Name = Some k, lp_Value = Some v\<rparr>"

section \<open>Errors and the Transformer result\<close>

datatype terr =
    ErrRequiredLabelMissing
  | ErrLabelMismatch string string string
  | ErrUnsorted
  | ErrNoTimestamp
  | ErrTimestampTooOld
  | ErrMetricsNameTooLong
  | ErrUnknownMetricType metric_type
  | ErrLabelNameTooLong
  | ErrLabelValueTooLong
  | ErrFieldNotSet metric_type
  | ErrRetriever string

text \<open>
  \<^verbatim>\<open>Transform(family) (ok bool, err error)\<close> mutates the family it is given, so its
  result is the family after the call with \<^verbatim>\<open>ok\<close> and \<^verbatim>\<open>err\<close>, or a panic.
\<close>

type_synonym tres = "family option \<times> bool \<times> terr option"

text \<open>The non-nil entries of a slice of pointers, in order.\<close>

fun somes :: "'a option list \<Rightarrow> 'a list" where
  "somes [] = []"
| "somes (None # xs) = somes xs"
| "somes (Some x # xs) = x # somes xs"

definition family_metrics :: "family option \<Rightarrow> metric list" where
  "family_metrics f = (case f of None \<Rightarrow> [] | Some fam \<Rightarrow> somes (f_Metric fam))"

text \<open>Concrete metrics and families, for the examples that accompany the theorems.\<close>

definition counter_metric :: "(string \<times> string) list \<Rightarrow> int option \<Rightarrow> metric" where
  "counter_metric ls t =
     \<lparr>m_Label = map (\<lambda>(k, v). Some (mk_label k v)) ls, m_Gauge = None, m_Counter = Some \<lparr>c_Value = Some 1\<rparr>,
      m_Summary = None, m_Untyped = None, m_Histogram = None, m_TimestampMs = t\<rparr>"

definition counter_family :: "string \<Rightarrow> metric option list \<Rightarrow> family" where
  "counter_family n ms = \<lparr>f_Name = Some n, f_Help = None, f_Type = Some COUNTER, f_Metric = ms\<rparr>"

lemmas example_defs = counter_metric_def counter_family_def mk_label_def

section \<open>Lemmas\<close>

lemma GetName_simps [simp]:
  "GetName None = []"
  "lp_Name p = Some n \<Longrightarrow> GetName (Some p) = n"
  by (simp_all add: GetName_def)

lemma GetValue_simps [simp]:
  "GetValue None = []"
  "lp_Value p = Some v \<Longrightarrow> GetValue (Some p) = v"
  by (simp_all add: GetValue_def)

lemma GetTimestampMs_simps [simp]:
  "GetTimestampMs None = 0"
  "GetTimestampMs (Some m) = (case m_TimestampMs m of None \<Rightarrow> 0 | Some t \<Rightarrow> t)"
  by (simp_all add: GetTimestampMs_def)

lemma family_GetName_simps [simp]:
  "family_GetName None = []"
  "family_GetName (Some f) = (case f_Name f of None \<Rightarrow> [] | Some s \<Rightarrow> s)"
  by (simp_all add: family_GetName_def)

lemma mk_label_simps [simp]:
  "lp_Name (mk_label k v) = Some k"
  "lp_Value (mk_label k v) = Some v"
  by (simp_all add: mk_label_def)

lemma somes_append [simp]: "somes (xs @ ys) = somes xs @ somes ys"
  by (induction xs rule: somes.induct) auto

lemma somes_map_Some [simp]: "somes (map Some xs) = xs"
  by (induction xs) auto

lemma somes_map_option [simp]: "somes (map (map_option g) xs) = map g (somes xs)"
  by (induction xs rule: somes.induct) auto

lemma somes_map_option_fun: "somes (map (\<lambda>x. map_option g (h x)) xs) = map g (somes (map h xs))"
  using somes_map_option [of g "map h xs"] by (simp add: comp_def)

lemma set_somes: "x \<in> set (somes xs) \<longleftrightarrow> Some x \<in> set xs"
  by (induction xs rule: somes.induct) auto

lemma somes_filter: "somes (filter (\<lambda>x. x \<noteq> None) xs) = somes xs"
  by (induction xs rule: somes.induct) auto

lemma map_Some_somes: "map Some (somes xs) = filter (\<lambda>x. x \<noteq> None) xs"
  by (induction xs rule: somes.induct) auto

lemma map_Some_somes_id: "None \<notin> set xs \<Longrightarrow> map Some (somes xs) = xs"
  by (induction xs rule: somes.induct) auto

lemma somes_eq_Nil: "somes xs = [] \<longleftrightarrow> (\<forall>x \<in> set xs. x = None)"
  by (induction xs rule: somes.induct) auto

lemma family_metrics_simps [simp]:
  "family_metrics None = []"
  "family_metrics (Some f) = somes (f_Metric f)"
  by (simp_all add: family_metrics_def)

end
