(* ===== verification/Http_Model.thy ===== *)
theory Http_Model
  imports Reader Client_Model
begin

text \<open>
  HTTP as the servers use it: requests with the values the middlewares put into their context,
  responses, and handlers over an explicit state.  \<^verbatim>\<open>authorize.Client\<close> and the two
  context accessors of \<^verbatim>\<open>pkg/authorize/client.go\<close> and
  \<^verbatim>\<open>pkg/server/validator.go\<close> live here because every middleware uses them.
\<close>

section \<open>Clients\<close>

record auth_client =
  cl_ID :: string
  cl_Labels :: "(string \<times> string) list"

section \<open>Requests and responses\<close>

text \<open>
  \<open>rq_header\<close> is \<^verbatim>\<open>Header.Get\<close>, the empty string for an absent header.
  \<open>rq_form n\<close> is the outcome of \<^verbatim>\<open>ParseForm\<close> when the body is cut at \<open>n\<close> bytes:
  an error text or the lookup \<^verbatim>\<open>Form.Get\<close>.  The context holds a client pointer, which may itself be nil, a cluster
  ID, a tenant, and what the client certificate says.
\<close>

datatype ctx_key = CommonNameContextKey | OrganizationContextKey

record request =
  rq_method :: string
  rq_header :: "string \<Rightarrow> string"
  rq_form :: "int \<Rightarrow> string + (string \<Rightarrow> string)"
  rq_body :: body
  rq_client :: "auth_client option option"
  rq_cluster :: "string option"
  rq_tenant :: "string option"
  rq_values :: "ctx_key \<Rightarrow> string option"

text \<open>
  The text of a response, or the error or value whose rendering it is.
\<close>

record token_response =
  tr_Version :: int
  tr_Token :: string
  tr_ExpiresInSeconds :: int
  tr_Labels :: "(string \<times> string) list"

text \<open>The errors of the client authorizer: those of the JOSE library and its own.\<close>

datatype client_err =
    LibErr string
  | MultipleErrors "string list"
  | InvalidIssuer string string
  | TokenExpired
  | TokenNotValidated
  | InvalidAudience

datatype content =
    Empty
  | Text string
  | TransformError terr
  | WriteLimitReached string
  | NotAuthorized client_err
  | Token token_response
  | Upstream_status int
  | InternalError int
  | ReadError io_err
  | UpstreamUnreadable io_err

record response =
  rs_status :: int
  rs_retryAfter :: "string option"
  rs_content :: content

definition http_Error :: "content \<Rightarrow> int \<Rightarrow> response" where
  "http_Error c code = \<lparr>rs_status = code, rs_retryAfter = None, rs_content = c\<rparr>"

definition StatusOK :: int where "StatusOK = 200"
definition StatusCreated :: int where "StatusCreated = 201"
definition StatusBadRequest :: int where "StatusBadRequest = 400"
definition StatusUnauthorized :: int where "StatusUnauthorized = 401"
definition StatusForbidden :: int where "StatusForbidden = 403"
definition StatusNotFound :: int where "StatusNotFound = 404"
definition StatusMethodNotAllowed :: int where "StatusMethodNotAllowed = 405"
definition StatusConflict :: int where "StatusConflict = 409"
definition StatusRequestEntityTooLarge :: int where "StatusRequestEntityTooLarge = 413"
definition StatusTooManyRequests :: int where "StatusTooManyRequests = 429"
definition StatusInternalServerError :: int where "StatusInternalServerError = 500"
definition StatusBadGateway :: int where "StatusBadGateway = 502"

lemmas status_defs = StatusOK_def StatusCreated_def StatusBadRequest_def StatusUnauthorized_def
  StatusForbidden_def StatusNotFound_def StatusMethodNotAllowed_def StatusConflict_def
  StatusRequestEntityTooLarge_def StatusTooManyRequests_def StatusInternalServerError_def
  StatusBadGateway_def

text \<open>\<^verbatim>\<open>bytes.NewBuffer\<close> as a body, and the response of a handler that writes nothing.\<close>

definition buffer :: "string \<Rightarrow> body" where
  "buffer data = Stream \<lparr>st_chunks = (if data = [] then [] else [data]), st_end = EOF, st_eager = False\<rparr>"

definition empty_response :: response where
  "empty_response = \<lparr>rs_status = StatusOK, rs_retryAfter = None, rs_content = Empty\<rparr>"

type_synonym 's handler = "'s \<Rightarrow> request \<Rightarrow> ('s \<times> response) go"

section \<open>Context\<close>

definition WithClient :: "request \<Rightarrow> auth_client option \<Rightarrow> request" where
  "WithClient r c = r\<lparr>rq_client := Some c\<rparr>"

text \<open>The type assertion succeeds on a nil client: the pointer is what is stored.\<close>

definition FromContext :: "request \<Rightarrow> auth_client option \<times> bool" where
  "FromContext r = (case rq_client r of None \<Rightarrow> (None, False) | Some c \<Rightarrow> (c, True))"

definition WithClusterID :: "request \<Rightarrow> string \<Rightarrow> request" where
  "WithClusterID r k = r\<lparr>rq_cluster := Some k\<rparr>"

definition ClusterIDFromContext :: "request \<Rightarrow> string \<times> bool" where
  "ClusterIDFromContext r = (case rq_cluster r of None \<Rightarrow> ([], False) | Some k \<Rightarrow> (k, True))"

text \<open>Indexing a \<^verbatim>\<open>map[string]string\<close>: the empty string for a missing key.\<close>

definition map_get :: "(string \<times> string) list \<Rightarrow> string \<Rightarrow> string" where
  "map_get m k = (case map_of m k of None \<Rightarrow> [] | Some v \<Rightarrow> v)"

lemma body_left_buffer [simp]: "body_left (buffer data) = data"
  by (simp add: buffer_def)

lemma ReadAll_buffer [simp]: "ReadAll room [] (buffer data) = (data, None)"
  unfolding buffer_def ReadAll_stream by simp

lemma FromContext_WithClient [simp]: "FromContext (WithClient r c) = (c, True)"
  by (simp add: FromContext_def WithClient_def)

lemma ClusterIDFromContext_WithClusterID [simp]: "ClusterIDFromContext (WithClusterID r k) = (k, True)"
  by (simp add: ClusterIDFromContext_def WithClusterID_def)

lemma WithClusterID_keeps [simp]:
  "rq_client (WithClusterID r k) = rq_client r"
  "rq_body (WithClusterID r k) = rq_body r"
  "rq_header (WithClusterID r k) = rq_header r"
  by (simp_all add: WithClusterID_def)

lemma http_Error_simps [simp]:
  "rs_status (http_Error c code) = code"
  "rs_retryAfter (http_Error c code) = None"
  "rs_content (http_Error c code) = c"
  by (simp_all add: http_Error_def)

end
