(* ===== verification/Pack.thy ===== *)
theory Pack
  imports Client_Model
begin

text \<open>
  The in-place compaction loops of \<^verbatim>\<open>pkg/metricfamily/pack.go\<close> (\<^verbatim>\<open>PackMetrics\<close>,
  \<^verbatim>\<open>Pack\<close>) and \<^verbatim>\<open>pkg/metricfamily/invalid.go\<close> (\<^verbatim>\<open>PackLabels\<close>).  The
  three Go functions are the same two-pointer loop over a slice, with a different test for a
  hole; the loop is written once, over the test and the nil that is left behind, and each
  function instantiates it.  The locale \<open>slice_packer\<close> proves that the loop is an
  order-preserving filter and is interpreted for the three of them.
\<close>

section \<open>The loop\<close>

text \<open>The inner loop: the first index from \<open>k\<close> on that is not a hole.\<close>

function pack_scan :: "('a \<Rightarrow> bool) \<Rightarrow> 'a list \<Rightarrow> nat \<Rightarrow> nat option" where
  "pack_scan hole xs k =
     (if k < length xs
      then (if hole (xs ! k) then pack_scan hole xs (Suc k) else Some k)
      else None)"
  by pat_completeness auto
termination
  by (relation "measure (\<lambda>(hole, xs, k). length xs - k)") auto

text \<open>
  The outer loop at index \<open>i\<close>: keep a live entry, otherwise move the next live one into
  the hole and leave nil behind, otherwise cut the slice at \<open>i\<close>.
\<close>

function pack_loop :: "('a \<Rightarrow> bool) \<Rightarrow> 'a \<Rightarrow> 'a list \<Rightarrow> nat \<Rightarrow> nat \<Rightarrow> 'a list" where
  "pack_loop hole nl xs i nxt =
     (if i < length xs
      then (if \<not> hole (xs ! i) then pack_loop hole nl xs (Suc i) nxt
            else (let nxt' = (if nxt \<le> i then Suc i else nxt)
                  in (case pack_scan hole xs nxt' of
                        Some k \<Rightarrow> pack_loop hole nl (xs[i := xs ! k, k := nl]) (Suc i) (Suc k)
                      | None \<Rightarrow> take i xs)))
      else xs)"
  by pat_completeness auto
termination
  by (relation "measure (\<lambda>(hole, nl, xs, i, nxt). length xs - i)") auto

declare pack_scan.simps [simp del] pack_loop.simps [simp del]

section \<open>PackMetrics, Pack and PackLabels\<close>

definition PackMetrics :: "family option \<Rightarrow> tres go" where
  "PackMetrics family =
     go_bind (deref family) (\<lambda>f.
       let ms = pack_loop (\<lambda>m. m = None) None (f_Metric f) 0 0
       in Ret (Some (f\<lparr>f_Metric := ms\<rparr>), length ms > 0, None))"

definition empty_family :: "family option \<Rightarrow> bool" where
  "empty_family f = (case f of None \<Rightarrow> True | Some fam \<Rightarrow> length (f_Metric fam) = 0)"

definition Pack :: "family option list \<Rightarrow> family option list" where
  "Pack families = pack_loop empty_family None families 0 0"

definition PackLabels :: "label_pair option list \<Rightarrow> label_pair option list" where
  "PackLabels ls = pack_loop (\<lambda>l. l = None) None ls 0 0"

section \<open>The loop is a filter\<close>

lemma pack_scan_Some:
  "pack_scan hole xs k = Some j \<Longrightarrow>
     k \<le> j \<and> j < length xs \<and> \<not> hole (xs ! j) \<and> (\<forall>m. k \<le> m \<and> m < j \<longrightarrow> hole (xs ! m))"
proof (induction hole xs k rule: pack_scan.induct)
  case (1 hole xs k)
  show ?case
  proof (cases "k < length xs \<and> hole (xs ! k)")
    case True
    with 1 have "Suc k \<le> j \<and> j < length xs \<and> \<not> hole (xs ! j) \<and>
        (\<forall>m. Suc k \<le> m \<and> m < j \<longrightarrow> hole (xs ! m))"
      by (simp add: pack_scan.simps [of hole xs k])
    with True show ?thesis by (metis Suc_leD le_neq_implies_less Suc_leI)
  next
    case False
    with "1.prems" show ?thesis by (auto simp: pack_scan.simps [of hole xs k] split: if_splits)
  qed
qed

lemma pack_scan_None:
  "pack_scan hole xs k = None \<Longrightarrow> \<forall>m. k \<le> m \<and> m < length xs \<longrightarrow> hole (xs ! m)"
proof (induction hole xs k rule: pack_scan.induct)
  case (1 hole xs k)
  show ?case
  proof (cases "k < length xs \<and> hole (xs ! k)")
    case True
    with 1 have "\<forall>m. Suc k \<le> m \<and> m < length xs \<longrightarrow> hole (xs ! m)"
      by (simp add: pack_scan.simps [of hole xs k])
    with True show ?thesis by (metis le_neq_implies_less Suc_leI)
  next
    case False
    with "1.prems" show ?thesis by (auto simp: pack_scan.simps [of hole xs k] split: if_splits)
  qed
qed

locale slice_packer =
  fixes hole :: "'a \<Rightarrow> bool" and nl :: 'a
  assumes nil_is_hole: "hole nl"
begin

text \<open>Moving the next live entry into a hole does not change the live entries.\<close>

lemma filter_move:
  assumes "i < k" and "k < length xs" and "\<forall>m. i \<le> m \<and> m < k \<longrightarrow> hole (xs ! m)"
    and "\<not> hole (xs ! k)"
  shows "filter (Not \<circ> hole) (xs[i := xs ! k, k := nl]) = filter (Not \<circ> hole) xs"
proof -
  let ?live = "filter (Not \<circ> hole)" and ?ys = "xs[i := xs ! k, k := nl]"
  have at_i: "?live ?ys = ?live (take i xs) @ [xs ! k] @ ?live (drop (Suc i) ?ys)"
    using assms by (subst id_take_nth_drop [of i ?ys]) simp_all
  have "?live (drop (Suc i) ?ys) = ?live (drop (Suc k) ?ys)"
  proof (rule filter_none_in_range)
    show "\<forall>m. Suc i \<le> m \<and> m < Suc k \<longrightarrow> \<not> (Not \<circ> hole) (?ys ! m)"
      using assms nil_is_hole by (auto simp: nth_list_update less_Suc_eq)
  qed (use assms in auto)
  also have "\<dots> = ?live (drop (Suc k) xs)" using assms by simp
  finally have tail: "?live (drop (Suc i) ?ys) = ?live (drop (Suc k) xs)" .
  have "?live (drop i xs) = ?live (drop k xs)"
    by (rule filter_none_in_range) (use assms in auto)
  also have "\<dots> = xs ! k # ?live (drop (Suc k) xs)"
    using assms by (simp add: Cons_nth_drop_Suc [symmetric])
  finally have "?live xs = ?live (take i xs) @ xs ! k # ?live (drop (Suc k) xs)"
    by (metis append_take_drop_id filter_append)
  with at_i tail show ?thesis by simp
qed

text \<open>
  The invariant of the outer loop: everything before \<open>i\<close> is live and everything from
  \<open>i\<close> up to \<open>nxt\<close> is a hole.
\<close>

lemma pack_loop_filter:
  assumes "i \<le> length xs" and "nxt \<le> length xs"
    and "list_all (Not \<circ> hole) (take i xs)"
    and "\<forall>m. i \<le> m \<and> m < nxt \<longrightarrow> hole (xs ! m)"
  shows "pack_loop hole nl xs i nxt = filter (Not \<circ> hole) xs"
  using assms
proof (induction "length xs - i" arbitrary: xs i nxt)
  case 0
  then have "i = length xs" by simp
  with 0 show ?case
    by (subst pack_loop.simps) (simp add: filter_id_conv list_all_iff)
next
  case (Suc d)
  then have i: "i < length xs" by simp
  consider (live) "\<not> hole (xs ! i)" | (dead) "hole (xs ! i)" by blast
  then show ?case
  proof cases
    case live
    then have "nxt \<le> i" using Suc.prems(4) by (metis le_less_linear order_refl)
    have "pack_loop hole nl xs (Suc i) nxt = filter (Not \<circ> hole) xs"
      by (rule Suc.hyps(1))
        (use Suc.hyps(2) Suc.prems i live \<open>nxt \<le> i\<close> in \<open>auto simp: list_all_take_Suc\<close>)
    with i live show ?thesis by (subst pack_loop.simps) simp
  next
    case dead
    let ?n = "if nxt \<le> i then Suc i else nxt"
    have holes: "\<forall>m. i \<le> m \<and> m < ?n \<longrightarrow> hole (xs ! m)"
      using dead Suc.prems(4) by (auto simp: less_Suc_eq_le le_antisym)
    show ?thesis
    proof (cases "pack_scan hole xs ?n")
      case None
      have "\<forall>m. i \<le> m \<and> m < length xs \<longrightarrow> hole (xs ! m)"
        using pack_scan_None [OF None] holes by (meson not_le)
      then have "filter (Not \<circ> hole) (drop i xs) = filter (Not \<circ> hole) (drop (length xs) xs)"
        by (intro filter_none_in_range) (use i in auto)
      then have "filter (Not \<circ> hole) xs = filter (Not \<circ> hole) (take i xs)"
        by (metis append_take_drop_id filter_append append_Nil2 drop_all filter.simps(1) order_refl)
      also have "\<dots> = take i xs" using Suc.prems(3) by (simp add: filter_id_conv list_all_iff)
      finally show ?thesis using i dead None by (subst pack_loop.simps) (simp add: Let_def)
    next
      case (Some k)
      note k = pack_scan_Some [OF Some]
      have "i < ?n" by auto
      with k have ik: "i < k" by simp
      have all: "\<forall>m. i \<le> m \<and> m < k \<longrightarrow> hole (xs ! m)" using k holes by (meson not_le)
      let ?ys = "xs[i := xs ! k, k := nl]"
      have "pack_loop hole nl ?ys (Suc i) (Suc k) = filter (Not \<circ> hole) ?ys"
        by (rule Suc.hyps(1))
          (use Suc.hyps(2) Suc.prems(3) i ik k all nil_is_hole in
            \<open>auto simp: list_all_take_Suc nth_list_update less_Suc_eq\<close>)
      also have "\<dots> = filter (Not \<circ> hole) xs"
        using filter_move ik k all by blast
      finally show ?thesis using i dead Some by (subst pack_loop.simps) (simp add: Let_def)
    qed
  qed
qed

lemma pack_is_filter: "pack_loop hole nl xs 0 0 = filter (Not \<circ> hole) xs"
  by (rule pack_loop_filter) auto

end

interpretation metric_packer: slice_packer "\<lambda>m :: metric option. m = None" None
  by unfold_locales simp

interpretation label_packer: slice_packer "\<lambda>l :: label_pair option. l = None" None
  by unfold_locales simp

interpretation family_packer: slice_packer empty_family None
  by unfold_locales (simp add: empty_family_def)

lemma PackLabels_filter [simp]: "PackLabels ls = filter (\<lambda>l. l \<noteq> None) ls"
  by (simp add: PackLabels_def label_packer.pack_is_filter comp_def)

lemma Pack_filter: "Pack fs = filter (\<lambda>f. \<not> empty_family f) fs"
  by (simp add: Pack_def family_packer.pack_is_filter comp_def)

lemma PackMetrics_filter:
  "PackMetrics (Some f) =
     Ret (Some (f\<lparr>f_Metric := filter (\<lambda>m. m \<noteq> None) (f_Metric f)\<rparr>),
          \<exists>m. Some m \<in> set (f_Metric f), None)"
  by (auto simp: PackMetrics_def metric_packer.pack_is_filter comp_def filter_empty_conv
      length_greater_0_conv)

section \<open>Properties\<close>

text \<open>
  C26: the in-place compaction loops are order-preserving filters: \<^verbatim>\<open>Pack\<close> keeps
  exactly the families that are not nil and have metrics, \<^verbatim>\<open>PackMetrics\<close> exactly the
  non-nil metrics (reporting whether any is left) and \<^verbatim>\<open>PackLabels\<close> exactly the
  non-nil labels.
\<close>

theorem pack_loops_are_filters:
  "Pack fs = filter (\<lambda>f. \<exists>x. f = Some x \<and> f_Metric x \<noteq> []) fs \<and>
   PackMetrics (Some f) =
     Ret (Some (f\<lparr>f_Metric := filter (\<lambda>m. m \<noteq> None) (f_Metric f)\<rparr>), somes (f_Metric f) \<noteq> [], None) \<and>
   PackLabels ls = filter (\<lambda>l. l \<noteq> None) ls"
proof -
  have "Pack fs = filter (\<lambda>f. \<exists>x. f = Some x \<and> f_Metric x \<noteq> []) fs"
    unfolding Pack_filter by (rule filter_cong) (auto simp: empty_family_def split: option.splits)
  moreover have "(\<exists>m. Some m \<in> set (f_Metric f)) \<longleftrightarrow> somes (f_Metric f) \<noteq> []"
    by (auto simp: somes_eq_Nil)
  ultimately show ?thesis by (simp add: PackMetrics_filter del: not_None_eq)
qed

end
