(* ===== verification/Sample_Filters.thy ===== *)
theory Sample_Filters
  imports Client_Model "HOL-Library.Sublist"
begin

text \<open>
  The small transformers of \<^verbatim>\<open>pkg/metricfamily\<close>: \<^verbatim>\<open>none.go\<close>, \<^verbatim>\<open>empty.go\<close>,
  \<^verbatim>\<open>count.go\<close>, \<^verbatim>\<open>rename.go\<close>, \<^verbatim>\<open>drop_timestamp.go\<close>,
  \<^verbatim>\<open>drop_unsorted.go\<close>, \<^verbatim>\<open>expired.go\<close>, \<^verbatim>\<open>elide.go\<close> and
  \<^verbatim>\<open>overwrite.go\<close>, with the part of the outside world a transformer reads or counts
  in: the clock, the answers of a label retriever and the Prometheus counters.
\<close>

section \<open>The world a transformer runs in\<close>

text \<open>
  \<open>w_now\<close> gives the readings of \<^verbatim>\<open>now()\<close> in the order of the calls and
  \<open>w_labels\<close> the answers of \<^verbatim>\<open>LabelRetriever.Labels()\<close>; any clock and any
  (stateful) retriever is such a sequence.  The other fields are the counters
  \<^verbatim>\<open>telemeter_overwritten_timestamps_total\<close> by tense and
  \<^verbatim>\<open>telemeter_elide_transform_dropped_total\<close>.
\<close>

record world =
  w_now :: "nat \<Rightarrow> time"
  w_ticks :: nat
  w_labels :: "nat \<Rightarrow> terr + (string \<times> string) list"
  w_labelCalls :: nat
  w_past :: nat
  w_future :: nat
  w_present :: nat
  w_elideSkipped :: nat

definition read_now :: "world \<Rightarrow> time \<times> world" where
  "read_now w = (w_now w (w_ticks w), w\<lparr>w_ticks := Suc (w_ticks w)\<rparr>)"

text \<open>A world whose clock stands still at \<open>t\<close>, for the examples.\<close>

definition still_world :: "time \<Rightarrow> world" where
  "still_world t = \<lparr>w_now = (\<lambda>_. t), w_ticks = 0, w_labels = (\<lambda>_. Inr []), w_labelCalls = 0,
     w_past = 0, w_future = 0, w_present = 0, w_elideSkipped = 0\<rparr>"

section \<open>Stateless filters\<close>

definition None_Transform :: "family option \<Rightarrow> tres go" where
  "None_Transform family = Ret (family, True, None)"

fun any_metric :: "metric option list \<Rightarrow> bool" where
  "any_metric [] = False"
| "any_metric (m # ms) = (if m \<noteq> None then True else any_metric ms)"

definition DropEmptyFamilies :: "family option \<Rightarrow> tres go" where
  "DropEmptyFamilies family =
     go_bind (deref family) (\<lambda>f. Ret (family, any_metric (f_Metric f), None))"

record count_state =
  cnt_families :: int
  cnt_metrics :: int

definition Count_Transform :: "count_state \<Rightarrow> family option \<Rightarrow> (count_state \<times> tres) go" where
  "Count_Transform t family =
     go_bind (deref family) (\<lambda>f.
       Ret (t\<lparr>cnt_families := wrap64 (cnt_families t + 1),
              cnt_metrics := wrap64 (cnt_metrics t + int (length (f_Metric f)))\<rparr>,
            family, True, None))"

definition RenameMetrics_Transform :: "(string \<rightharpoonup> string) \<Rightarrow> family option \<Rightarrow> tres go" where
  "RenameMetrics_Transform names family =
     (case family of
        None \<Rightarrow> Ret (family, True, None)
      | Some f \<Rightarrow>
          (case f_Name f of
             None \<Rightarrow> Ret (family, True, None)
           | Some n \<Rightarrow>
               (case names n of
                  Some r \<Rightarrow> Ret (Some (f\<lparr>f_Name := Some r\<rparr>), True, None)
                | None \<Rightarrow> Ret (family, True, None))))"

definition DropTimestamp :: "family option \<Rightarrow> tres go" where
  "DropTimestamp family =
     (case family of
        None \<Rightarrow> Ret (None, True, None)
      | Some f \<Rightarrow>
          Ret (Some (f\<lparr>f_Metric := map (map_option (\<lambda>m. m\<lparr>m_TimestampMs := None\<rparr>)) (f_Metric f)\<rparr>),
               True, None))"

section \<open>Dropping samples by timestamp\<close>

text \<open>
  \<^verbatim>\<open>DropUnsorted\<close> keeps the last accepted timestamp in its state while it scans and
  resets it at the end.
\<close>

definition sample_ts :: "metric \<Rightarrow> int" where
  "sample_ts m = (case m_TimestampMs m of None \<Rightarrow> 0 | Some t \<Rightarrow> t)"

fun drop_unsorted_loop :: "int \<Rightarrow> metric option list \<Rightarrow> metric option list" where
  "drop_unsorted_loop prev [] = []"
| "drop_unsorted_loop prev (None # ms) = None # drop_unsorted_loop prev ms"
| "drop_unsorted_loop prev (Some m # ms) =
     (if sample_ts m < prev then None # drop_unsorted_loop prev ms
      else Some m # drop_unsorted_loop (sample_ts m) ms)"

definition DropUnsorted_Transform :: "int \<Rightarrow> family option \<Rightarrow> (int \<times> tres) go" where
  "DropUnsorted_Transform timestamp family =
     go_bind (deref family) (\<lambda>f.
       Ret (0, Some (f\<lparr>f_Metric := drop_unsorted_loop timestamp (f_Metric f)\<rparr>), True, None))"

definition min_ms :: "time \<Rightarrow> int" where
  "min_ms t = wrap64 (Unix t * 1000)"

definition NewDropExpiredSamples :: "time \<Rightarrow> int" where
  "NewDropExpiredSamples t = min_ms t"

fun drop_expired_loop :: "int \<Rightarrow> metric option list \<Rightarrow> metric option list" where
  "drop_expired_loop mn [] = []"
| "drop_expired_loop mn (m # ms) =
     (if m = None then m
      else if GetTimestampMs m < mn then None else m) # drop_expired_loop mn ms"

definition dropExpiredSamples_Transform :: "int \<Rightarrow> family option \<Rightarrow> tres go" where
  "dropExpiredSamples_Transform mn family =
     go_bind (deref family) (\<lambda>f.
       Ret (Some (f\<lparr>f_Metric := drop_expired_loop mn (f_Metric f)\<rparr>), True, None))"

section \<open>Eliding labels\<close>

definition NewElide :: "string list \<Rightarrow> string set" where
  "NewElide ls = set ls"

fun elide_labels :: "string set \<Rightarrow> label_pair option list \<Rightarrow> label_pair option list" where
  "elide_labels labelSet [] = []"
| "elide_labels labelSet (l # ls) =
     (if GetName l \<in> labelSet then elide_labels labelSet ls
      else l # elide_labels labelSet ls)"

fun elide_loop :: "string set \<Rightarrow> world \<Rightarrow> metric option list \<Rightarrow> world \<times> metric option list" where
  "elide_loop labelSet w [] = (w, [])"
| "elide_loop labelSet w (None # ms) =
     elide_loop labelSet (w\<lparr>w_elideSkipped := Suc (w_elideSkipped w)\<rparr>) ms"
| "elide_loop labelSet w (Some m # ms) =
     (let (w', out) = elide_loop labelSet w ms
      in (w', Some (m\<lparr>m_Label := elide_labels labelSet (m_Label m)\<rparr>) # out))"

definition elide_Transform :: "string set \<Rightarrow> world \<Rightarrow> family option \<Rightarrow> (world \<times> tres) go" where
  "elide_Transform labelSet w family =
     (case family of
        None \<Rightarrow> Ret (w, family, True, None)
      | Some f \<Rightarrow>
          if length (f_Metric f) = 0 then Ret (w, family, True, None)
          else (let (w', ms) = elide_loop labelSet w (f_Metric f)
                in Ret (w', Some (f\<lparr>f_Metric := ms\<rparr>), True, None)))"

section \<open>Overwriting timestamps\<close>

definition driftRange :: duration where
  "driftRange = 5 * Minute"

definition observeDrift :: "world \<Rightarrow> int \<Rightarrow> world" where
  "observeDrift w ms =
     (let timestamp = trunc_div ms 1000 * Second; (t1, w1) = read_now w
      in if timestamp < t1 - driftRange then w1\<lparr>w_past := Suc (w_past w1)\<rparr>
         else (let (t2, w2) = read_now w1
               in if timestamp > t2 + driftRange then w2\<lparr>w_future := Suc (w_future w2)\<rparr>
                  else w2\<lparr>w_present := Suc (w_present w2)\<rparr>))"

fun overwrite_loop :: "int \<Rightarrow> world \<Rightarrow> metric option list \<Rightarrow> (world \<times> metric option list) go" where
  "overwrite_loop timestamp w [] = Ret (w, [])"
| "overwrite_loop timestamp w (m # ms) =
     (let w1 = observeDrift w (GetTimestampMs m)
      in go_bind (deref m) (\<lambda>x.
           go_bind (overwrite_loop timestamp w1 ms) (\<lambda>(w2, out).
             Ret (w2, Some (x\<lparr>m_TimestampMs := Some timestamp\<rparr>) # out))))"

definition OverwriteTimestamps :: "world \<Rightarrow> family option \<Rightarrow> (world \<times> tres) go" where
  "OverwriteTimestamps w family =
     (let (t, w1) = read_now w; timestamp = wrap64 (Unix t * 1000)
      in go_bind (deref family) (\<lambda>f.
           go_bind (overwrite_loop timestamp w1 (f_Metric f)) (\<lambda>(w2, ms).
             Ret (w2, Some (f\<lparr>f_Metric := ms\<rparr>), True, None))))"

section \<open>What the filters promise\<close>

text \<open>The timestamps of a scan that starts at \<open>prev\<close> and never goes back.\<close>

definition in_order_from :: "int \<Rightarrow> metric list \<Rightarrow> bool" where
  "in_order_from prev ms \<longleftrightarrow> sorted (prev # map sample_ts ms)"

text \<open>The number of observations of \<^verbatim>\<open>observeDrift\<close>, over its three counters.\<close>

definition drift_total :: "world \<Rightarrow> nat" where
  "drift_total w = w_past w + w_future w + w_present w"

section \<open>Lemmas\<close>

lemma any_metric_iff [simp]: "any_metric ms \<longleftrightarrow> somes ms \<noteq> []"
  by (induction ms rule: somes.induct) auto

subsection \<open>DropUnsorted and dropExpiredSamples\<close>

lemma in_order_from_simps [simp]:
  "in_order_from t []"
  "in_order_from t (m # ms) \<longleftrightarrow> t \<le> sample_ts m \<and> in_order_from (sample_ts m) ms"
  by (auto simp: in_order_from_def)

lemma drop_unsorted_in_order: "in_order_from t (somes (drop_unsorted_loop t ms))"
  by (induction t ms rule: drop_unsorted_loop.induct) auto

lemma drop_unsorted_subseq: "subseq (somes (drop_unsorted_loop t ms)) (somes ms)"
  by (induction t ms rule: drop_unsorted_loop.induct) (auto intro: subseq_Cons')

lemma drop_unsorted_length: "length (drop_unsorted_loop t ms) = length ms"
  by (induction t ms rule: drop_unsorted_loop.induct) auto

lemma drop_unsorted_id_iff:
  "drop_unsorted_loop t ms = ms \<longleftrightarrow> in_order_from t (somes ms)"
  by (induction t ms rule: drop_unsorted_loop.induct) auto

lemma drop_expired_map:
  "drop_expired_loop mn ms = map (\<lambda>m. if m \<noteq> None \<and> GetTimestampMs m < mn then None else m) ms"
  by (induction ms) auto

lemma somes_drop_expired:
  "somes (drop_expired_loop mn ms) = filter (\<lambda>m. mn \<le> sample_ts m) (somes ms)"
  by (induction ms rule: somes.induct) (auto simp: sample_ts_def)

subsection \<open>elide\<close>

lemma elide_labels_filter: "elide_labels S ls = filter (\<lambda>l. GetName l \<notin> S) ls"
  by (induction ls) auto

lemma elide_loop_snd:
  "snd (elide_loop S w ms) = map (\<lambda>m. Some (m\<lparr>m_Label := elide_labels S (m_Label m)\<rparr>)) (somes ms)"
  by (induction S w ms rule: elide_loop.induct) (auto split: prod.splits)

lemma elide_loop_fst:
  "fst (elide_loop S w ms) = w\<lparr>w_elideSkipped := w_elideSkipped w + count_list ms None\<rparr>"
  by (induction S w ms rule: elide_loop.induct) (auto split: prod.splits)

lemma elide_Transform_eq:
  "elide_Transform S w (Some f) =
     Ret (w\<lparr>w_elideSkipped := w_elideSkipped w + count_list (f_Metric f) None\<rparr>,
          Some (f\<lparr>f_Metric := map (\<lambda>m. Some (m\<lparr>m_Label := filter (\<lambda>l. GetName l \<notin> S) (m_Label m)\<rparr>))
                 (somes (f_Metric f))\<rparr>),
          True, None)"
  using elide_loop_fst [of S w "f_Metric f"] elide_loop_snd [of S w "f_Metric f"]
  by (auto simp: elide_Transform_def elide_labels_filter split: prod.splits)

subsection \<open>OverwriteTimestamps\<close>

lemma observeDrift_total: "drift_total (observeDrift w ms) = Suc (drift_total w)"
  by (auto simp: observeDrift_def drift_total_def read_now_def Let_def)

lemma overwrite_loop_Ret:
  "overwrite_loop t w ms = Ret (w', out) \<Longrightarrow>
     out = map (map_option (\<lambda>m. m\<lparr>m_TimestampMs := Some t\<rparr>)) ms \<and>
     None \<notin> set ms \<and> drift_total w' = drift_total w + length ms"
proof (induction t w ms arbitrary: out rule: overwrite_loop.induct)
  case (2 t w m ms)
  from "2.prems" obtain x out' where x: "m = Some x"
    and rest: "overwrite_loop t (observeDrift w (GetTimestampMs m)) ms = Ret (w', out')"
    and out: "out = Some (x\<lparr>m_TimestampMs := Some t\<rparr>) # out'"
    by (auto simp: Let_def)
  from "2.IH" [OF refl _ rest] x out show ?case
    by (auto simp: observeDrift_total)
qed auto

lemma overwrite_loop_total:
  "None \<notin> set ms \<Longrightarrow> \<exists>w'. overwrite_loop t w ms =
     Ret (w', map (map_option (\<lambda>m. m\<lparr>m_TimestampMs := Some t\<rparr>)) ms)"
proof (induction ms arbitrary: w)
  case (Cons m ms)
  then obtain x where "m = Some x" by (cases m) auto
  with Cons show ?case by (fastforce simp: Let_def)
qed auto

lemma overwrite_loop_nil: "None \<in> set ms \<Longrightarrow> overwrite_loop t w ms = Panic NilDeref"
proof (induction ms arbitrary: w)
  case (Cons m ms)
  then show ?case by (cases m) (auto simp: Let_def)
qed auto

lemma drop_unsorted_nth:
  "i < length ms \<Longrightarrow> drop_unsorted_loop t ms ! i =
     (case ms ! i of
        None \<Rightarrow> None
      | Some m \<Rightarrow>
          if t \<le> sample_ts m \<and> (\<forall>m' \<in> set (somes (take i ms)). sample_ts m' \<le> sample_ts m) then Some m
          else None)"
proof (induction t ms arbitrary: i rule: drop_unsorted_loop.induct)
  case (2 prev ms)
  then show ?case by (cases i) (auto split: option.splits)
next
  case (3 prev m ms)
  then show ?case by (cases i) (auto split: option.splits)
qed simp

section \<open>Properties\<close>

text \<open>
  \<^verbatim>\<open>DropUnsorted\<close> replaces by nil exactly the samples that are older than some
  earlier sample of the family (or negative), leaves every other entry in place, and so leaves
  a family in timestamp order.
\<close>

theorem DropUnsorted_exact:
  "\<exists>ms. DropUnsorted_Transform 0 (Some f) = Ret (0, Some (f\<lparr>f_Metric := ms\<rparr>), True, None) \<and>
     in_order_from 0 (somes ms) \<and>
     ms = map (\<lambda>i. case f_Metric f ! i of
           None \<Rightarrow> None
         | Some m \<Rightarrow>
             if 0 \<le> sample_ts m \<and> list_all (\<lambda>m'. sample_ts m' \<le> sample_ts m) (somes (take i (f_Metric f)))
             then Some m else None) [0..<length (f_Metric f)]"
proof -
  have "drop_unsorted_loop 0 (f_Metric f) = map (\<lambda>i. case f_Metric f ! i of
           None \<Rightarrow> None
         | Some m \<Rightarrow>
             if 0 \<le> sample_ts m \<and> list_all (\<lambda>m'. sample_ts m' \<le> sample_ts m) (somes (take i (f_Metric f)))
             then Some m else None) [0..<length (f_Metric f)]"
    by (rule nth_equalityI)
      (simp_all add: drop_unsorted_length drop_unsorted_nth list_all_iff split: option.split)
  then show ?thesis using drop_unsorted_in_order [of 0 "f_Metric f"]
    by (auto simp: DropUnsorted_Transform_def)
qed

text \<open>
  \<^verbatim>\<open>OverwriteTimestamps\<close> panics exactly when the family has a nil metric (or is nil);
  otherwise every sample gets the server's time of the call, in milliseconds but cut to the
  second, nothing else changes, and each sample is counted once, as past, future or present.
\<close>

theorem OverwriteTimestamps_exact:
  "(OverwriteTimestamps w (Some f) = Panic NilDeref \<longleftrightarrow> None \<in> set (f_Metric f)) \<and>
   OverwriteTimestamps w None = Panic NilDeref \<and>
   (None \<in> set (f_Metric f) \<or>
    (\<exists>w'. OverwriteTimestamps w (Some f) =
       Ret (w', Some (f\<lparr>f_Metric := map (map_option (\<lambda>m. m\<lparr>m_TimestampMs :=
                  Some (wrap64 (w_now w (w_ticks w) div 1000000000 * 1000))\<rparr>)) (f_Metric f)\<rparr>), True, None) \<and>
       drift_total w' = drift_total w + length (f_Metric f)))"
proof (cases "None \<in> set (f_Metric f)")
  case True
  then show ?thesis by (simp add: OverwriteTimestamps_def read_now_def Let_def overwrite_loop_nil)
next
  case False
  let ?t = "wrap64 (w_now w (w_ticks w) div 1000000000 * 1000)"
  let ?w = "w\<lparr>w_ticks := Suc (w_ticks w)\<rparr>"
  from overwrite_loop_total [OF False, of ?t ?w] obtain w' where
    run: "overwrite_loop ?t ?w (f_Metric f) =
      Ret (w', map (map_option (\<lambda>m. m\<lparr>m_TimestampMs := Some ?t\<rparr>)) (f_Metric f))" by blast
  from overwrite_loop_Ret [OF run] have "drift_total w' = drift_total w + length (f_Metric f)"
    by (simp add: drift_total_def)
  with run False show ?thesis
    by (simp add: OverwriteTimestamps_def read_now_def Let_def Unix_def Second_def)
qed

text \<open>
  \<^verbatim>\<open>NewDropExpiredSamples(min)\<close> keeps exactly the samples whose timestamp (zero if
  absent) is at or after \<open>min\<close>, cut to the second, and turns the others into nil in place;
  \<^verbatim>\<open>elide\<close> removes exactly the nil metrics and the labels it is configured for.
\<close>

theorem expired_and_elided_exact:
  "(\<exists>ms. dropExpiredSamples_Transform (NewDropExpiredSamples t) (Some f) =
      Ret (Some (f\<lparr>f_Metric := ms\<rparr>), True, None) \<and> length ms = length (f_Metric f) \<and>
      somes ms = filter (\<lambda>m. wrap64 (t div 1000000000 * 1000) \<le> sample_ts m) (somes (f_Metric f))) \<and>
   (\<exists>w'. elide_Transform (NewElide names) w (Some f) =
      Ret (w', Some (f\<lparr>f_Metric := map (\<lambda>m. Some (m\<lparr>m_Label := filter (\<lambda>l. GetName l \<notin> set names) (m_Label m)\<rparr>))
              (somes (f_Metric f))\<rparr>), True, None))"
proof -
  let ?mn = "wrap64 (t div 1000000000 * 1000)"
  have "length (drop_expired_loop ?mn (f_Metric f)) = length (f_Metric f)" by (simp add: drop_expired_map)
  then show ?thesis
    by (auto simp: dropExpiredSamples_Transform_def NewDropExpiredSamples_def min_ms_def Unix_def Second_def
        somes_drop_expired elide_Transform_eq NewElide_def intro!: exI [of _ "drop_expired_loop ?mn (f_Metric f)"])
qed

end
