(* ===== verification/Validation.thy ===== *)
theory Validation
  imports Pack Sample_Filters
begin

text \<open>
  The transformers that reject or repair a family: \<^verbatim>\<open>pkg/metricfamily/required.go\<close>,
  \<^verbatim>\<open>pkg/metricfamily/unsorted.go\<close> and \<^verbatim>\<open>pkg/metricfamily/invalid.go\<close>.
  \<open>valid_family\<close> states what a family has to look like, independently of the code; the
  lemmas show that \<^verbatim>\<open>errorInvalidFederateSamples\<close> decides it and that
  \<^verbatim>\<open>dropInvalidFederateSamples\<close> establishes it.
\<close>

section \<open>Required labels\<close>

text \<open>
  A Go map that is iterated is a list of key/value pairs with distinct keys, in the order
  the iteration happens to take; the theorems hold for every order.
\<close>

fun require_in_labels :: "string \<Rightarrow> string \<Rightarrow> label_pair option list \<Rightarrow> terr option" where
  "require_in_labels k v [] = Some ErrRequiredLabelMissing"
| "require_in_labels k v (None # ls) = require_in_labels k v ls"
| "require_in_labels k v (Some l # ls) =
     (if GetName (Some l) = k
      then (if GetValue (Some l) \<noteq> v
            then Some (ErrLabelMismatch (GetName (Some l)) v (GetValue (Some l)))
            else None)
      else require_in_labels k v ls)"

fun require_in_metrics :: "string \<Rightarrow> string \<Rightarrow> metric option list \<Rightarrow> terr option" where
  "require_in_metrics k v [] = None"
| "require_in_metrics k v (None # ms) = require_in_metrics k v ms"
| "require_in_metrics k v (Some m # ms) =
     (case require_in_labels k v (m_Label m) of
        Some e \<Rightarrow> Some e
      | None \<Rightarrow> require_in_metrics k v ms)"

fun require_each :: "(string \<times> string) list \<Rightarrow> metric option list \<Rightarrow> terr option" where
  "require_each [] ms = None"
| "require_each ((k, v) # kvs) ms =
     (case require_in_metrics k v ms of
        Some e \<Rightarrow> Some e
      | None \<Rightarrow> require_each kvs ms)"

definition requireLabel_Transform :: "(string \<times> string) list \<Rightarrow> family option \<Rightarrow> tres go" where
  "requireLabel_Transform labels family =
     (if labels = [] then Ret (family, True, None)
      else go_bind (deref family) (\<lambda>f.
        (case require_each labels (f_Metric f) of
           Some e \<Rightarrow> Ret (family, False, Some e)
         | None \<Rightarrow> Ret (family, True, None))))"

section \<open>Timestamp order\<close>

record errorOnUnsorted =
  eu_timestamp :: int
  eu_require :: bool

definition NewErrorOnUnsorted :: "bool \<Rightarrow> errorOnUnsorted" where
  "NewErrorOnUnsorted requireTimestamp = \<lparr>eu_timestamp = 0, eu_require = requireTimestamp\<rparr>"

fun unsorted_loop :: "bool \<Rightarrow> int \<Rightarrow> metric option list \<Rightarrow> int \<times> terr option" where
  "unsorted_loop req ts [] = (ts, None)"
| "unsorted_loop req ts (None # ms) = unsorted_loop req ts ms"
| "unsorted_loop req ts (Some m # ms) =
     (if m_TimestampMs m = None \<and> req then (ts, Some ErrNoTimestamp)
      else if sample_ts m < ts then (ts, Some ErrUnsorted)
      else unsorted_loop req (sample_ts m) ms)"

definition errorOnUnsorted_Transform ::
  "errorOnUnsorted \<Rightarrow> family option \<Rightarrow> (errorOnUnsorted \<times> tres) go" where
  "errorOnUnsorted_Transform t family =
     go_bind (deref family) (\<lambda>f.
       let (ts, err) = unsorted_loop (eu_require t) 0 (f_Metric f)
       in Ret (t\<lparr>eu_timestamp := ts\<rparr>, family, err = None, err))"

section \<open>Invalid samples\<close>

definition bad_name :: "label_pair \<Rightarrow> bool" where
  "bad_name l = (case lp_Name l of None \<Rightarrow> True | Some n \<Rightarrow> length n = 0 \<or> length n > 255)"

definition bad_value :: "label_pair \<Rightarrow> bool" where
  "bad_value l = (case lp_Value l of None \<Rightarrow> True | Some v \<Rightarrow> length v > 255)"

fun federated_type :: "metric_type \<Rightarrow> bool" where
  "federated_type COUNTER = True"
| "federated_type GAUGE = True"
| "federated_type HISTOGRAM = True"
| "federated_type SUMMARY = True"
| "federated_type UNTYPED = True"
| "federated_type _ = False"

fun bad_field :: "metric_type \<Rightarrow> metric \<Rightarrow> bool" where
  "bad_field COUNTER m = (m_Counter m = None \<or> m_Gauge m \<noteq> None \<or> m_Histogram m \<noteq> None \<or>
     m_Summary m \<noteq> None \<or> m_Untyped m \<noteq> None)"
| "bad_field GAUGE m = (m_Counter m \<noteq> None \<or> m_Gauge m = None \<or> m_Histogram m \<noteq> None \<or>
     m_Summary m \<noteq> None \<or> m_Untyped m \<noteq> None)"
| "bad_field HISTOGRAM m = (m_Counter m \<noteq> None \<or> m_Gauge m \<noteq> None \<or> m_Histogram m = None \<or>
     m_Summary m \<noteq> None \<or> m_Untyped m \<noteq> None)"
| "bad_field SUMMARY m = (m_Counter m \<noteq> None \<or> m_Gauge m \<noteq> None \<or> m_Histogram m \<noteq> None \<or>
     m_Summary m = None \<or> m_Untyped m \<noteq> None)"
| "bad_field UNTYPED m = (m_Counter m \<noteq> None \<or> m_Gauge m \<noteq> None \<or> m_Histogram m \<noteq> None \<or>
     m_Summary m \<noteq> None \<or> m_Untyped m = None)"
| "bad_field _ m = False"

subsection \<open>errorInvalidFederateSamples\<close>

fun check_labels :: "label_pair option list \<Rightarrow> terr option go" where
  "check_labels [] = Ret None"
| "check_labels (l # ls) =
     go_bind (deref l) (\<lambda>p.
       if bad_name p then Ret (Some ErrLabelNameTooLong)
       else if bad_value p then Ret (Some ErrLabelValueTooLong)
       else check_labels ls)"

fun check_samples :: "int \<Rightarrow> metric_type \<Rightarrow> metric option list \<Rightarrow> terr option go" where
  "check_samples mn ty [] = Ret None"
| "check_samples mn ty (None # ms) = check_samples mn ty ms"
| "check_samples mn ty (Some m # ms) =
     go_bind (check_labels (m_Label m)) (\<lambda>err.
       (case err of
          Some e \<Rightarrow> Ret (Some e)
        | None \<Rightarrow>
            (case m_TimestampMs m of
               None \<Rightarrow> Ret (Some ErrNoTimestamp)
             | Some ts \<Rightarrow>
                 if ts < mn then Ret (Some ErrTimestampTooOld)
                 else if bad_field ty m then Ret (Some (ErrFieldNotSet ty))
                 else check_samples mn ty ms)))"

definition errorInvalid_Transform :: "int \<Rightarrow> family option \<Rightarrow> tres go" where
  "errorInvalid_Transform mn family =
     (let name = family_GetName family
      in if length name = 0 then Ret (family, False, None)
         else if length name > 255 then Ret (family, False, Some ErrMetricsNameTooLong)
         else go_bind (deref family) (\<lambda>f.
           (case f_Type f of
              None \<Rightarrow> Ret (family, False, None)
            | Some ty \<Rightarrow>
                if \<not> federated_type ty then Ret (family, False, Some (ErrUnknownMetricType ty))
                else go_bind (check_samples mn ty (f_Metric f)) (\<lambda>err.
                  Ret (family, err = None, err)))))"

subsection \<open>dropInvalidFederateSamples\<close>

fun scrub_labels :: "label_pair option list \<Rightarrow> (label_pair option list \<times> bool) go" where
  "scrub_labels [] = Ret ([], False)"
| "scrub_labels (l # ls) =
     go_bind (deref l) (\<lambda>p.
       go_bind (scrub_labels ls) (\<lambda>(ls', packLabels).
         Ret (if bad_name p \<or> bad_value p then (None # ls', True)
              else (Some p # ls', packLabels))))"

definition scrub_metric :: "metric \<Rightarrow> metric go" where
  "scrub_metric m =
     go_bind (scrub_labels (m_Label m)) (\<lambda>(ls, packLabels).
       Ret (m\<lparr>m_Label := (if packLabels then PackLabels ls else ls)\<rparr>))"

definition keep_sample :: "int \<Rightarrow> metric_type \<Rightarrow> metric \<Rightarrow> bool" where
  "keep_sample mn ty m =
     (case m_TimestampMs m of
        None \<Rightarrow> False
      | Some ts \<Rightarrow> if ts < mn then False else \<not> bad_field ty m)"

fun drop_invalid_loop :: "int \<Rightarrow> metric_type \<Rightarrow> metric option list \<Rightarrow> metric option list go" where
  "drop_invalid_loop mn ty [] = Ret []"
| "drop_invalid_loop mn ty (None # ms) =
     go_bind (drop_invalid_loop mn ty ms) (\<lambda>out. Ret (None # out))"
| "drop_invalid_loop mn ty (Some m # ms) =
     go_bind (scrub_metric m) (\<lambda>m'.
       go_bind (drop_invalid_loop mn ty ms) (\<lambda>out.
         Ret ((if keep_sample mn ty m' then Some m' else None) # out)))"

definition dropInvalid_Transform :: "int \<Rightarrow> family option \<Rightarrow> tres go" where
  "dropInvalid_Transform mn family =
     (let name = family_GetName family
      in if length name = 0 then Ret (family, False, None)
         else if length name > 255 then Ret (family, False, None)
         else go_bind (deref family) (\<lambda>f.
           (case f_Type f of
              None \<Rightarrow> Ret (family, False, None)
            | Some ty \<Rightarrow>
                if \<not> federated_type ty then Ret (family, False, None)
                else go_bind (drop_invalid_loop mn ty (f_Metric f)) (\<lambda>ms.
                  Ret (Some (f\<lparr>f_Metric := ms\<rparr>), True, None)))))"

section \<open>What a valid family is\<close>

text \<open>The first label of a metric that has the given name.\<close>

definition first_value :: "string \<Rightarrow> metric \<Rightarrow> string option" where
  "first_value k m =
     (case filter (\<lambda>l. GetName (Some l) = k) (somes (m_Label m)) of
        [] \<Rightarrow> None
      | l # _ \<Rightarrow> Some (GetValue (Some l)))"

definition valid_label :: "label_pair option \<Rightarrow> bool" where
  "valid_label l \<longleftrightarrow> (\<exists>n v. l = Some (mk_label n v) \<and> 1 \<le> length n \<and> length n \<le> 255 \<and> length v \<le> 255)"

definition valid_sample :: "int \<Rightarrow> metric_type \<Rightarrow> metric \<Rightarrow> bool" where
  "valid_sample mn ty m \<longleftrightarrow>
     list_all valid_label (m_Label m) \<and>
     (\<exists>ts. m_TimestampMs m = Some ts \<and> mn \<le> ts) \<and> \<not> bad_field ty m"

definition valid_header :: "family \<Rightarrow> bool" where
  "valid_header f \<longleftrightarrow>
     (\<exists>n. f_Name f = Some n \<and> 1 \<le> length n \<and> length n \<le> 255) \<and>
     (\<exists>ty. f_Type f = Some ty \<and> federated_type ty)"

definition valid_family :: "int \<Rightarrow> family \<Rightarrow> bool" where
  "valid_family mn f \<longleftrightarrow>
     valid_header f \<and> list_all (valid_sample mn (the (f_Type f))) (somes (f_Metric f))"

text \<open>No label pointer of the family is nil, as in every family a decoder produces.\<close>

definition labels_present :: "family \<Rightarrow> bool" where
  "labels_present f \<longleftrightarrow> list_all (\<lambda>m. None \<notin> set (m_Label m)) (somes (f_Metric f))"

section \<open>Lemmas\<close>

subsection \<open>Required labels\<close>

lemma require_in_labels_None:
  "require_in_labels k v (m_Label m) = None \<longleftrightarrow> first_value k m = Some v"
proof -
  have "require_in_labels k v ls = None \<longleftrightarrow>
      (case filter (\<lambda>l. GetName (Some l) = k) (somes ls) of
         [] \<Rightarrow> None | l # _ \<Rightarrow> Some (GetValue (Some l))) = Some v" for ls
    by (induction k v ls rule: require_in_labels.induct) auto
  then show ?thesis by (simp add: first_value_def)
qed

lemma require_in_metrics_None:
  "require_in_metrics k v ms = None \<longleftrightarrow> (\<forall>m \<in> set (somes ms). first_value k m = Some v)"
  by (induction k v ms rule: require_in_metrics.induct)
    (auto simp: require_in_labels_None [symmetric] split: option.splits)

lemma require_each_None:
  "require_each kvs ms = None \<longleftrightarrow>
     (\<forall>(k, v) \<in> set kvs. \<forall>m \<in> set (somes ms). first_value k m = Some v)"
  by (induction kvs ms rule: require_each.induct)
    (auto simp: require_in_metrics_None [symmetric] split: option.splits)

lemma requireLabel_accepts_iff:
  "requireLabel_Transform labels (Some f) = Ret (Some f, True, None) \<longleftrightarrow>
     (\<forall>(k, v) \<in> set labels. \<forall>m \<in> set (somes (f_Metric f)). first_value k m = Some v)"
  by (auto simp: requireLabel_Transform_def require_each_None [symmetric] split: option.splits)

subsection \<open>Timestamp order\<close>

lemma unsorted_loop_None:
  "snd (unsorted_loop req ts ms) = None \<longleftrightarrow>
     in_order_from ts (somes ms) \<and> (req \<longrightarrow> (\<forall>m \<in> set (somes ms). m_TimestampMs m \<noteq> None))"
  by (induction req ts ms rule: unsorted_loop.induct) auto

lemma errorOnUnsorted_result:
  "errorOnUnsorted_Transform t (Some f) = Ret (t', r) \<Longrightarrow>
     eu_require t' = eu_require t \<and>
     r = (Some f, snd (unsorted_loop (eu_require t) 0 (f_Metric f)) = None,
          snd (unsorted_loop (eu_require t) 0 (f_Metric f)))"
  by (auto simp: errorOnUnsorted_Transform_def split: prod.splits)

subsection \<open>errorInvalidFederateSamples decides validity\<close>

lemma valid_label_iff: "valid_label (Some p) \<longleftrightarrow> \<not> bad_name p \<and> \<not> bad_value p"
  by (cases p) (auto simp: valid_label_def bad_name_def bad_value_def mk_label_def
      Suc_le_eq split: option.splits)

lemma not_valid_label_None [simp]: "\<not> valid_label None"
  by (simp add: valid_label_def)

lemma check_labels_None: "check_labels ls = Ret None \<longleftrightarrow> list_all valid_label ls"
proof (induction ls)
  case (Cons l ls)
  then show ?case by (cases l) (auto simp: valid_label_iff)
qed simp

lemma check_samples_None:
  "check_samples mn ty ms = Ret None \<longleftrightarrow> list_all (valid_sample mn ty) (somes ms)"
proof (induction mn ty ms rule: check_samples.induct)
  case (3 mn ty m ms)
  show ?case
  proof (cases "check_labels (m_Label m) = Ret None")
    case True
    then have "list_all valid_label (m_Label m)" by (simp add: check_labels_None)
    with True 3 show ?thesis
      by (cases "m_TimestampMs m") (simp_all add: valid_sample_def not_less)
  next
    case False
    then show ?thesis
      by (auto simp: valid_sample_def check_labels_None split: option.splits)
  qed
qed auto

lemma errorInvalid_accepts_iff:
  "errorInvalid_Transform mn (Some f) = Ret (Some f, True, None) \<longleftrightarrow> valid_family mn f"
  by (auto simp: errorInvalid_Transform_def valid_family_def valid_header_def Let_def
      check_samples_None [symmetric] Suc_le_eq split: option.splits)

lemma errorInvalid_family_unchanged:
  "errorInvalid_Transform mn family = Ret (family', r) \<Longrightarrow> family' = family"
  by (auto simp: errorInvalid_Transform_def Let_def split: if_splits option.splits)

subsection \<open>dropInvalidFederateSamples establishes it\<close>

lemma scrub_labels_Ret:
  "scrub_labels ls = Ret (ls', p) \<Longrightarrow>
     None \<notin> set ls \<and> (\<not> p \<longrightarrow> ls' = ls) \<and>
     filter (\<lambda>l. l \<noteq> None) ls' = filter valid_label ls \<and>
     (\<not> p \<longrightarrow> list_all valid_label ls)"
proof (induction ls arbitrary: ls' p)
  case (Cons l ls)
  then show ?case by (cases l) (fastforce simp: valid_label_iff split: if_splits)+
qed simp

lemma scrub_labels_total: "None \<notin> set ls \<Longrightarrow> \<exists>r. scrub_labels ls = Ret r"
proof (induction ls)
  case (Cons l ls)
  then obtain p r where "l = Some p" and "scrub_labels ls = Ret r" by (cases l) auto
  then show ?case by (cases r) (auto simp del: go_bind_eq_Ret)
next
  case Nil
  show ?case by (rule exI) (rule scrub_labels.simps(1))
qed

lemma scrub_metric_Ret:
  assumes "scrub_metric m = Ret m'"
  shows "m' = m\<lparr>m_Label := filter valid_label (m_Label m)\<rparr> \<and> None \<notin> set (m_Label m)"
proof -
  from assms obtain ls p where s: "scrub_labels (m_Label m) = Ret (ls, p)"
    and m': "m' = m\<lparr>m_Label := (if p then PackLabels ls else ls)\<rparr>"
    by (auto simp: scrub_metric_def)
  note facts = scrub_labels_Ret [OF s]
  have "(if p then PackLabels ls else ls) = filter valid_label (m_Label m)"
    using facts by (auto simp: filter_id_conv list_all_iff)
  with facts m' show ?thesis by simp
qed

lemma scrub_metric_total: "None \<notin> set (m_Label m) \<Longrightarrow> \<exists>m'. scrub_metric m = Ret m'"
  using scrub_labels_total [of "m_Label m"] by (auto simp: scrub_metric_def)

lemma bad_field_label [simp]: "bad_field ty (m\<lparr>m_Label := ls\<rparr>) = bad_field ty m"
  by (cases ty) auto

lemma keep_sample_label [simp]: "keep_sample mn ty (m\<lparr>m_Label := ls\<rparr>) = keep_sample mn ty m"
  by (simp add: keep_sample_def split: option.split)

lemma valid_sample_scrubbed:
  "valid_sample mn ty (m\<lparr>m_Label := filter valid_label (m_Label m)\<rparr>) \<longleftrightarrow> keep_sample mn ty m"
  by (auto simp: valid_sample_def keep_sample_def list_all_iff split: option.splits)

lemma drop_invalid_loop_Ret:
  "drop_invalid_loop mn ty ms = Ret out \<Longrightarrow>
     somes out = map (\<lambda>m. m\<lparr>m_Label := filter valid_label (m_Label m)\<rparr>)
       (filter (keep_sample mn ty) (somes ms)) \<and>
     length out = length ms"
proof (induction mn ty ms arbitrary: out rule: drop_invalid_loop.induct)
  case (3 mn ty m ms)
  from "3.prems" obtain m' ms' where m': "scrub_metric m = Ret m'"
    and ms': "drop_invalid_loop mn ty ms = Ret ms'"
    and out: "out = (if keep_sample mn ty m' then Some m' else None) # ms'" by auto
  from "3.IH" [OF m' ms'] scrub_metric_Ret [OF m'] out show ?case by simp
qed auto

lemma drop_invalid_loop_total:
  "list_all (\<lambda>m. None \<notin> set (m_Label m)) (somes ms) \<Longrightarrow> \<exists>out. drop_invalid_loop mn ty ms = Ret out"
proof (induction mn ty ms rule: drop_invalid_loop.induct)
  case (3 mn ty m ms)
  then obtain out m' where "drop_invalid_loop mn ty ms = Ret out" and "scrub_metric m = Ret m'"
    using scrub_metric_total [of m] by auto
  then show ?case by (simp del: go_bind_eq_Ret)
qed auto

lemma dropInvalid_Ret:
  assumes "dropInvalid_Transform mn (Some f) = Ret (f', True, err)"
  shows "\<exists>g. f' = Some g \<and> valid_family mn g \<and> err = None \<and> f_Name g = f_Name f \<and>
    f_Type g = f_Type f \<and> length (f_Metric g) = length (f_Metric f) \<and>
    somes (f_Metric g) = map (\<lambda>m. m\<lparr>m_Label := filter valid_label (m_Label m)\<rparr>)
      (filter (keep_sample mn (the (f_Type f))) (somes (f_Metric f)))"
proof -
  from assms obtain ty out where h: "valid_header f" and ty: "f_Type f = Some ty"
    and out: "drop_invalid_loop mn ty (f_Metric f) = Ret out"
    and f': "f' = Some (f\<lparr>f_Metric := out\<rparr>)" and err: "err = None"
    by (auto simp: dropInvalid_Transform_def valid_header_def Let_def Suc_le_eq
        split: if_splits option.splits)
  note o = drop_invalid_loop_Ret [OF out]
  have "list_all (valid_sample mn ty) (somes out)"
    using o by (auto simp: list_all_iff valid_sample_scrubbed)
  with h ty have "valid_family mn (f\<lparr>f_Metric := out\<rparr>)"
    by (simp add: valid_family_def valid_header_def)
  with o f' err ty show ?thesis by auto
qed

section \<open>Properties\<close>


text \<open>
  C13: what \<^verbatim>\<open>dropInvalidFederateSamples\<close> lets through is accepted by
  \<^verbatim>\<open>errorInvalidFederateSamples\<close> with the same minimum: the client's filter establishes
  what the server checks.  It keeps name, type and the positions of the samples.
\<close>

theorem dropInvalid_establishes_validity:
  assumes "dropInvalid_Transform mn (Some f) = Ret (f', True, err)"
  shows "\<exists>g. f' = Some g \<and> err = None \<and> errorInvalid_Transform mn (Some g) = Ret (Some g, True, None) \<and>
    f_Name g = f_Name f \<and> f_Type g = f_Type f \<and> length (f_Metric g) = length (f_Metric f)"
  using dropInvalid_Ret [OF assms] by (auto simp: errorInvalid_accepts_iff)

theorem dropInvalid_establishes_validity_witness:
  "\<exists>g. dropInvalid_Transform 5 (Some (counter_family ''up'' [Some (counter_metric [(''a'', ''b''), ([], ''c'')] (Some 7)),
        Some (counter_metric [] (Some 3))])) = Ret (Some g, True, None) \<and>
     errorInvalid_Transform 5 (Some g) = Ret (Some g, True, None) \<and> length (f_Metric g) = 2"
proof -
  let ?f = "counter_family ''up'' [Some (counter_metric [(''a'', ''b''), ([], ''c'')] (Some 7)),
        Some (counter_metric [] (Some 3))]"
  have run: "dropInvalid_Transform 5 (Some ?f) =
      Ret (Some (counter_family ''up'' [Some (counter_metric [(''a'', ''b'')] (Some 7)), None]), True, None)"
    by (simp add: example_defs dropInvalid_Transform_def Let_def scrub_metric_def bad_name_def bad_value_def
        keep_sample_def)
  from dropInvalid_establishes_validity [OF run] show ?thesis unfolding run by (simp add: counter_family_def)
qed

text \<open>
  \<^verbatim>\<open>requireLabel\<close> accepts a family exactly when, on every metric, the first label
  with each required name has the required value, whatever the order of the map iteration.
\<close>

theorem requireLabel_decides:
  "requireLabel_Transform labels (Some f) = Ret (Some f, True, None) \<longleftrightarrow>
     list_all (\<lambda>(k, v). list_all (\<lambda>m. first_value k m = Some v) (somes (f_Metric f))) labels"
  by (simp add: requireLabel_accepts_iff list_all_iff)

text \<open>
  \<^verbatim>\<open>errorOnUnsorted\<close> and \<^verbatim>\<open>DropUnsorted\<close> agree: a family is accepted by the
  first (not requiring timestamps) exactly when the second leaves it as it is.
\<close>

theorem unsorted_agree:
  "(\<exists>t'. errorOnUnsorted_Transform (NewErrorOnUnsorted False) (Some f) = Ret (t', Some f, True, None)) \<longleftrightarrow>
   DropUnsorted_Transform 0 (Some f) = Ret (0, Some f, True, None)"
proof -
  have "(f\<lparr>f_Metric := drop_unsorted_loop 0 (f_Metric f)\<rparr> = f) \<longleftrightarrow> drop_unsorted_loop 0 (f_Metric f) = f_Metric f"
    by (cases f) auto
  then show ?thesis using unsorted_loop_None [of False 0 "f_Metric f"]
    by (auto simp: errorOnUnsorted_Transform_def NewErrorOnUnsorted_def DropUnsorted_Transform_def
        drop_unsorted_id_iff case_prod_unfold Let_def)
qed

end
