(* ===== verification/Timeseries.thy ===== *)
theory Timeseries
  imports Validation
begin

text \<open>
  The conversion of metric families to remote-write time series in
  \<^verbatim>\<open>pkg/server/forward.go\<close>.  \<open>srt\<close> is \<^verbatim>\<open>sort.Sort\<close> on
  \<^verbatim>\<open>sortableLabels\<close>; the lemmas ask for its contract where they need it.
\<close>

section \<open>Remote-write data\<close>

record prom_label =
  pl_Name :: string
  pl_Value :: string

record prom_sample =
  ps_Value :: float64
  ps_Timestamp :: int

record timeseries =
  ts_Labels :: "prom_label list"
  ts_Samples :: "prom_sample list"

record PartitionedMetrics =
  pm_ClusterID :: string
  pm_Families :: "family option list"

definition nameLabelName :: string where "nameLabelName = ''__name__''"

definition label_less :: "prom_label \<Rightarrow> prom_label \<Rightarrow> bool" where
  "label_less a b \<longleftrightarrow> pl_Name a < pl_Name b"

type_synonym label_sorter = "prom_label list \<Rightarrow> prom_label list"

definition sortLabels :: "label_sorter \<Rightarrow> prom_label list \<Rightarrow> prom_label list" where
  "sortLabels srt labels = srt labels"

section \<open>convertToTimeseries\<close>

fun conv_labels :: "string set \<Rightarrow> label_pair option list \<Rightarrow> prom_label list go" where
  "conv_labels dedup [] = Ret []"
| "conv_labels dedup (l # ls) =
     go_bind (deref l) (\<lambda>p.
     go_bind (deref (lp_Name p)) (\<lambda>n.
       if n = [] then conv_labels dedup ls
       else go_bind (deref (lp_Value p)) (\<lambda>v.
         if v = [] then conv_labels dedup ls
         else if n \<in> dedup then conv_labels dedup ls
         else go_bind (conv_labels (insert n dedup) ls) (\<lambda>out.
                Ret (\<lparr>pl_Name = n, pl_Value = v\<rparr> # out)))))"

text \<open>\<^verbatim>\<open>*m.Counter.Value\<close> and its siblings; an unsupported type is an error.\<close>

definition sample_value :: "metric_type \<Rightarrow> metric \<Rightarrow> (metric_type + float64) go" where
  "sample_value ty m =
     (case ty of
        COUNTER \<Rightarrow> go_bind (deref (m_Counter m)) (\<lambda>c. go_bind (deref (c_Value c)) (\<lambda>v. Ret (Inr v)))
      | GAUGE \<Rightarrow> go_bind (deref (m_Gauge m)) (\<lambda>g. go_bind (deref (g_Value g)) (\<lambda>v. Ret (Inr v)))
      | UNTYPED \<Rightarrow> go_bind (deref (m_Untyped m)) (\<lambda>u. go_bind (deref (u_Value u)) (\<lambda>v. Ret (Inr v)))
      | _ \<Rightarrow> Ret (Inl ty))"

text \<open>
  The body of the inner loop: the series of one metric, and whether its timestamp was
  overwritten because it lies in the future.
\<close>

definition conv_metric ::
  "label_sorter \<Rightarrow> int \<Rightarrow> family \<Rightarrow> metric option \<Rightarrow> (bool \<times> (metric_type + timeseries)) go" where
  "conv_metric srt timestamp f mo =
     go_bind (deref (f_Name f)) (\<lambda>name.
     go_bind (deref mo) (\<lambda>m.
     go_bind (conv_labels {} (m_Label m)) (\<lambda>labels.
     go_bind (deref (m_TimestampMs m)) (\<lambda>t.
     go_bind (deref (f_Type f)) (\<lambda>ty.
     go_bind (sample_value ty m) (\<lambda>val.
       Ret (t > timestamp,
         (case val of
            Inl e \<Rightarrow> Inl e
          | Inr v \<Rightarrow> Inr
              \<lparr>ts_Labels = sortLabels srt (\<lparr>pl_Name = nameLabelName, pl_Value = name\<rparr> # labels),
               ts_Samples = [\<lparr>ps_Value = v, ps_Timestamp = (if t > timestamp then timestamp else t)\<rparr>]\<rparr>))))))))"

text \<open>Both loops; the first component is \<^verbatim>\<open>overwrittenTimestamps\<close>.\<close>

fun conv_metrics ::
  "label_sorter \<Rightarrow> int \<Rightarrow> family \<Rightarrow> nat \<Rightarrow> metric option list \<Rightarrow> (nat \<times> (metric_type + timeseries list)) go" where
  "conv_metrics srt timestamp f cnt [] = Ret (cnt, Inr [])"
| "conv_metrics srt timestamp f cnt (m # ms) =
     go_bind (conv_metric srt timestamp f m) (\<lambda>(ow, r).
       let cnt1 = (if ow then Suc cnt else cnt)
       in (case r of
             Inl e \<Rightarrow> Ret (cnt1, Inl e)
           | Inr ts \<Rightarrow>
               go_bind (conv_metrics srt timestamp f cnt1 ms) (\<lambda>(cnt2, rest).
                 Ret (cnt2, (case rest of Inl e \<Rightarrow> Inl e | Inr tss \<Rightarrow> Inr (ts # tss))))))"

fun conv_families ::
  "label_sorter \<Rightarrow> int \<Rightarrow> nat \<Rightarrow> family option list \<Rightarrow> (nat \<times> (metric_type + timeseries list)) go" where
  "conv_families srt timestamp cnt [] = Ret (cnt, Inr [])"
| "conv_families srt timestamp cnt (fo # fs) =
     go_bind (deref fo) (\<lambda>f.
     go_bind (conv_metrics srt timestamp f cnt (f_Metric f)) (\<lambda>(cnt1, r).
       (case r of
          Inl e \<Rightarrow> Ret (cnt1, Inl e)
        | Inr tss \<Rightarrow>
            go_bind (conv_families srt timestamp cnt1 fs) (\<lambda>(cnt2, rest).
              Ret (cnt2, (case rest of Inl e \<Rightarrow> Inl e | Inr tss' \<Rightarrow> Inr (tss @ tss')))))))"

definition convertToTimeseries ::
  "label_sorter \<Rightarrow> nat \<Rightarrow> PartitionedMetrics \<Rightarrow> time \<Rightarrow> (nat \<times> (metric_type + timeseries list)) go" where
  "convertToTimeseries srt overwritten p now =
     conv_families srt (trunc_div (UnixNano now) Millisecond) overwritten (pm_Families p)"

section \<open>What a series looks like\<close>

text \<open>The label pairs of a metric, when all its pointers are set.\<close>

definition pairs_of :: "label_pair option list \<Rightarrow> (string \<times> string) list" where
  "pairs_of ls = map (\<lambda>l. (GetName (Some l), GetValue (Some l))) (somes ls)"

definition series_of :: "label_sorter \<Rightarrow> int \<Rightarrow> family \<Rightarrow> metric \<Rightarrow> timeseries \<Rightarrow> bool" where
  "series_of srt timestamp f m ts \<longleftrightarrow>
     (\<exists>name labels ty v. f_Name f = Some name \<and> conv_labels {} (m_Label m) = Ret labels \<and>
        f_Type f = Some ty \<and> sample_value ty m = Ret (Inr v) \<and>
        ts = \<lparr>ts_Labels = srt (\<lparr>pl_Name = nameLabelName, pl_Value = name\<rparr> # labels),
              ts_Samples = [\<lparr>ps_Value = v, ps_Timestamp = min (sample_ts m) timestamp\<rparr>]\<rparr>)"

interpretation label_order: strict_weak_order label_less
  by unfold_locales (auto simp: label_less_def)

subsection \<open>Labels\<close>

lemma conv_labels_Ret:
  "conv_labels dedup ls = Ret out \<Longrightarrow>
     distinct (map pl_Name out) \<and> pl_Name ` set out \<inter> dedup = {} \<and>
     (\<forall>l \<in> set out. pl_Name l \<noteq> [] \<and> pl_Value l \<noteq> [] \<and> (pl_Name l, pl_Value l) \<in> set (pairs_of ls))"
proof (induction dedup ls arbitrary: out rule: conv_labels.induct)
  case (2 dedup l ls)
  from "2.prems" obtain p n where p: "l = Some p" "lp_Name p = Some n" by auto
  have sub: "set (pairs_of ls) \<subseteq> set (pairs_of (l # ls))" by (auto simp: pairs_of_def p)
  show ?case
  proof (cases "n = []")
    case True
    with "2.IH"(1) [OF _ _ True] "2.prems" p sub show ?thesis by auto
  next
    case False
    with "2.prems" p obtain v where v: "lp_Value p = Some v" by auto
    consider "v = []" | "v \<noteq> []" "n \<in> dedup" | "v \<noteq> []" "n \<notin> dedup" by blast
    then show ?thesis
    proof cases
      case 1
      with "2.IH"(2) [OF _ _ False _ 1] "2.prems" p v False sub show ?thesis by auto
    next
      case 2
      with "2.IH"(3) [OF _ _ False _ 2] "2.prems" p v False sub show ?thesis by auto
    next
      case 3
      then obtain out' where out': "conv_labels (insert n dedup) ls = Ret out'"
        "out = \<lparr>pl_Name = n, pl_Value = v\<rparr> # out'" using "2.prems" p v False by auto
      with "2.IH"(4) [OF _ _ False _ 3 out'(1)] p v sub False 3 show ?thesis
        by (auto simp: pairs_of_def)
    qed
  qed
qed simp

lemma conv_labels_first:
  "conv_labels dedup ls = Ret out \<Longrightarrow> k \<notin> dedup \<Longrightarrow> k \<noteq> [] \<Longrightarrow>
   filter (\<lambda>l. GetName (Some l) = k) (somes ls) = l # rest \<Longrightarrow> GetValue (Some l) \<noteq> [] \<Longrightarrow>
   \<lparr>pl_Name = k, pl_Value = GetValue (Some l)\<rparr> \<in> set out"
proof (induction dedup ls arbitrary: out rule: conv_labels.induct)
  case (2 dedup l' ls)
  from "2.prems"(1) obtain p n where p: "l' = Some p" "lp_Name p = Some n" by auto
  show ?case
  proof (cases "n = k")
    case True
    with "2.prems" p have "l = p" by simp
    moreover obtain v where "lp_Value p = Some v" using "2.prems"(1,3) p True by auto
    ultimately show ?thesis using "2.prems" p True by auto
  next
    case False
    then have rest: "filter (\<lambda>l. GetName (Some l) = k) (somes ls) = l # rest"
      using "2.prems"(4) p by simp
    show ?thesis
    proof (cases "n = []")
      case True
      with "2.IH"(1) [OF _ _ True _ "2.prems"(2,3) rest "2.prems"(5)] "2.prems"(1) p show ?thesis
        by auto
    next
      case n: False
      with "2.prems"(1) p obtain v where v: "lp_Value p = Some v" by auto
      consider "v = []" | "v \<noteq> []" "n \<in> dedup" | "v \<noteq> []" "n \<notin> dedup" by blast
      then show ?thesis
      proof cases
        case 1
        with "2.IH"(2) [OF _ _ n _ 1 _ "2.prems"(2,3) rest "2.prems"(5)] "2.prems"(1) p v n
        show ?thesis by auto
      next
        case 2
        with "2.IH"(3) [OF _ _ n _ 2 _ "2.prems"(2,3) rest "2.prems"(5)] "2.prems"(1) p v n
        show ?thesis by auto
      next
        case 3
        then obtain out' where out': "conv_labels (insert n dedup) ls = Ret out'"
          "out = \<lparr>pl_Name = n, pl_Value = v\<rparr> # out'" using "2.prems"(1) p v n by auto
        with "2.IH"(4) [OF _ _ n _ 3 out'(1) _ "2.prems"(3) rest "2.prems"(5)] "2.prems"(2) p v False
        show ?thesis by auto
      qed
    qed
  qed
qed simp

text \<open>A metric's first non-empty value for a name is the value of its series for that name.\<close>

lemma conv_labels_first_value:
  assumes "conv_labels {} (m_Label m) = Ret out" and "first_value k m = Some v" and "k \<noteq> []" and "v \<noteq> []"
  shows "filter (\<lambda>l. pl_Name l = k) out = [\<lparr>pl_Name = k, pl_Value = v\<rparr>]"
proof -
  let ?l = "\<lparr>pl_Name = k, pl_Value = v\<rparr>"
  from assms(2) obtain l rest where
    "filter (\<lambda>l. GetName (Some l) = k) (somes (m_Label m)) = l # rest" "v = GetValue (Some l)"
    by (auto simp: first_value_def split: list.splits)
  with conv_labels_first [OF assms(1) _ assms(3)] assms(4) have "?l \<in> set out" by auto
  moreover have "distinct (map pl_Name out)" using conv_labels_Ret [OF assms(1)] by simp
  ultimately show ?thesis
  proof (induction out)
    case (Cons a out)
    show ?case
    proof (cases "a = ?l")
      case True
      with Cons.prems show ?thesis by (force simp: filter_empty_conv)
    next
      case False
      with Cons.prems have "?l \<in> set out" by simp
      moreover from imageI [OF this, of pl_Name] Cons.prems(2) have "pl_Name a \<noteq> k" by auto
      ultimately show ?thesis using Cons by simp
    qed
  qed simp
qed

lemma conv_labels_total:
  "\<forall>l \<in> set ls. \<exists>n v. l = Some (mk_label n v) \<Longrightarrow> \<exists>out. conv_labels dedup ls = Ret out"
proof (induction ls arbitrary: dedup)
  case (Cons l ls)
  then obtain n v where l: "l = Some (mk_label n v)" by auto
  obtain o1 o2 where "conv_labels dedup ls = Ret o1" "conv_labels (insert n dedup) ls = Ret o2"
    using Cons by force
  with l show ?case by simp
qed simp

subsection \<open>Series\<close>

text \<open>The metrics of a list of families, each with its family, in order.\<close>

definition metrics_of :: "family option list \<Rightarrow> (family \<times> metric) list" where
  "metrics_of fs = concat (map (\<lambda>f. map (Pair f) (somes (f_Metric f))) (somes fs))"

lemma metrics_of_Cons [simp]:
  "metrics_of (Some f # fs) = map (Pair f) (somes (f_Metric f)) @ metrics_of fs"
  "metrics_of (None # fs) = metrics_of fs"
  "metrics_of [] = []"
  by (simp_all add: metrics_of_def)

lemma conv_metric_Inr:
  "conv_metric srt t f mo = Ret (ow, Inr ts) \<Longrightarrow>
     \<exists>m. mo = Some m \<and> series_of srt t f m ts \<and> (ow \<longleftrightarrow> t < sample_ts m)"
  by (fastforce simp: conv_metric_def go_simps series_of_def sortLabels_def sample_ts_def min_def)

lemma conv_metrics_Inr:
  "conv_metrics srt t f cnt ms = Ret (cnt', Inr tss) \<Longrightarrow>
     list_all2 (series_of srt t f) (somes ms) tss \<and>
     cnt' = cnt + length (filter (\<lambda>m. t < sample_ts m) (somes ms)) \<and> None \<notin> set ms"
proof (induction ms arbitrary: cnt tss)
  case (Cons m ms)
  from Cons.prems obtain ow ts cnt1 tss' where
    m: "conv_metric srt t f m = Ret (ow, Inr ts)" and
    ms: "conv_metrics srt t f (if ow then Suc cnt else cnt) ms = Ret (cnt', Inr tss')" and
    tss: "tss = ts # tss'"
    by (auto simp: Let_def go_simps)
  from conv_metric_Inr [OF m] Cons.IH [OF ms] tss show ?case by auto
qed simp

lemma conv_families_Inr:
  "conv_families srt t cnt fs = Ret (cnt', Inr tss) \<Longrightarrow>
     list_all2 (\<lambda>(f, m). series_of srt t f m) (metrics_of fs) tss \<and>
     cnt' = cnt + length (filter (\<lambda>(f, m). t < sample_ts m) (metrics_of fs))"
proof (induction fs arbitrary: cnt tss)
  case (Cons fo fs)
  from Cons.prems obtain f cnt1 tss1 tss2 where f: "fo = Some f" and
    ms: "conv_metrics srt t f cnt (f_Metric f) = Ret (cnt1, Inr tss1)" and
    fs: "conv_families srt t cnt1 fs = Ret (cnt', Inr tss2)" and
    tss: "tss = tss1 @ tss2"
    by (auto simp: go_simps)
  from conv_metrics_Inr [OF ms] Cons.IH [OF fs] f tss show ?case
    by (auto simp: list_all2_appendI list.rel_map filter_map comp_def)
qed simp

lemma convertToTimeseries_Inr:
  assumes "convertToTimeseries srt cnt p now = Ret (cnt', Inr tss)" and "ts \<in> set tss"
  obtains f m where "(f, m) \<in> set (metrics_of (pm_Families p))"
    and "series_of srt (trunc_div (UnixNano now) Millisecond) f m ts"
proof -
  from conv_families_Inr [of srt "trunc_div (UnixNano now) Millisecond" cnt "pm_Families p"] assms
  have "list_all2 (\<lambda>(f, m). series_of srt (trunc_div (UnixNano now) Millisecond) f m)
      (metrics_of (pm_Families p)) tss" by (simp add: convertToTimeseries_def)
  with assms(2) that show ?thesis by (force simp: list_all2_conv_all_nth in_set_conv_nth)
qed

text \<open>The label set of a series: sorted, each name once unless a label is called \<open>__name__\<close>.\<close>

lemma series_labels:
  assumes "sort_contract label_less srt" and "series_of srt t f m ts"
  shows "sorted_by label_less (ts_Labels ts)"
    and "\<exists>name labels. f_Name f = Some name \<and> conv_labels {} (m_Label m) = Ret labels \<and>
      mset (ts_Labels ts) = add_mset \<lparr>pl_Name = nameLabelName, pl_Value = name\<rparr> (mset labels)"
  using assms label_order.sort_contract_sorted label_order.sort_contract_mset
  by (auto simp: series_of_def)

lemma filter_sorted_labels:
  assumes "mset xs = mset ys" and "filter P ys = [y]"
  shows "filter P xs = [y]"
proof -
  have "mset (filter P xs) = mset (filter P ys)" using assms(1) by (simp only: mset_filter)
  with assms(2) show ?thesis by (simp del: mset_filter)
qed

text \<open>A series whose labels are sorted, with one sample, not in the future.\<close>

definition wellformed_series :: "int \<Rightarrow> timeseries \<Rightarrow> bool" where
  "wellformed_series t ts \<longleftrightarrow>
     sorted_by label_less (ts_Labels ts) \<and>
     (\<exists>l \<in> set (ts_Labels ts). pl_Name l = nameLabelName) \<and>
     distinct (filter (\<lambda>n. n \<noteq> nameLabelName) (map pl_Name (ts_Labels ts))) \<and>
     list_all (\<lambda>l. pl_Name l \<noteq> [] \<and> (pl_Name l = nameLabelName \<or> pl_Value l \<noteq> [])) (ts_Labels ts) \<and>
     length (ts_Samples ts) = 1 \<and> list_all (\<lambda>s. ps_Timestamp s \<le> t) (ts_Samples ts)"

lemma series_wellformed:
  assumes "sort_contract label_less srt" and "series_of srt t f m ts"
  shows "wellformed_series t ts"
proof -
  let ?n = "\<lambda>name. \<lparr>pl_Name = nameLabelName, pl_Value = name\<rparr>"
  from series_labels [OF assms] obtain name labels where
    sorted: "sorted_by label_less (ts_Labels ts)" and
    conv: "conv_labels {} (m_Label m) = Ret labels" and
    perm: "mset (ts_Labels ts) = mset (?n name # labels)" by auto
  note ok = conv_labels_Ret [OF conv]
  have mem: "set (ts_Labels ts) = set (?n name # labels)" using perm by (rule mset_eq_setD)
  have "mset (filter (\<lambda>n. n \<noteq> nameLabelName) (map pl_Name (ts_Labels ts))) =
      mset (filter (\<lambda>n. n \<noteq> nameLabelName) (map pl_Name (?n name # labels)))"
    using perm by (simp only: mset_filter mset_map)
  moreover have "distinct (filter (\<lambda>n. n \<noteq> nameLabelName) (map pl_Name (?n name # labels)))"
    using ok by simp
  ultimately have "distinct (filter (\<lambda>n. n \<noteq> nameLabelName) (map pl_Name (ts_Labels ts)))"
    by (metis mset_eq_imp_distinct_iff)
  moreover have "nameLabelName \<noteq> []" by (simp add: nameLabelName_def)
  moreover obtain v where "ts_Samples ts = [\<lparr>ps_Value = v, ps_Timestamp = min (sample_ts m) t\<rparr>]"
    using assms(2) by (auto simp: series_of_def)
  ultimately show ?thesis using sorted mem ok by (auto simp: wellformed_series_def list_all_iff)
qed

text \<open>What the conversion of one metric of a family needs.\<close>

definition converts :: "family \<Rightarrow> metric \<Rightarrow> bool" where
  "converts f m \<longleftrightarrow>
     f_Name f \<noteq> None \<and> (\<exists>ty v. f_Type f = Some ty \<and> sample_value ty m = Ret (Inr v)) \<and>
     m_TimestampMs m \<noteq> None \<and> (\<forall>l \<in> set (m_Label m). \<exists>n v. l = Some (mk_label n v))"

lemma conv_metric_total: "converts f m \<Longrightarrow> \<exists>ow ts. conv_metric srt t f (Some m) = Ret (ow, Inr ts)"
  using conv_labels_total [of "m_Label m" "{}"]
  by (auto simp: converts_def conv_metric_def simp del: go_bind_eq_Ret)

lemma conv_metrics_total:
  "\<forall>m \<in> set ms. converts f m \<Longrightarrow> \<exists>cnt' tss. conv_metrics srt t f cnt (map Some ms) = Ret (cnt', Inr tss)"
proof (induction ms arbitrary: cnt)
  case (Cons m ms)
  obtain ow ts where "conv_metric srt t f (Some m) = Ret (ow, Inr ts)"
    using conv_metric_total [of f m srt t] Cons.prems by auto
  moreover obtain cnt2 tss where "conv_metrics srt t f (if ow then Suc cnt else cnt) (map Some ms) = Ret (cnt2, Inr tss)"
    using Cons by fastforce
  ultimately show ?case by (simp add: Let_def del: go_bind_eq_Ret)
qed simp

lemma conv_families_total:
  "\<forall>f \<in> set fs. None \<notin> set (f_Metric f) \<and> (\<forall>m \<in> set (somes (f_Metric f)). converts f m) \<Longrightarrow>
   \<exists>cnt' tss. conv_families srt t cnt (map Some fs) = Ret (cnt', Inr tss)"
proof (induction fs arbitrary: cnt)
  case (Cons f fs)
  then have "map Some (somes (f_Metric f)) = f_Metric f" by (simp add: map_Some_somes_id)
  with Cons.prems obtain cnt1 tss1 where "conv_metrics srt t f cnt (f_Metric f) = Ret (cnt1, Inr tss1)"
    using conv_metrics_total [of "somes (f_Metric f)" f srt t cnt] by auto
  moreover obtain cnt2 tss2 where "conv_families srt t cnt1 (map Some fs) = Ret (cnt2, Inr tss2)"
    using Cons by fastforce
  ultimately show ?case by (simp del: go_bind_eq_Ret)
qed simp

lemma sample_value_total:
  "\<not> bad_field ty m \<Longrightarrow> ty \<in> {COUNTER, GAUGE, UNTYPED} \<Longrightarrow>
   Option.bind (m_Counter m) c_Value \<noteq> None \<or> Option.bind (m_Gauge m) g_Value \<noteq> None \<or>
     Option.bind (m_Untyped m) u_Value \<noteq> None \<Longrightarrow>
   \<exists>v. sample_value ty m = Ret (Inr v)"
  by (auto simp: sample_value_def)

text \<open>A valid sample of a supported type whose value is set converts.\<close>

definition convertible :: "family \<Rightarrow> bool" where
  "convertible f \<longleftrightarrow>
     (\<exists>mn. valid_family mn f) \<and> None \<notin> set (f_Metric f) \<and> the (f_Type f) \<in> {COUNTER, GAUGE, UNTYPED} \<and>
     list_all (\<lambda>m. Option.bind (m_Counter m) c_Value \<noteq> None \<or> Option.bind (m_Gauge m) g_Value \<noteq> None \<or>
       Option.bind (m_Untyped m) u_Value \<noteq> None) (somes (f_Metric f))"

lemma valid_sample_converts:
  assumes "valid_family mn f" and "m \<in> set (somes (f_Metric f))"
    and "the (f_Type f) \<in> {COUNTER, GAUGE, UNTYPED}"
    and "Option.bind (m_Counter m) c_Value \<noteq> None \<or> Option.bind (m_Gauge m) g_Value \<noteq> None \<or>
       Option.bind (m_Untyped m) u_Value \<noteq> None"
  shows "converts f m"
proof -
  from assms(1) obtain n ty where f: "f_Name f = Some n" "f_Type f = Some ty"
    by (auto simp: valid_family_def valid_header_def)
  with assms(1,2) have vs: "valid_sample mn ty m" by (auto simp: valid_family_def list_all_iff)
  then have "\<exists>v. sample_value ty m = Ret (Inr v)"
    using sample_value_total [OF _ _ assms(4)] assms(3) f by (auto simp: valid_sample_def)
  with vs f show ?thesis
    by (fastforce simp: converts_def valid_sample_def list_all_iff valid_label_def)
qed

lemma convertible_converts: "convertible f \<Longrightarrow> m \<in> set (somes (f_Metric f)) \<Longrightarrow> converts f m"
  using valid_sample_converts by (fastforce simp: convertible_def list_all_iff)

section \<open>Properties\<close>

text \<open>
  C31: when the conversion succeeds, there is one series per metric, in order; each has sorted
  labels with non-empty values, names that occur once (but see below for \<open>__name__\<close>), and a
  single sample whose timestamp is not after the server's clock; the counter of overwritten
  timestamps grows by the number of samples from the future.
\<close>

theorem convert_wellformed:
  assumes "sort_contract label_less srt" and "convertToTimeseries srt cnt p now = Ret (cnt', Inr tss)"
  shows "length tss = length (metrics_of (pm_Families p)) \<and>
    list_all (wellformed_series (trunc_div (UnixNano now) Millisecond)) tss \<and>
    cnt' = cnt + length (filter (\<lambda>(f, m). trunc_div (UnixNano now) Millisecond < sample_ts m)
      (metrics_of (pm_Families p)))"
proof -
  let ?t = "trunc_div (UnixNano now) Millisecond"
  from conv_families_Inr [of srt ?t cnt "pm_Families p"] assms(2)
  have all: "list_all2 (\<lambda>(f, m). series_of srt ?t f m) (metrics_of (pm_Families p)) tss"
    and cnt: "cnt' = cnt + length (filter (\<lambda>(f, m). ?t < sample_ts m) (metrics_of (pm_Families p)))"
    by (simp_all add: convertToTimeseries_def)
  from convertToTimeseries_Inr [OF assms(2)] series_wellformed [OF assms(1)]
  have "list_all (wellformed_series ?t) tss" unfolding list_all_iff by metis
  with all cnt show ?thesis by (simp add: list_all2_lengthD)
qed

theorem convert_wellformed_witness:
  "\<exists>ts. convertToTimeseries (insertion_sort label_less) 0
      \<lparr>pm_ClusterID = ''c'', pm_Families = [Some (counter_family ''up''
         [Some (counter_metric [(''b'', ''1''), (''a'', ''2''), (''b'', ''3''), (''e'', [])] (Some 9))])]\<rparr> 5000000 =
      Ret (1, Inr [ts]) \<and>
    ts_Labels ts = [\<lparr>pl_Name = ''__name__'', pl_Value = ''up''\<rparr>, \<lparr>pl_Name = ''a'', pl_Value = ''2''\<rparr>,
      \<lparr>pl_Name = ''b'', pl_Value = ''1''\<rparr>] \<and> wellformed_series 5 ts"
proof -
  let ?p = "\<lparr>pm_ClusterID = ''c'', pm_Families = [Some (counter_family ''up''
         [Some (counter_metric [(''b'', ''1''), (''a'', ''2''), (''b'', ''3''), (''e'', [])] (Some 9))])]\<rparr>"
  let ?ts = "\<lparr>ts_Labels = [\<lparr>pl_Name = ''__name__'', pl_Value = ''up''\<rparr>, \<lparr>pl_Name = ''a'', pl_Value = ''2''\<rparr>,
      \<lparr>pl_Name = ''b'', pl_Value = ''1''\<rparr>], ts_Samples = [\<lparr>ps_Value = 1, ps_Timestamp = 5\<rparr>]\<rparr>"
  have t: "trunc_div (UnixNano 5000000) Millisecond = 5"
    by (simp add: trunc_div_def UnixNano_def Millisecond_def wrap64_def)
  have run: "convertToTimeseries (insertion_sort label_less) 0 ?p 5000000 = Ret (1, Inr [?ts])"
    unfolding convertToTimeseries_def t
    by (simp add: conv_metric_def sample_value_def sortLabels_def nameLabelName_def label_less_def example_defs)
  from convert_wellformed [OF label_order.insertion_sort_contract run] t run show ?thesis by auto
qed

text \<open>
  the conversion does return: families that pass the server's validation, have no nil
  metric, are counters, gauges or untyped, and whose values are set are all converted.
\<close>

theorem convert_total:
  assumes "list_all convertible fs"
  shows "\<exists>cnt' tss. convertToTimeseries srt cnt \<lparr>pm_ClusterID = cid, pm_Families = map Some fs\<rparr> now = Ret (cnt', Inr tss)"
  using conv_families_total [of fs srt _ cnt] assms convertible_converts
  by (auto simp: convertToTimeseries_def list_all_iff convertible_def)

theorem convert_total_witness:
  "\<exists>cnt' tss. convertToTimeseries (insertion_sort label_less) 0 \<lparr>pm_ClusterID = ''c'',
     pm_Families = map Some [counter_family ''up'' [Some (counter_metric [(''a'', ''b'')] (Some 9))]]\<rparr> 0 = Ret (cnt', Inr tss)"
proof -
  have "valid_family 5 (counter_family ''up'' [Some (counter_metric [(''a'', ''b'')] (Some 9))])"
    by (simp add: valid_family_def valid_header_def valid_sample_def valid_label_def example_defs)
  then have "list_all convertible [counter_family ''up'' [Some (counter_metric [(''a'', ''b'')] (Some 9))]]"
    by (auto simp: convertible_def example_defs)
  from convert_total [OF this] show ?thesis by blast
qed

text \<open>
  validation does not look inside the value message: a counter whose value field is not set
  is accepted by \<^verbatim>\<open>errorInvalidFederateSamples\<close> and makes the conversion panic; and a label
  called \<open>__name__\<close> is not treated as a duplicate, so a series can get two of them.
\<close>

theorem convert_gaps:
  "errorInvalid_Transform 5 (Some (counter_family ''up'' [Some ((counter_metric [] (Some 9))\<lparr>m_Counter := Some \<lparr>c_Value = None\<rparr>\<rparr>)])) =
     Ret (Some (counter_family ''up'' [Some ((counter_metric [] (Some 9))\<lparr>m_Counter := Some \<lparr>c_Value = None\<rparr>\<rparr>)]), True, None) \<and>
   convertToTimeseries (insertion_sort label_less) 0 \<lparr>pm_ClusterID = ''c'', pm_Families =
     [Some (counter_family ''up'' [Some ((counter_metric [] (Some 9))\<lparr>m_Counter := Some \<lparr>c_Value = None\<rparr>\<rparr>)])]\<rparr> 0 = Panic NilDeref \<and>
   conv_metric (insertion_sort label_less) 10 (counter_family ''up'' []) (Some (counter_metric [(''__name__'', ''down'')] (Some 9))) =
     Ret (False, Inr \<lparr>ts_Labels = [\<lparr>pl_Name = ''__name__'', pl_Value = ''up''\<rparr>, \<lparr>pl_Name = ''__name__'', pl_Value = ''down''\<rparr>],
        ts_Samples = [\<lparr>ps_Value = 1, ps_Timestamp = 9\<rparr>]\<rparr>)"
  by (simp add: errorInvalid_Transform_def Let_def convertToTimeseries_def conv_metric_def sample_value_def
      sortLabels_def nameLabelName_def label_less_def example_defs)

end
