(* ===== verification/Label_Transformer.thy ===== *)
theory Label_Transformer
  imports Validation "HOL-Library.AList"
begin

text \<open>
  \<^verbatim>\<open>pkg/metricfamily/label.go\<close>: the transformer that sets labels on every metric,
  some given at construction and some fetched once from a \<^verbatim>\<open>LabelRetriever\<close>.
\<close>

section \<open>State and operations\<close>

text \<open>
  The map \<^verbatim>\<open>labels map[string]*LabelPair\<close> is an association list in iteration order.
  \<open>ls_retriever\<close> says whether the field \<^verbatim>\<open>retriever\<close> is still set; the
  answers of the retriever are in the world.
\<close>

record label_state =
  ls_labels :: "(string \<times> label_pair) list"
  ls_retriever :: bool

definition NewLabel :: "(string \<times> string) list \<Rightarrow> bool \<Rightarrow> label_state" where
  "NewLabel labels retriever =
     \<lparr>ls_labels = fold (\<lambda>(k, v). AList.update k (mk_label k v)) labels [],
      ls_retriever = retriever\<rparr>"

fun contains :: "string list \<Rightarrow> string \<Rightarrow> bool" where
  "contains [] s = False"
| "contains (v # vs) s = (if s = v then True else contains vs s)"

fun override_loop ::
  "(string \<times> label_pair) list \<Rightarrow> label_pair option list \<Rightarrow> label_pair option list \<times> string list" where
  "override_loop overrides [] = ([], [])"
| "override_loop overrides (pair # existing) =
     (let name = GetName pair; (out, found) = override_loop overrides existing
      in (case map_of overrides name of
            Some value \<Rightarrow> (Some value # out, name # found)
          | None \<Rightarrow> (pair # out, found)))"

definition appendLabels ::
  "label_pair option list \<Rightarrow> (string \<times> label_pair) list \<Rightarrow> label_pair option list" where
  "appendLabels existing overrides =
     (let (out, found) = override_loop overrides existing
      in out @ map (\<lambda>(k, v). Some v) (filter (\<lambda>(k, v). \<not> contains found k) overrides))"

fun label_loop ::
  "(string \<times> label_pair) list \<Rightarrow> metric option list \<Rightarrow> metric option list go" where
  "label_loop labels [] = Ret []"
| "label_loop labels (m # ms) =
     go_bind (deref m) (\<lambda>x.
       go_bind (label_loop labels ms) (\<lambda>out.
         Ret (Some (x\<lparr>m_Label := appendLabels (m_Label x) labels\<rparr>) # out)))"

definition label_Transform ::
  "label_state \<Rightarrow> world \<Rightarrow> family option \<Rightarrow> (world \<times> label_state \<times> tres) go" where
  "label_Transform t w family =
     go_bind (deref family) (\<lambda>f.
       let apply_labels = (\<lambda>w1 t1.
             go_bind (label_loop (ls_labels t1) (f_Metric f)) (\<lambda>ms.
               Ret (w1, t1, Some (f\<lparr>f_Metric := ms\<rparr>), True, None)))
       in if ls_retriever t \<and> length (f_Metric f) > 0
          then (let w1 = w\<lparr>w_labelCalls := Suc (w_labelCalls w)\<rparr>
                in (case w_labels w (w_labelCalls w) of
                      Inl e \<Rightarrow> Ret (w1, t, family, False, Some e)
                    | Inr added \<Rightarrow>
                        apply_labels w1 (t\<lparr>ls_retriever := False,
                          ls_labels := fold (\<lambda>(k, v). AList.update k (mk_label k v)) added (ls_labels t)\<rparr>)))
          else apply_labels w t)"

section \<open>The invariant of the label map\<close>

definition label_map_ok :: "(string \<times> label_pair) list \<Rightarrow> bool" where
  "label_map_ok kvs \<longleftrightarrow>
     distinct (map fst kvs) \<and> list_all (\<lambda>(k, p). lp_Name p = Some k \<and> lp_Value p \<noteq> None) kvs"

section \<open>Lemmas\<close>

lemma contains_iff [simp]: "contains vs s \<longleftrightarrow> s \<in> set vs"
  by (induction vs) auto

lemma set_update_subset: "set (AList.update k v kvs) \<subseteq> insert (k, v) (set kvs)"
  by (induction kvs) auto

lemma label_map_ok_update:
  "label_map_ok kvs \<Longrightarrow> label_map_ok (AList.update k (mk_label k v) kvs)"
  using set_update_subset [of k "mk_label k v" kvs]
  by (force simp: label_map_ok_def list_all_iff distinct_update)

lemma label_map_ok_fold:
  "label_map_ok kvs \<Longrightarrow> label_map_ok (fold (\<lambda>(k, v). AList.update k (mk_label k v)) new kvs)"
  by (induction new arbitrary: kvs) (auto simp: label_map_ok_update)

lemma label_map_ok_NewLabel: "label_map_ok (ls_labels (NewLabel labels r))"
proof -
  have "label_map_ok []" by (simp add: label_map_ok_def)
  then show ?thesis by (simp add: NewLabel_def label_map_ok_fold)
qed

lemma map_of_fold_update_None:
  "k \<notin> fst ` set new \<Longrightarrow> map_of (fold (\<lambda>(k, v). AList.update k (mk_label k v)) new kvs) k = map_of kvs k"
  by (induction new arbitrary: kvs) (auto simp: update_conv')

lemma map_of_fold_update:
  "distinct (map fst new) \<Longrightarrow> (k, v) \<in> set new \<Longrightarrow>
     map_of (fold (\<lambda>(k, v). AList.update k (mk_label k v)) new kvs) k = Some (mk_label k v)"
proof (induction new arbitrary: kvs)
  case (Cons x new)
  from Cons show ?case by (cases x) (auto simp: map_of_fold_update_None update_conv')
qed simp

subsection \<open>appendLabels\<close>

lemma override_loop_eq:
  "override_loop kvs ls =
     (map (\<lambda>l. case map_of kvs (GetName l) of Some v \<Rightarrow> Some v | None \<Rightarrow> l) ls,
      filter (\<lambda>n. map_of kvs n \<noteq> None) (map GetName ls))"
  by (induction ls) (auto simp: Let_def split: option.splits)

lemma appendLabels_eq:
  "appendLabels ls kvs =
     map (\<lambda>l. case map_of kvs (GetName l) of Some v \<Rightarrow> Some v | None \<Rightarrow> l) ls @
     map (\<lambda>(k, v). Some v) (filter (\<lambda>(k, v). k \<notin> GetName ` set ls) kvs)"
proof -
  have "filter (\<lambda>(k, v). \<not> contains (filter (\<lambda>n. map_of kvs n \<noteq> None) (map GetName ls)) k) kvs =
      filter (\<lambda>(k, v). k \<notin> GetName ` set ls) kvs"
    by (rule filter_cong) (auto simp: map_of_eq_None_iff image_iff)
  then show ?thesis by (simp add: appendLabels_def override_loop_eq)
qed

lemma label_map_ok_lookup:
  "label_map_ok kvs \<Longrightarrow> map_of kvs n = Some q \<Longrightarrow> (n, q) \<in> set kvs \<and> GetName (Some q) = n"
  by (auto simp: label_map_ok_def list_all_iff dest!: map_of_SomeD)

lemma label_map_ok_mem:
  "label_map_ok kvs \<Longrightarrow> (n, q) \<in> set kvs \<Longrightarrow> map_of kvs n = Some q \<and> GetName (Some q) = n"
  by (auto simp: label_map_ok_def list_all_iff set_map_of_lookup)

lemma appendLabels_elem:
  assumes "label_map_ok kvs" and "l \<in> set (appendLabels ls kvs)"
  shows "(map_of kvs (GetName l) = None \<and> l \<in> set ls) \<or> (\<exists>q. map_of kvs (GetName l) = Some q \<and> l = Some q)"
proof -
  from assms(2) consider
    (old) l0 where "l0 \<in> set ls"
      and "l = (case map_of kvs (GetName l0) of Some v \<Rightarrow> Some v | None \<Rightarrow> l0)"
  | (new) n q where "(n, q) \<in> set kvs" and "l = Some q"
    by (auto simp: appendLabels_eq)
  then show ?thesis
  proof cases
    case old
    then show ?thesis
      using label_map_ok_lookup [OF assms(1)] by (cases "map_of kvs (GetName l0)") auto
  next
    case new
    then show ?thesis using label_map_ok_mem [OF assms(1)] by auto
  qed
qed

lemma appendLabels_sets:
  assumes "label_map_ok kvs" and "(k, p) \<in> set kvs"
  shows "Some p \<in> set (appendLabels ls kvs) \<and>
    (\<forall>l \<in> set (appendLabels ls kvs). GetName l = k \<longrightarrow> l = Some p)"
proof -
  have look: "map_of kvs k = Some p" using label_map_ok_mem [OF assms] by simp
  have "Some p \<in> set (appendLabels ls kvs)"
  proof (cases "k \<in> GetName ` set ls")
    case True
    then show ?thesis using look by (force simp: appendLabels_eq)
  next
    case False
    then show ?thesis using assms(2) by (force simp: appendLabels_eq)
  qed
  with look appendLabels_elem [OF assms(1)] show ?thesis by fastforce
qed

lemma appendLabels_others:
  assumes ok: "label_map_ok kvs"
  shows "filter (\<lambda>l. map_of kvs (GetName l) = None) (appendLabels ls kvs) =
    filter (\<lambda>l. map_of kvs (GetName l) = None) ls"
proof -
  have known: "map_of kvs n = Some q \<Longrightarrow> map_of kvs (GetName (Some q)) = Some q" for n q
    using label_map_ok_lookup [OF ok] by auto
  have "filter (\<lambda>l. map_of kvs (GetName l) = None) (map (\<lambda>l. case map_of kvs (GetName l) of
      Some v \<Rightarrow> Some v | None \<Rightarrow> l) ls) = filter (\<lambda>l. map_of kvs (GetName l) = None) ls"
    using known by (induction ls) (auto split: option.splits)
  moreover have "filter (\<lambda>l. map_of kvs (GetName l) = None)
      (map (\<lambda>(k, v). Some v) (filter (\<lambda>(k, v). k \<notin> GetName ` set ls) kvs)) = []"
    using label_map_ok_mem [OF ok] by (auto simp: filter_empty_conv)
  ultimately show ?thesis by (simp add: appendLabels_eq)
qed

lemma first_value_unique:
  assumes "Some p \<in> set (m_Label m)" and "lp_Name p = Some k"
    and "\<forall>l \<in> set (m_Label m). GetName l = k \<longrightarrow> l = Some p"
  shows "first_value k m = Some (GetValue (Some p))"
proof -
  have "p \<in> set (filter (\<lambda>l. GetName (Some l) = k) (somes (m_Label m)))"
    using assms(1,2) by (simp add: set_somes)
  then obtain q qs where q: "filter (\<lambda>l. GetName (Some l) = k) (somes (m_Label m)) = q # qs"
    by (metis list.set_cases)
  then have "q \<in> set (filter (\<lambda>l. GetName (Some l) = k) (somes (m_Label m)))" by simp
  then have "q = p" using assms(3) by (auto simp: set_somes)
  with q show ?thesis by (simp add: first_value_def)
qed

subsection \<open>The transformer\<close>

lemma label_loop_Ret:
  "label_loop kvs ms = Ret out \<longleftrightarrow>
     None \<notin> set ms \<and> out = map (map_option (\<lambda>m. m\<lparr>m_Label := appendLabels (m_Label m) kvs\<rparr>)) ms"
proof (induction ms arbitrary: out)
  case (Cons m ms)
  then show ?case by (cases m) auto
qed auto

lemma label_loop_nil: "None \<in> set ms \<Longrightarrow> label_loop kvs ms = Panic NilDeref"
proof (induction ms)
  case (Cons m ms)
  then show ?case by (cases m) auto
qed simp

lemma label_Transform_Ret:
  assumes "label_Transform t w (Some f) = Ret (w', t', f', True, err)"
  shows "f' = Some (f\<lparr>f_Metric := map (map_option (\<lambda>m. m\<lparr>m_Label := appendLabels (m_Label m) (ls_labels t')\<rparr>))
           (f_Metric f)\<rparr>) \<and> None \<notin> set (f_Metric f) \<and> err = None"
  using assms
  by (auto simp: label_Transform_def Let_def label_loop_Ret split: if_splits sum.splits)

lemma label_Transform_map_ok:
  assumes "label_Transform t w family = Ret (w', t', r)" and "label_map_ok (ls_labels t)"
  shows "label_map_ok (ls_labels t')"
  using assms
  by (auto simp: label_Transform_def Let_def label_map_ok_fold split: if_splits sum.splits)

text \<open>Where the entries of the label map and of the labels of a metric come from.\<close>

lemma label_pairs_from:
  "Some p \<in> (\<lambda>(k, v). Some v) ` set (fold (\<lambda>(k, v). AList.update k (mk_label k v)) new kvs) \<Longrightarrow>
     (\<exists>k v. (k, v) \<in> set new \<and> p = mk_label k v) \<or> Some p \<in> (\<lambda>(k, v). Some v) ` set kvs"
proof (induction new arbitrary: kvs)
  case (Cons x new)
  obtain k v where x: "x = (k, v)" by fastforce
  from Cons.IH Cons.prems x consider k' v' where "(k', v') \<in> set new" "p = mk_label k' v'"
    | "Some p \<in> (\<lambda>(k, v). Some v) ` set (AList.update k (mk_label k v) kvs)" by fastforce
  then show ?case
  proof cases
    case 2
    with set_update_subset [of k "mk_label k v" kvs] x show ?thesis by fastforce
  qed auto
qed simp

lemma NewLabel_pairs:
  assumes "(k, p) \<in> set (ls_labels (NewLabel kvs r))"
  obtains k' v where "(k', v) \<in> set kvs" and "p = mk_label k' v"
proof -
  have "Some p \<in> (\<lambda>(k, v). Some v) ` set (fold (\<lambda>(k, v). AList.update k (mk_label k v)) kvs [])"
    using assms by (force simp: NewLabel_def)
  from label_pairs_from [OF this] that show thesis by auto
qed

lemma appendLabels_mem:
  "l \<in> set (appendLabels ls kvs) \<Longrightarrow> l \<in> set ls \<or> (\<exists>k p. (k, p) \<in> set kvs \<and> l = Some p)"
  by (auto simp: appendLabels_eq split: option.splits dest!: map_of_SomeD)

lemma labelled_first_value:
  assumes "label_map_ok kvs" and "(k, p) \<in> set kvs"
  shows "first_value k (m\<lparr>m_Label := appendLabels (m_Label m) kvs\<rparr>) = Some (GetValue (Some p))"
proof (rule first_value_unique)
  show "lp_Name p = Some k" using assms by (auto simp: label_map_ok_def list_all_iff)
qed (use appendLabels_sets [OF assms, of "m_Label m"] in auto)

section \<open>Properties\<close>

text \<open>
  C29: a family the label transformer returns carries the configured labels: every metric passes
  \<^verbatim>\<open>requireLabel\<close> for all of them, and its labels with other names are unchanged and in
  order.
\<close>

theorem labelled_passes_required:
  assumes "distinct (map fst kvs)"
    and "label_Transform (NewLabel kvs False) w (Some f) = Ret (w', t', Some g, True, None)"
  shows "requireLabel_Transform kvs (Some g) = Ret (Some g, True, None) \<and>
    list_all2 (\<lambda>m m'. filter (\<lambda>l. GetName l \<notin> fst ` set kvs) (m_Label m') =
       filter (\<lambda>l. GetName l \<notin> fst ` set kvs) (m_Label m)) (somes (f_Metric f)) (somes (f_Metric g))"
proof -
  let ?m = "ls_labels (NewLabel kvs False)"
  have t': "ls_labels t' = ?m"
    using assms(2) by (auto simp: label_Transform_def NewLabel_def Let_def)
  from label_Transform_Ret [OF assms(2)] t' have g: "somes (f_Metric g) =
      map (\<lambda>m. m\<lparr>m_Label := appendLabels (m_Label m) ?m\<rparr>) (somes (f_Metric f))" by simp
  have dom: "map_of ?m n = None \<longleftrightarrow> n \<notin> fst ` set kvs" for n
    using map_of_fold_update [OF assms(1), of n _ "[]"] map_of_fold_update_None [of n kvs "[]"]
    by (fastforce simp: NewLabel_def)
  have "first_value k (m\<lparr>m_Label := appendLabels (m_Label m) ?m\<rparr>) = Some v" if "(k, v) \<in> set kvs" for k v m
    using labelled_first_value [OF label_map_ok_NewLabel, of k "mk_label k v" kvs False]
      map_of_fold_update [OF assms(1) that, of "[]"]
    by (auto simp: NewLabel_def dest: map_of_SomeD)
  then have "requireLabel_Transform kvs (Some g) = Ret (Some g, True, None)"
    by (auto simp: requireLabel_accepts_iff g)
  moreover have "filter (\<lambda>l. GetName l \<notin> fst ` set kvs) (appendLabels ls ?m) =
      filter (\<lambda>l. GetName l \<notin> fst ` set kvs) ls" for ls
    using appendLabels_others [OF label_map_ok_NewLabel, of kvs False ls] by (simp add: dom)
  ultimately show ?thesis by (simp add: g list.rel_map list.rel_refl)
qed

theorem labelled_passes_required_witness:
  "\<exists>g. label_Transform (NewLabel [(''_id'', ''c1'')] False) (still_world 0)
      (Some (counter_family ''up'' [Some (counter_metric [(''_id'', ''x''), (''a'', ''b'')] None)])) =
      Ret (still_world 0, NewLabel [(''_id'', ''c1'')] False, Some g, True, None) \<and>
    requireLabel_Transform [(''_id'', ''c1'')] (Some g) = Ret (Some g, True, None)"
proof -
  have d: "distinct (map fst [(''_id'', ''c1'')])" by simp
  have run: "label_Transform (NewLabel [(''_id'', ''c1'')] False) w
      (Some (counter_family ''up'' [Some (counter_metric [(''_id'', ''x''), (''a'', ''b'')] None)])) =
      Ret (w, NewLabel [(''_id'', ''c1'')] False,
        Some (counter_family ''up'' [Some (counter_metric [(''_id'', ''c1''), (''a'', ''b'')] None)]), True, None)" for w
    by (simp add: label_Transform_def NewLabel_def example_defs appendLabels_def Let_def GetName_def)
  from labelled_passes_required [OF d run] show ?thesis unfolding run by blast
qed

end
