(* ===== verification/Whitelist.thy ===== *)
theory Whitelist
  imports Client_Model
begin

text \<open>
  \<^verbatim>\<open>pkg/metricfamily/whitelist.go\<close>.  A matcher is one of
  \<^verbatim>\<open>github.com/prometheus/prometheus/model/labels\<close>: its label name and its
  \<^verbatim>\<open>Matches\<close> function; the PromQL parser that produces matchers is an argument of
  \<^verbatim>\<open>NewWhitelist\<close>.
\<close>

section \<open>Matchers and matching\<close>

record matcher =
  mt_Name :: string
  mt_Matches :: "string \<Rightarrow> bool"

definition nameLabel :: string where
  "nameLabel = ''__name__''"

fun NewWhitelist :: "(string \<Rightarrow> 'e + matcher list) \<Rightarrow> string list \<Rightarrow> 'e + matcher list list" where
  "NewWhitelist parse [] = Inr []"
| "NewWhitelist parse (r # rules) =
     (case parse r of
        Inl e \<Rightarrow> Inl e
      | Inr ms \<Rightarrow>
          (case NewWhitelist parse rules of Inl e \<Rightarrow> Inl e | Inr mss \<Rightarrow> Inr (ms # mss)))"

text \<open>The inner loop of \<^verbatim>\<open>match\<close>: does some label satisfy the matcher?\<close>

fun match_label :: "matcher \<Rightarrow> label_pair option list \<Rightarrow> bool" where
  "match_label m [] = False"
| "match_label m (l # ls) =
     (if l = None \<or> mt_Name m \<noteq> GetName l \<or> \<not> mt_Matches m (GetValue l)
      then match_label m ls else True)"

fun match :: "string \<Rightarrow> metric \<Rightarrow> matcher list \<Rightarrow> bool" where
  "match name x [] = True"
| "match name x (m # ms) =
     (if mt_Name m = nameLabel \<and> mt_Matches m name then match name x ms
      else if match_label m (m_Label x) then match name x ms
      else False)"

fun match_any :: "string \<Rightarrow> metric \<Rightarrow> matcher list list \<Rightarrow> bool" where
  "match_any name x [] = False"
| "match_any name x (matchset # t) =
     (if match name x matchset then True else match_any name x t)"

fun whitelist_loop ::
  "matcher list list \<Rightarrow> string \<Rightarrow> bool \<Rightarrow> metric option list \<Rightarrow> bool \<times> metric option list" where
  "whitelist_loop t name ok [] = (ok, [])"
| "whitelist_loop t name ok (None # ms) =
     (let (ok', out) = whitelist_loop t name ok ms in (ok', None # out))"
| "whitelist_loop t name ok (Some m # ms) =
     (if match_any name m t
      then (let (ok', out) = whitelist_loop t name True ms in (ok', Some m # out))
      else (let (ok', out) = whitelist_loop t name ok ms in (ok', None # out)))"

definition whitelist_Transform :: "matcher list list \<Rightarrow> family option \<Rightarrow> tres go" where
  "whitelist_Transform t family =
     go_bind (deref family) (\<lambda>f.
       let (ok, ms) = whitelist_loop t (family_GetName family) False (f_Metric f)
       in Ret (Some (f\<lparr>f_Metric := ms\<rparr>), ok, None))"

section \<open>What it means to match\<close>

text \<open>
  A matcher is satisfied by the family name (for \<^verbatim>\<open>__name__\<close>) or by a label; a rule by
  all of its matchers; a whitelist by one of its rules.
\<close>

definition satisfies :: "string \<Rightarrow> metric \<Rightarrow> matcher \<Rightarrow> bool" where
  "satisfies name x m \<longleftrightarrow>
     (mt_Name m = nameLabel \<and> mt_Matches m name) \<or>
     (\<exists>l. Some l \<in> set (m_Label x) \<and> GetName (Some l) = mt_Name m \<and> mt_Matches m (GetValue (Some l)))"

definition whitelisted :: "matcher list list \<Rightarrow> string \<Rightarrow> metric \<Rightarrow> bool" where
  "whitelisted t name x \<longleftrightarrow> (\<exists>rule \<in> set t. \<forall>m \<in> set rule. satisfies name x m)"

section \<open>Lemmas\<close>

lemma match_label_iff:
  "match_label m ls \<longleftrightarrow>
     (\<exists>l. Some l \<in> set ls \<and> GetName (Some l) = mt_Name m \<and> mt_Matches m (GetValue (Some l)))"
proof (induction ls)
  case (Cons l ls)
  then show ?case by (cases l) auto
qed simp

lemma match_iff: "match name x ms \<longleftrightarrow> (\<forall>m \<in> set ms. satisfies name x m)"
  by (induction ms) (auto simp: satisfies_def match_label_iff)

lemma match_any_iff: "match_any name x t \<longleftrightarrow> whitelisted t name x"
  by (induction t) (auto simp: whitelisted_def match_iff)

lemma whitelist_loop_eq:
  "whitelist_loop t name ok ms =
     (ok \<or> (\<exists>m \<in> set (somes ms). whitelisted t name m),
      map (\<lambda>m. case m of None \<Rightarrow> None | Some x \<Rightarrow> if whitelisted t name x then m else None) ms)"
  by (induction t name ok ms rule: whitelist_loop.induct) (auto simp: match_any_iff)

lemma whitelist_Transform_eq:
  "whitelist_Transform t (Some f) =
     (let name = family_GetName (Some f)
      in Ret (Some (f\<lparr>f_Metric := map (\<lambda>m. case m of None \<Rightarrow> None
                | Some x \<Rightarrow> if whitelisted t name x then m else None) (f_Metric f)\<rparr>),
              \<exists>m \<in> set (somes (f_Metric f)). whitelisted t name m, None))"
  by (simp add: whitelist_Transform_def whitelist_loop_eq Let_def)

lemma somes_whitelist:
  "somes (map (\<lambda>m. case m of None \<Rightarrow> None | Some x \<Rightarrow> if P x then m else None) ms) = filter P (somes ms)"
  by (induction ms rule: somes.induct) auto

lemma NewWhitelist_Inr:
  "NewWhitelist parse rules = Inr t \<longleftrightarrow> map parse rules = map Inr t"
proof (induction rules arbitrary: t)
  case (Cons r rules)
  then show ?case by (cases t) (auto split: sum.splits, blast)
qed auto

section \<open>Properties\<close>

text \<open>
  C28: the whitelist keeps exactly the metrics that satisfy all matchers of some rule, the others
  become nil in place, and the family is accepted exactly when a metric is kept.  A rule's
  matcher is satisfied by the family's name or by some label of that name with a matching
  value; a label that is absent satisfies no matcher.
\<close>

theorem whitelist_exact:
  "\<exists>ms. whitelist_Transform t (Some f) = Ret (Some (f\<lparr>f_Metric := ms\<rparr>), somes ms \<noteq> [], None) \<and>
     ms = map (\<lambda>m. if whitelisted t (family_GetName (Some f)) (the m) then m else None) (f_Metric f)"
proof -
  let ?P = "whitelisted t (family_GetName (Some f))"
  let ?ms = "map (\<lambda>m. case m of None \<Rightarrow> None | Some x \<Rightarrow> if ?P x then m else None) (f_Metric f)"
  have "whitelist_Transform t (Some f) = Ret (Some (f\<lparr>f_Metric := ?ms\<rparr>), somes ?ms \<noteq> [], None)"
    by (auto simp: whitelist_Transform_eq Let_def somes_whitelist filter_empty_conv simp del: family_GetName_simps)
  moreover have "?ms = map (\<lambda>m. if ?P (the m) then m else None) (f_Metric f)"
    by (auto split: option.splits)
  ultimately show ?thesis by metis
qed

end
