(* ===== verification/Sort_Merge.thy ===== *)
theory Sort_Merge
  imports Validation
begin

text \<open>
  \<^verbatim>\<open>pkg/metricfamily/sort.go\<close>: the two orders, \<^verbatim>\<open>SortMetrics\<close> and
  \<^verbatim>\<open>MergeSortedWithTimestamps\<close>.
\<close>

section \<open>Orders and SortMetrics\<close>

text \<open>\<^verbatim>\<open>MetricsByTimestamp.Less\<close> on the two entries it compares.\<close>

definition metric_less :: "metric option \<Rightarrow> metric option \<Rightarrow> bool" where
  "metric_less a b =
     (case a of
        None \<Rightarrow> b \<noteq> None
      | Some x \<Rightarrow>
          (case b of
             None \<Rightarrow> False
           | Some y \<Rightarrow>
               (case m_TimestampMs x of
                  None \<Rightarrow> m_TimestampMs y \<noteq> None
                | Some tx \<Rightarrow>
                    (case m_TimestampMs y of None \<Rightarrow> False | Some ty \<Rightarrow> tx < ty))))"

text \<open>\<^verbatim>\<open>sort.Sort\<close> is the argument \<open>srt\<close>.\<close>

definition SortMetrics ::
  "(metric option list \<Rightarrow> metric option list) \<Rightarrow> family option \<Rightarrow> tres go" where
  "SortMetrics srt family =
     go_bind (deref family) (\<lambda>f. Ret (Some (f\<lparr>f_Metric := srt (f_Metric f)\<rparr>), True, None))"

text \<open>\<^verbatim>\<open>*m.TimestampMs\<close>, and \<^verbatim>\<open>PackedFamilyWithTimestampsByName.Less\<close>.\<close>

definition ts_ptr :: "metric option \<Rightarrow> int go" where
  "ts_ptr m = go_bind (deref m) (\<lambda>x. deref (m_TimestampMs x))"

definition packed_less :: "family option \<Rightarrow> family option \<Rightarrow> bool go" where
  "packed_less fi fj =
     (let a = family_GetName fi; b = family_GetName fj
      in if a < b then Ret True
         else if a > b then Ret False
         else go_bind (deref fi) (\<lambda>x. go_bind (index (f_Metric x) 0) (\<lambda>mx. go_bind (ts_ptr mx) (\<lambda>tA.
              go_bind (deref fj) (\<lambda>y. go_bind (index (f_Metric y) 0) (\<lambda>my. go_bind (ts_ptr my) (\<lambda>tB.
                Ret (tA < tB))))))))"

section \<open>MergeSortedWithTimestamps\<close>

text \<open>The zip merge: \<open>i\<close> and \<open>j\<close> walk the two slices, the first wins a tie.\<close>

fun zip_merge :: "metric option list \<Rightarrow> metric option list \<Rightarrow> metric option list go" where
  "zip_merge ds [] = Ret ds"
| "zip_merge [] (s # ss) = Ret (s # ss)"
| "zip_merge (d # ds) (s # ss) =
     go_bind (ts_ptr d) (\<lambda>a. go_bind (ts_ptr s) (\<lambda>b.
       if a \<le> b
       then go_bind (zip_merge ds (s # ss)) (\<lambda>out. Ret (d # out))
       else go_bind (zip_merge (d # ds) ss) (\<lambda>out. Ret (s # out))))"

definition merge_pair :: "metric option list \<Rightarrow> metric option list \<Rightarrow> metric option list go" where
  "merge_pair ds ss =
     go_bind (index ds 0) (\<lambda>d0. go_bind (ts_ptr d0) (\<lambda>dstBegin.
     go_bind (index ds (length ds - 1)) (\<lambda>d1. go_bind (ts_ptr d1) (\<lambda>dstEnd.
     go_bind (index ss 0) (\<lambda>s0. go_bind (ts_ptr s0) (\<lambda>srcBegin.
     go_bind (index ss (length ss - 1)) (\<lambda>s1. go_bind (ts_ptr s1) (\<lambda>srcEnd.
       if dstEnd < srcBegin then Ret (ds @ ss)
       else if srcEnd < dstBegin then Ret (ss @ ds)
       else zip_merge ds ss))))))))"

text \<open>
  The loop over \<^verbatim>\<open>families\<close>: \<open>done\<close> are the entries already passed and
  \<open>dst\<close> is the position in \<open>done\<close> of the family the variable \<^verbatim>\<open>dst\<close>
  points to.
\<close>

fun merge_loop ::
  "family option list \<Rightarrow> nat option \<Rightarrow> family option list \<Rightarrow> family option list go" where
  "merge_loop passed dst [] = Ret passed"
| "merge_loop passed None (src # rest) =
     merge_loop (passed @ [src]) (if src = None then None else Some (length passed)) rest"
| "merge_loop passed (Some d) (src # rest) =
     (if family_GetName (passed ! d) \<noteq> family_GetName src
      then merge_loop (passed @ [src]) None rest
      else go_bind (deref (passed ! d)) (\<lambda>df. go_bind (deref src) (\<lambda>sf.
             go_bind (merge_pair (f_Metric df) (f_Metric sf)) (\<lambda>ms.
               merge_loop (passed[d := Some (df\<lparr>f_Metric := ms\<rparr>)] @ [None]) (Some d) rest))))"

definition MergeSortedWithTimestamps :: "family option list \<Rightarrow> family option list go" where
  "MergeSortedWithTimestamps families =
     go_bind (merge_loop [] None families) (\<lambda>fs. Ret (Pack fs))"

section \<open>What the merge is given and promises\<close>

text \<open>
  The documented precondition on one slice: no nil metric, a timestamp on every metric, in
  order; and the samples of a list of families, each with the name of its family.
\<close>

definition dense_sorted :: "metric option list \<Rightarrow> bool" where
  "dense_sorted ms \<longleftrightarrow>
     (\<forall>m \<in> set ms. \<exists>x t. m = Some x \<and> m_TimestampMs x = Some t) \<and>
     sorted (map GetTimestampMs ms)"

definition packed_family :: "family option \<Rightarrow> bool" where
  "packed_family f \<longleftrightarrow> (\<exists>x. f = Some x \<and> f_Metric x \<noteq> [] \<and> dense_sorted (f_Metric x))"

definition named_samples :: "family option list \<Rightarrow> (string \<times> metric) list" where
  "named_samples fs = concat (map (\<lambda>f. map (Pair (family_GetName f)) (family_metrics f)) fs)"

text \<open>The loop invariant: packed families or holes behind, and \<open>dst\<close> is one of them.\<close>

definition merge_inv :: "family option list \<Rightarrow> nat option \<Rightarrow> bool" where
  "merge_inv passed dst \<longleftrightarrow>
     (\<forall>f \<in> set passed. f = None \<or> packed_family f) \<and>
     (\<forall>d. dst = Some d \<longrightarrow> d < length passed \<and> passed ! d \<noteq> None)"

section \<open>Lemmas\<close>

interpretation by_timestamp: strict_weak_order metric_less
  by unfold_locales (auto simp: metric_less_def split: option.splits)

text \<open>The order puts nil entries first, then metrics without a timestamp, then by time.\<close>

lemma sorted_by_timestamps:
  assumes "sorted_by metric_less ms" and "\<forall>m \<in> set ms. \<exists>x t. m = Some x \<and> m_TimestampMs x = Some t"
  shows "dense_sorted ms"
proof -
  have "sorted_wrt (\<lambda>a b. GetTimestampMs a \<le> GetTimestampMs b) ms"
  proof (rule sorted_wrt_mono_rel [of ms "\<lambda>a b. \<not> metric_less b a"])
    fix a b assume "a \<in> set ms" and "b \<in> set ms" and le: "\<not> metric_less b a"
    with assms(2) obtain x y s t where "a = Some x" "m_TimestampMs x = Some s"
      and "b = Some y" "m_TimestampMs y = Some t" by metis
    with le show "GetTimestampMs a \<le> GetTimestampMs b" by (simp add: metric_less_def)
  qed (use assms(1) in \<open>simp add: sorted_by_def\<close>)
  with assms(2) show ?thesis by (simp add: dense_sorted_def sorted_map)
qed

lemma sorted_somes_timestamps:
  "sorted_by metric_less ms \<Longrightarrow> \<forall>m \<in> set (somes ms). \<exists>t. m_TimestampMs m = Some t \<and> 0 \<le> t \<Longrightarrow>
     sorted_wrt (\<lambda>a b. sample_ts a \<le> sample_ts b) (somes ms)"
proof (induction ms rule: somes.induct)
  case (3 x xs)
  have "sample_ts x \<le> sample_ts y" if "y \<in> set (somes xs)" for y
  proof -
    from 3(3) that obtain s t where "m_TimestampMs x = Some s" "m_TimestampMs y = Some t" by auto
    moreover from 3(2) that have "\<not> metric_less (Some y) (Some x)" by (simp add: sorted_by_def set_somes)
    ultimately show ?thesis by (simp add: metric_less_def sample_ts_def)
  qed
  with 3 show ?case by (simp add: sorted_by_def)
qed (auto simp: sorted_by_def)

lemma named_samples_Pack: "named_samples (Pack fs) = named_samples fs"
proof -
  have "named_samples (filter (\<lambda>f. \<not> empty_family f) fs) = named_samples fs"
    by (induction fs) (auto simp: named_samples_def empty_family_def split: option.splits)
  then show ?thesis by (simp add: Pack_filter)
qed

lemma dense_sorted_Nil [simp]: "dense_sorted []"
  by (simp add: dense_sorted_def)

lemma dense_sorted_Cons:
  "dense_sorted (m # ms) \<longleftrightarrow>
     (\<exists>x t. m = Some x \<and> m_TimestampMs x = Some t) \<and>
     (\<forall>b \<in> set ms. GetTimestampMs m \<le> GetTimestampMs b) \<and> dense_sorted ms"
  by (auto simp: dense_sorted_def)

lemma dense_sorted_append:
  "dense_sorted (xs @ ys) \<longleftrightarrow>
     dense_sorted xs \<and> dense_sorted ys \<and> (\<forall>a \<in> set xs. \<forall>b \<in> set ys. GetTimestampMs a \<le> GetTimestampMs b)"
  by (auto simp: dense_sorted_def sorted_append)

lemma ts_ptr_dense: "dense_sorted ms \<Longrightarrow> m \<in> set ms \<Longrightarrow> ts_ptr m = Ret (GetTimestampMs m)"
  by (fastforce simp: dense_sorted_def ts_ptr_def)

lemma zip_merge_correct:
  "dense_sorted ds \<Longrightarrow> dense_sorted ss \<Longrightarrow>
     \<exists>out. zip_merge ds ss = Ret out \<and> dense_sorted out \<and> mset out = mset ds + mset ss"
proof (induction ds ss rule: zip_merge.induct)
  case (3 d ds s ss)
  have ts: "ts_ptr d = Ret (GetTimestampMs d)" "ts_ptr s = Ret (GetTimestampMs s)"
    using 3 ts_ptr_dense by auto
  show ?case
  proof (cases "GetTimestampMs d \<le> GetTimestampMs s")
    case True
    with "3.IH"(1) [OF ts True] "3.prems" obtain out where
      out: "zip_merge ds (s # ss) = Ret out" "dense_sorted out" "mset out = mset ds + mset (s # ss)"
      by (auto simp: dense_sorted_Cons)
    from out(3) have "set out = set ds \<union> set (s # ss)"
      by (metis set_mset_mset set_mset_union)
    with 3 True out have "dense_sorted (d # out)" by (fastforce simp: dense_sorted_Cons)
    with True ts out show ?thesis by simp
  next
    case False
    with "3.IH"(2) [OF ts False] "3.prems" obtain out where
      out: "zip_merge (d # ds) ss = Ret out" "dense_sorted out" "mset out = mset (d # ds) + mset ss"
      by (auto simp: dense_sorted_Cons)
    from out(3) have "set out = set (d # ds) \<union> set ss"
      by (metis set_mset_mset set_mset_union)
    with 3 False out have "dense_sorted (s # out)" by (fastforce simp: dense_sorted_Cons)
    with False ts out show ?thesis by simp
  qed
qed auto

lemma dense_sorted_bounds:
  assumes "dense_sorted ms" and "m \<in> set ms"
  shows "GetTimestampMs (ms ! 0) \<le> GetTimestampMs m \<and> GetTimestampMs m \<le> GetTimestampMs (ms ! (length ms - 1))"
proof -
  obtain i where i: "i < length ms" "ms ! i = m" using assms(2) by (auto simp: in_set_conv_nth)
  have "sorted (map GetTimestampMs ms)" using assms(1) by (simp add: dense_sorted_def)
  from sorted_nth_mono [OF this, of 0 i] sorted_nth_mono [OF this, of i "length ms - 1"] i
  have "map GetTimestampMs ms ! 0 \<le> map GetTimestampMs ms ! i"
    and "map GetTimestampMs ms ! i \<le> map GetTimestampMs ms ! (length ms - 1)" by simp_all
  moreover have "0 < length ms" using i by linarith
  ultimately show ?thesis using i by simp
qed

lemma merge_pair_correct:
  assumes "dense_sorted ds" and "dense_sorted ss" and "ds \<noteq> []" and "ss \<noteq> []"
  shows "\<exists>out. merge_pair ds ss = Ret out \<and> dense_sorted out \<and> mset out = mset ds + mset ss"
proof -
  have nth: "ds ! 0 \<in> set ds" "ds ! (length ds - 1) \<in> set ds" "ss ! 0 \<in> set ss"
    "ss ! (length ss - 1) \<in> set ss" using assms(3,4) by auto
  have eq: "merge_pair ds ss =
      (if GetTimestampMs (ds ! (length ds - 1)) < GetTimestampMs (ss ! 0) then Ret (ds @ ss)
       else if GetTimestampMs (ss ! (length ss - 1)) < GetTimestampMs (ds ! 0) then Ret (ss @ ds)
       else zip_merge ds ss)"
    using assms nth ts_ptr_dense by (simp add: merge_pair_def index_def)
  consider (after) "GetTimestampMs (ds ! (length ds - 1)) < GetTimestampMs (ss ! 0)"
    | (before) "\<not> GetTimestampMs (ds ! (length ds - 1)) < GetTimestampMs (ss ! 0)"
        "GetTimestampMs (ss ! (length ss - 1)) < GetTimestampMs (ds ! 0)"
    | (overlap) "\<not> GetTimestampMs (ds ! (length ds - 1)) < GetTimestampMs (ss ! 0)"
        "\<not> GetTimestampMs (ss ! (length ss - 1)) < GetTimestampMs (ds ! 0)"
    by blast
  then show ?thesis
  proof cases
    case after
    then have "\<forall>a \<in> set ds. \<forall>b \<in> set ss. GetTimestampMs a \<le> GetTimestampMs b"
      using dense_sorted_bounds [OF assms(1)] dense_sorted_bounds [OF assms(2)] by fastforce
    with after assms eq show ?thesis by (simp add: dense_sorted_append)
  next
    case before
    then have "\<forall>a \<in> set ss. \<forall>b \<in> set ds. GetTimestampMs a \<le> GetTimestampMs b"
      using dense_sorted_bounds [OF assms(1)] dense_sorted_bounds [OF assms(2)] by fastforce
    with before assms eq show ?thesis by (simp add: dense_sorted_append)
  next
    case overlap
    then show ?thesis using zip_merge_correct [OF assms(1,2)] eq by simp
  qed
qed

subsection \<open>The loop over the families\<close>

lemma named_samples_simps [simp]:
  "named_samples [] = []"
  "named_samples (None # fs) = named_samples fs"
  "named_samples (Some f # fs) =
     map (Pair (family_GetName (Some f))) (somes (f_Metric f)) @ named_samples fs"
  "named_samples (xs @ ys) = named_samples xs @ named_samples ys"
  by (simp_all add: named_samples_def)

lemma named_samples_update:
  assumes "d < length fs" and "fs ! d = Some f"
  shows "mset (named_samples fs) = mset (named_samples (fs[d := None])) +
      mset (map (Pair (family_GetName (Some f))) (somes (f_Metric f)))"
    and "mset (named_samples (fs[d := Some g])) = mset (named_samples (fs[d := None])) +
      mset (map (Pair (family_GetName (Some g))) (somes (f_Metric g)))"
proof -
  have "fs = take d fs @ Some f # drop (Suc d) fs" using assms by (metis id_take_nth_drop)
  then have "mset (named_samples fs) = mset (named_samples (take d fs @ Some f # drop (Suc d) fs))"
    by simp
  with assms show "mset (named_samples fs) = mset (named_samples (fs[d := None])) +
      mset (map (Pair (family_GetName (Some f))) (somes (f_Metric f)))"
    by (simp add: upd_conv_take_nth_drop)
  show "mset (named_samples (fs[d := Some g])) = mset (named_samples (fs[d := None])) +
      mset (map (Pair (family_GetName (Some g))) (somes (f_Metric g)))"
    using assms by (simp add: upd_conv_take_nth_drop)
qed

lemma mset_somes: "mset xs = mset ys \<Longrightarrow> mset (somes xs) = mset (somes ys)"
proof -
  have "mset (somes zs) = image_mset the (filter_mset (\<lambda>x. x \<noteq> None) (mset zs))" for zs :: "'a option list"
    by (induction zs rule: somes.induct) auto
  then show "mset xs = mset ys \<Longrightarrow> mset (somes xs) = mset (somes ys)" by simp
qed

text \<open>One merge step: the result is packed, keeps the name and has the samples of both.\<close>

lemma merge_pair_families:
  assumes "packed_family (Some df)" and "packed_family (Some sf)"
  shows "\<exists>ms. merge_pair (f_Metric df) (f_Metric sf) = Ret ms \<and>
    packed_family (Some (df\<lparr>f_Metric := ms\<rparr>)) \<and>
    mset (somes ms) = mset (somes (f_Metric df)) + mset (somes (f_Metric sf))"
proof -
  from assms have "dense_sorted (f_Metric df)" "dense_sorted (f_Metric sf)"
    "f_Metric df \<noteq> []" "f_Metric sf \<noteq> []"
    by (auto simp: packed_family_def)
  from merge_pair_correct [OF this] obtain ms where
    ms: "merge_pair (f_Metric df) (f_Metric sf) = Ret ms" "dense_sorted ms"
      "mset ms = mset (f_Metric df @ f_Metric sf)" by auto
  from ms(3) \<open>f_Metric df \<noteq> []\<close> have "ms \<noteq> []" by auto
  with ms mset_somes [OF ms(3)] show ?thesis by (simp add: packed_family_def)
qed

lemma merge_loop_correct:
  assumes "merge_inv passed dst" and "\<forall>f \<in> set rest. packed_family f"
  shows "\<exists>out. merge_loop passed dst rest = Ret out \<and> (\<forall>f \<in> set out. f = None \<or> packed_family f) \<and>
    mset (named_samples out) = mset (named_samples (passed @ rest))"
  using assms
proof (induction passed dst rest rule: merge_loop.induct)
  case (1 passed dst)
  then show ?case by (simp add: merge_inv_def)
next
  case (2 passed src rest)
  then have "merge_inv (passed @ [src]) (Some (length passed))"
    by (auto simp: merge_inv_def packed_family_def)
  with 2 show ?case by (auto simp: packed_family_def split: if_splits)
next
  case (3 passed d src rest)
  show ?case
  proof (cases "family_GetName (passed ! d) = family_GetName src")
    case False
    with 3 have "merge_inv (passed @ [src]) None" by (auto simp: merge_inv_def)
    with 3 False show ?thesis by simp
  next
    case True
    from 3 obtain df sf where df: "passed ! d = Some df" and sf: "src = Some sf" and d: "d < length passed"
      by (auto simp: merge_inv_def packed_family_def)
    have "packed_family (Some df)" "packed_family (Some sf)"
      using "3.prems" df sf nth_mem [OF d] by (auto simp: merge_inv_def)
    from merge_pair_families [OF this] obtain ms where
      ms: "merge_pair (f_Metric df) (f_Metric sf) = Ret ms"
        "packed_family (Some (df\<lparr>f_Metric := ms\<rparr>))"
        "mset (somes ms) = mset (somes (f_Metric df)) + mset (somes (f_Metric sf))" by blast
    let ?next = "passed[d := Some (df\<lparr>f_Metric := ms\<rparr>)] @ [None]"
    have inv: "merge_inv ?next (Some d)"
      using "3.prems"(1) d ms(2) set_update_subset_insert [of passed d "Some (df\<lparr>f_Metric := ms\<rparr>)"]
      by (auto simp: merge_inv_def nth_append)
    have "mset (named_samples ?next) = mset (named_samples (passed @ [src]))"
      using named_samples_update [OF d df] True ms(3) df sf by (simp flip: image_mset_union)
    with inv show ?thesis using "3.IH"(2) [of df sf ms] "3.prems"(2) True df sf ms(1)
      by (simp add: add.assoc)
  qed
qed

text \<open>When every family has the same name, the first one absorbs all the others.\<close>

lemma merge_loop_same_name:
  assumes "packed_family (Some df)" and "\<forall>f \<in> set rest. packed_family f \<and> family_GetName f = family_GetName (Some df)"
  shows "\<exists>g. merge_loop (Some df # replicate n None) (Some 0) rest = Ret (Some g # replicate (n + length rest) None) \<and>
    packed_family (Some g) \<and> f_Name g = f_Name df"
  using assms
proof (induction rest arbitrary: df n)
  case (Cons src rest)
  from Cons.prems obtain sf where sf: "src = Some sf" by (auto simp: packed_family_def)
  with Cons.prems have "packed_family (Some sf)" by simp
  from merge_pair_families [OF Cons.prems(1) this] obtain ms where
    ms: "merge_pair (f_Metric df) (f_Metric sf) = Ret ms"
      "packed_family (Some (df\<lparr>f_Metric := ms\<rparr>))" by blast
  have "\<forall>f \<in> set rest. packed_family f \<and>
      family_GetName f = family_GetName (Some (df\<lparr>f_Metric := ms\<rparr>))" using Cons.prems(2) by simp
  from Cons.IH [OF ms(2) this, of "Suc n"] Cons.prems(2) sf ms(1) show ?case
    by (auto simp: replicate_append_same)
qed auto

section \<open>Properties\<close>

text \<open>
  with a sorting routine that meets the contract of \<^verbatim>\<open>sort.Sort\<close>,
  \<^verbatim>\<open>SortMetrics\<close> rearranges the metrics of a family into timestamp order (nil entries
  first, then metrics without a timestamp), and neither loses nor adds a metric; what it
  returns is accepted by \<^verbatim>\<open>errorOnUnsorted\<close> when no timestamp is negative.
\<close>

theorem SortMetrics_sorts:
  assumes "sort_contract metric_less srt"
    and "\<forall>m \<in> set (somes (f_Metric f)). \<exists>t. m_TimestampMs m = Some t \<and> 0 \<le> t"
  shows "\<exists>ms. SortMetrics srt (Some f) = Ret (Some (f\<lparr>f_Metric := ms\<rparr>), True, None) \<and>
    mset ms = mset (f_Metric f) \<and> sorted_by metric_less ms \<and>
    (\<exists>t'. errorOnUnsorted_Transform (NewErrorOnUnsorted True) (Some (f\<lparr>f_Metric := ms\<rparr>)) =
       Ret (t', Some (f\<lparr>f_Metric := ms\<rparr>), True, None))"
proof -
  let ?ms = "srt (f_Metric f)"
  note sorted = by_timestamp.sort_contract_sorted [OF assms(1), of "f_Metric f"]
  note perm = by_timestamp.sort_contract_mset [OF assms(1), of "f_Metric f"]
  have stamped: "\<forall>m \<in> set (somes ?ms). \<exists>t. m_TimestampMs m = Some t \<and> 0 \<le> t"
    using assms(2) mset_eq_setD [OF perm] by (simp add: set_somes)
  have "sorted_wrt (\<lambda>a b. sample_ts a \<le> sample_ts b) (somes ?ms)"
    using sorted_somes_timestamps [OF sorted] stamped by blast
  with stamped have "in_order_from 0 (somes ?ms)"
    by (auto simp: in_order_from_def sorted_map sample_ts_def)
  then have "snd (unsorted_loop True 0 ?ms) = None" using stamped by (auto simp: unsorted_loop_None)
  with sorted perm show ?thesis
    by (auto simp: SortMetrics_def errorOnUnsorted_Transform_def NewErrorOnUnsorted_def case_prod_unfold Let_def)
qed

theorem SortMetrics_sorts_witness:
  "\<exists>ms. SortMetrics (insertion_sort metric_less)
      (Some (counter_family ''up'' [Some (counter_metric [] (Some 5)), None, Some (counter_metric [] (Some 2))])) =
      Ret (Some (counter_family ''up'' ms), True, None) \<and>
    ms = [None, Some (counter_metric [] (Some 2)), Some (counter_metric [] (Some 5))] \<and> sorted_by metric_less ms"
proof -
  let ?f = "counter_family ''up'' [Some (counter_metric [] (Some 5)), None, Some (counter_metric [] (Some 2))]"
  have "\<forall>m \<in> set (somes (f_Metric ?f)). \<exists>t. m_TimestampMs m = Some t \<and> 0 \<le> t"
    by (simp add: example_defs)
  from SortMetrics_sorts [OF by_timestamp.insertion_sort_contract this] obtain ms where
    ms: "SortMetrics (insertion_sort metric_less) (Some ?f) = Ret (Some (?f\<lparr>f_Metric := ms\<rparr>), True, None)"
    "sorted_by metric_less ms" by blast
  moreover from ms(1) have "ms = [None, Some (counter_metric [] (Some 2)), Some (counter_metric [] (Some 5))]"
    by (simp add: SortMetrics_def example_defs metric_less_def)
  ultimately show ?thesis by (auto simp: counter_family_def)
qed

text \<open>
  C27: given families that are packed and sorted (the documented precondition),
  \<^verbatim>\<open>MergeSortedWithTimestamps\<close> does not panic, returns only packed, sorted families, and
  keeps every sample under its family name exactly once.
\<close>

theorem MergeSorted_keeps_samples:
  assumes "\<forall>f \<in> set fs. packed_family f"
  shows "\<exists>out. MergeSortedWithTimestamps fs = Ret out \<and> list_all packed_family out \<and>
    mset (named_samples out) = mset (named_samples fs)"
proof -
  have "merge_inv [] None" by (simp add: merge_inv_def)
  from merge_loop_correct [OF this assms] obtain out where
    out: "merge_loop [] None fs = Ret out" "\<forall>f \<in> set out. f = None \<or> packed_family f"
    "mset (named_samples out) = mset (named_samples fs)" by auto
  have "list_all packed_family (Pack out)"
    using out(2) by (auto simp: list_all_iff Pack_filter empty_family_def)
  with out show ?thesis by (auto simp: MergeSortedWithTimestamps_def named_samples_Pack)
qed

theorem MergeSorted_keeps_samples_witness:
  "\<exists>out. MergeSortedWithTimestamps
      [Some (counter_family ''a'' [Some (counter_metric [] (Some 1)), Some (counter_metric [] (Some 4))]),
       Some (counter_family ''a'' [Some (counter_metric [] (Some 3))])] = Ret out \<and>
    mset (named_samples out) =
      {#(''a'', counter_metric [] (Some 1)), (''a'', counter_metric [] (Some 4)), (''a'', counter_metric [] (Some 3))#}"
proof -
  let ?fs = "[Some (counter_family ''a'' [Some (counter_metric [] (Some 1)), Some (counter_metric [] (Some 4))]),
       Some (counter_family ''a'' [Some (counter_metric [] (Some 3))])]"
  have "\<forall>f \<in> set ?fs. packed_family f"
    by (simp add: packed_family_def dense_sorted_def example_defs)
  from MergeSorted_keeps_samples [OF this] show ?thesis by (auto simp: counter_family_def)
qed

text \<open>
  adjacent families of one name are merged into one only while they form the first group
  met since the last change of name: after a change of name the new family is not remembered as
  the target, so of three families \<open>a\<close>, \<open>b\<close>, \<open>b\<close> the two \<open>b\<close> stay
  apart, whereas \<open>a\<close>, \<open>a\<close> become one.
\<close>

theorem MergeSorted_misses_second_group:
  "MergeSortedWithTimestamps
     [Some (counter_family ''a'' [Some (counter_metric [] (Some 1))]),
      Some (counter_family ''b'' [Some (counter_metric [] (Some 1))]),
      Some (counter_family ''b'' [Some (counter_metric [] (Some 2))])] =
   Ret [Some (counter_family ''a'' [Some (counter_metric [] (Some 1))]),
        Some (counter_family ''b'' [Some (counter_metric [] (Some 1))]),
        Some (counter_family ''b'' [Some (counter_metric [] (Some 2))])] \<and>
   MergeSortedWithTimestamps
     [Some (counter_family ''a'' [Some (counter_metric [] (Some 1))]),
      Some (counter_family ''a'' [Some (counter_metric [] (Some 2))])] =
   Ret [Some (counter_family ''a'' [Some (counter_metric [] (Some 1)), Some (counter_metric [] (Some 2))])]"
  by (simp add: MergeSortedWithTimestamps_def Pack_filter empty_family_def counter_family_def counter_metric_def
      merge_pair_def ts_ptr_def index_def)

end
