(* ===== verification/Anonymize.thy ===== *)
theory Anonymize
  imports Client_Model
begin

text \<open>
  \<^verbatim>\<open>pkg/metricfamily/anonymize.go\<close>: hashing label values.  \<^verbatim>\<open>sha256.Sum256\<close> is an
  argument (a function from the input to its digest); the base64 encoding of the digest is
  modelled.  The transformer writes through the pointers of a metric's labels, and label
  pairs can be shared between metrics (\<^verbatim>\<open>appendLabels\<close> in \<^verbatim>\<open>label.go\<close>
  stores the same pointer in every metric), so besides the definition on label values there
  is one on an explicit store, and a lemma that says when the two agree.
\<close>

section \<open>base64.RawURLEncoding\<close>

definition b64_alphabet :: string where
  "b64_alphabet = ''ABCDEFGHIJKLMNOPQRSTUVWXYZabcdefghijklmnopqrstuvwxyz0123456789-_''"

definition b64_char :: "nat \<Rightarrow> char" where
  "b64_char n = b64_alphabet ! (n mod 64)"

fun b64_encode :: "8 word list \<Rightarrow> string" where
  "b64_encode (a # b # c # rest) =
     (let v = unat a * 65536 + unat b * 256 + unat c
      in b64_char (v div 262144) # b64_char (v div 4096) # b64_char (v div 64) # b64_char v
         # b64_encode rest)"
| "b64_encode [a, b] =
     (let v = unat a * 65536 + unat b * 256
      in [b64_char (v div 262144), b64_char (v div 4096), b64_char (v div 64)])"
| "b64_encode [a] =
     (let v = unat a * 65536 in [b64_char (v div 262144), b64_char (v div 4096)])"
| "b64_encode [] = []"

definition secureValueHash :: "(string \<Rightarrow> 8 word list) \<Rightarrow> string \<Rightarrow> string \<Rightarrow> string" where
  "secureValueHash sum256 salt v = b64_encode (take 9 (sum256 (salt @ v)))"

section \<open>The transformer on label values\<close>

record anonymizer =
  a_salt :: string
  a_global :: "string set"
  a_byMetric :: "string \<rightharpoonup> string set"

definition NewMetricsAnonymizer ::
  "string \<Rightarrow> string list \<Rightarrow> (string \<rightharpoonup> string list) \<Rightarrow> anonymizer" where
  "NewMetricsAnonymizer salt labels metricsLabels =
     \<lparr>a_salt = salt, a_global = set labels, a_byMetric = (\<lambda>n. map_option set (metricsLabels n))\<rparr>"

text \<open>One label pair: the first set that names it has its value replaced by the hash.\<close>

fun anon_in_sets :: "(string \<Rightarrow> string) \<Rightarrow> string \<Rightarrow> string set list \<Rightarrow> label_pair \<Rightarrow> label_pair" where
  "anon_in_sets hash name [] p = p"
| "anon_in_sets hash name (S # sets) p =
     (if name \<notin> S then anon_in_sets hash name sets p
      else p\<lparr>lp_Value := Some (hash (GetValue (Some p)))\<rparr>)"

definition anon_pair :: "(string \<Rightarrow> string) \<Rightarrow> string set list \<Rightarrow> label_pair \<Rightarrow> label_pair" where
  "anon_pair hash sets p =
     (case lp_Value p of
        None \<Rightarrow> p
      | Some v \<Rightarrow> if v = [] then p else anon_in_sets hash (GetName (Some p)) sets p)"

fun anon_labels ::
  "(string \<Rightarrow> string) \<Rightarrow> string set list \<Rightarrow> label_pair option list \<Rightarrow> label_pair option list go" where
  "anon_labels hash sets [] = Ret []"
| "anon_labels hash sets (l # ls) =
     go_bind (deref l) (\<lambda>p.
       go_bind (anon_labels hash sets ls) (\<lambda>out. Ret (Some (anon_pair hash sets p) # out)))"

fun transformMetricLabelValues ::
  "(string \<Rightarrow> string) \<Rightarrow> string set list \<Rightarrow> metric option list \<Rightarrow> metric option list go" where
  "transformMetricLabelValues hash sets [] = Ret []"
| "transformMetricLabelValues hash sets (None # ms) =
     go_bind (transformMetricLabelValues hash sets ms) (\<lambda>out. Ret (None # out))"
| "transformMetricLabelValues hash sets (Some m # ms) =
     go_bind (anon_labels hash sets (m_Label m)) (\<lambda>ls.
       go_bind (transformMetricLabelValues hash sets ms) (\<lambda>out.
         Ret (Some (m\<lparr>m_Label := ls\<rparr>) # out)))"

definition AnonymizeMetrics_Transform ::
  "(string \<Rightarrow> 8 word list) \<Rightarrow> anonymizer \<Rightarrow> family option \<Rightarrow> tres go" where
  "AnonymizeMetrics_Transform sum256 a family =
     (case family of
        None \<Rightarrow> Ret (None, False, None)
      | Some f \<Rightarrow>
          (let hash = secureValueHash sum256 (a_salt a);
               sets = (case a_byMetric a (family_GetName family) of
                         Some S \<Rightarrow> [a_global a, S]
                       | None \<Rightarrow> [a_global a])
           in go_bind (transformMetricLabelValues hash sets (f_Metric f)) (\<lambda>ms.
                Ret (Some (f\<lparr>f_Metric := ms\<rparr>), True, None))))"

section \<open>The same loop on an explicit store\<close>

text \<open>
  A label pointer is an address (or nil), a store maps addresses to label pairs, and a
  metric is the slice of its label pointers.  \<open>h_appendLabels\<close> is
  \<^verbatim>\<open>appendLabels\<close> of \<^verbatim>\<open>label.go\<close> and \<open>h_transform\<close> is
  \<^verbatim>\<open>transformMetricLabelValues\<close>, both on pointers.
\<close>

type_synonym addr = nat
type_synonym store = "addr \<Rightarrow> label_pair"

definition h_name :: "store \<Rightarrow> addr option \<Rightarrow> string" where
  "h_name st p = GetName (map_option st p)"

definition h_appendLabels ::
  "store \<Rightarrow> addr option list \<Rightarrow> (string \<times> addr) list \<Rightarrow> addr option list" where
  "h_appendLabels st existing overrides =
     map (\<lambda>p. case map_of overrides (h_name st p) of Some v \<Rightarrow> Some v | None \<Rightarrow> p) existing @
     map (\<lambda>(k, v). Some v) (filter (\<lambda>(k, v). k \<notin> h_name st ` set existing) overrides)"

fun h_labels ::
  "(string \<Rightarrow> string) \<Rightarrow> string set list \<Rightarrow> store \<Rightarrow> addr option list \<Rightarrow> store go" where
  "h_labels hash sets st [] = Ret st"
| "h_labels hash sets st (p # ps) =
     go_bind (deref p) (\<lambda>a. h_labels hash sets (st(a := anon_pair hash sets (st a))) ps)"

fun h_transform ::
  "(string \<Rightarrow> string) \<Rightarrow> string set list \<Rightarrow> store \<Rightarrow> addr option list option list \<Rightarrow> store go" where
  "h_transform hash sets st [] = Ret st"
| "h_transform hash sets st (None # ms) = h_transform hash sets st ms"
| "h_transform hash sets st (Some ps # ms) =
     go_bind (h_labels hash sets st ps) (\<lambda>st'. h_transform hash sets st' ms)"

section \<open>Decoding, for the round trip\<close>

fun b64_digit_of :: "string \<Rightarrow> char \<Rightarrow> nat" where
  "b64_digit_of [] c = 0"
| "b64_digit_of (x # xs) c = (if x = c then 0 else Suc (b64_digit_of xs c))"

fun b64_decode :: "string \<Rightarrow> 8 word list" where
  "b64_decode (p # q # r # s # rest) =
     (let v = b64_digit_of b64_alphabet p * 262144 + b64_digit_of b64_alphabet q * 4096
              + b64_digit_of b64_alphabet r * 64 + b64_digit_of b64_alphabet s
      in of_nat (v div 65536) # of_nat (v div 256) # of_nat v # b64_decode rest)"
| "b64_decode [p, q, r] =
     (let v = b64_digit_of b64_alphabet p * 262144 + b64_digit_of b64_alphabet q * 4096
              + b64_digit_of b64_alphabet r * 64
      in [of_nat (v div 65536), of_nat (v div 256)])"
| "b64_decode [p, q] =
     (let v = b64_digit_of b64_alphabet p * 262144 + b64_digit_of b64_alphabet q * 4096
      in [of_nat (v div 65536)])"
| "b64_decode _ = []"

definition sextets_of :: "nat \<Rightarrow> nat" where
  "sextets_of v = (v div 262144) mod 64 * 262144 + (v div 4096) mod 64 * 4096 + (v div 64) mod 64 * 64"

text \<open>The label pointers a family's metrics hold, in the order the loop visits them.\<close>

definition visited :: "addr option list option list \<Rightarrow> addr list" where
  "visited ms = concat (map somes (somes ms))"

section \<open>Lemmas\<close>

subsection \<open>base64\<close>

lemma b64_alphabet_length: "length b64_alphabet = 64"
  by (simp add: b64_alphabet_def)

lemma b64_alphabet_distinct: "distinct b64_alphabet"
  by (simp add: b64_alphabet_def)

lemma b64_digit_of_nth: "distinct al \<Longrightarrow> i < length al \<Longrightarrow> b64_digit_of al (al ! i) = i"
proof (induction al arbitrary: i)
  case (Cons x al)
  then show ?case by (cases i) auto
qed simp

lemma b64_digit_char [simp]: "b64_digit_of b64_alphabet (b64_char n) = n mod 64"
  using b64_digit_of_nth [OF b64_alphabet_distinct, of "n mod 64"]
  by (simp add: b64_char_def b64_alphabet_length)

lemma b64_char_mem: "b64_char n \<in> set b64_alphabet"
  by (simp add: b64_char_def b64_alphabet_length)

lemma unat_byte_less: "unat (a :: 8 word) < 256"
  using unsigned_less [of a] by simp

lemma byte_of_nat: "n mod 256 = unat (a :: 8 word) \<Longrightarrow> (of_nat n :: 8 word) = a"
  by (simp add: word_unat_eq_iff unat_of_nat)

lemma last_byte: "c < 256 \<Longrightarrow> (x * 256 + c) div 256 = x \<and> (x * 256 + c) mod 256 = (c::nat)"
  by simp

lemma three_bytes:
  fixes a b c :: nat
  assumes "a < 256" "b < 256" "c < 256"
  shows "(a * 65536 + b * 256 + c) div 65536 mod 256 = a"
    and "(a * 65536 + b * 256 + c) div 256 mod 256 = b"
    and "(a * 65536 + b * 256 + c) mod 256 = c"
proof -
  have v: "a * 65536 + b * 256 + c = (a * 256 + b) * 256 + c" by simp
  show "(a * 65536 + b * 256 + c) div 65536 mod 256 = a" using assms by auto
  show "(a * 65536 + b * 256 + c) mod 256 = c"
    unfolding v by (rule last_byte [OF assms(3), THEN conjunct2])
  have "(a * 65536 + b * 256 + c) div 256 = a * 256 + b"
    unfolding v by (rule last_byte [OF assms(3), THEN conjunct1])
  then show "(a * 65536 + b * 256 + c) div 256 mod 256 = b"
    by (simp only: last_byte [OF assms(2)])
qed

lemma sextets:
  fixes v :: nat
  assumes "v < 16777216"
  shows "(v div 262144) mod 64 * 262144 + (v div 4096) mod 64 * 4096 + (v div 64) mod 64 * 64 + v mod 64 = v"
proof -
  have "v div 64 div 64 = v div 4096" and "v div 4096 div 64 = v div 262144"
    by (simp_all flip: div_mult2_eq)
  moreover have "v div 262144 mod 64 = v div 262144" using assms by auto
  moreover define p q r where "p = v div 64" and "q = v div 4096" and "r = v div 262144"
  ultimately have "v = p * 64 + v mod 64" and "p = q * 64 + p mod 64" and "q = r * 64 + q mod 64"
    and "r mod 64 = r"
    using div_mult_mod_eq [of v 64] div_mult_mod_eq [of p 64] div_mult_mod_eq [of q 64] by simp_all
  then have "r mod 64 * 262144 + q mod 64 * 4096 + p mod 64 * 64 + v mod 64 = v" by linarith
  then show ?thesis unfolding p_def q_def r_def .
qed

lemma b64_roundtrip: "b64_decode (b64_encode bs) = bs"
proof (induction bs rule: b64_encode.induct)
  case (1 a b c rest)
  define v where "v = unat a * 65536 + unat b * 256 + unat c"
  have lt: "unat a < 256" "unat b < 256" "unat c < 256" by (simp_all add: unat_byte_less)
  then have "v < 16777216" unfolding v_def by linarith
  then have sx: "sextets_of v + v mod 64 = v" unfolding sextets_of_def by (rule sextets)
  have "b64_decode (b64_encode (a # b # c # rest)) =
      (let u = sextets_of v + v mod 64
       in of_nat (u div 65536) # of_nat (u div 256) # of_nat u # b64_decode (b64_encode rest))"
    by (simp only: b64_encode.simps b64_decode.simps Let_def b64_digit_char v_def sextets_of_def)
  then show ?case
    using 1 sx three_bytes [OF lt] by (simp only: Let_def byte_of_nat v_def)
next
  case (2 a b)
  define v where "v = unat a * 65536 + unat b * 256"
  have lt: "unat a < 256" "unat b < 256" by (simp_all add: unat_byte_less)
  then have "v < 16777216" unfolding v_def by linarith
  moreover have "v = (unat a * 1024 + unat b * 4) * 64" unfolding v_def by simp
  then have "v mod 64 = 0" by (metis mod_mult_self2_is_0)
  ultimately have sx: "sextets_of v = v" using sextets [of v] unfolding sextets_of_def by linarith
  have "b64_decode (b64_encode [a, b]) =
      (let u = sextets_of v in [of_nat (u div 65536), of_nat (u div 256)])"
    by (simp only: b64_encode.simps b64_decode.simps Let_def b64_digit_char v_def sextets_of_def)
  then show ?case
    using sx three_bytes [OF lt, of 0] by (simp only: Let_def byte_of_nat v_def add_0_right)
next
  case (3 a)
  define v where "v = unat a * 65536"
  have lt: "unat a < 256" by (simp add: unat_byte_less)
  then have "v < 16777216" unfolding v_def by linarith
  moreover have "v = (unat a * 1024) * 64" and "v div 64 = (unat a * 16) * 64" unfolding v_def by simp_all
  then have "v mod 64 = 0" and "v div 64 mod 64 = 0" by (metis mod_mult_self2_is_0)+
  ultimately have sx: "(v div 262144) mod 64 * 262144 + (v div 4096) mod 64 * 4096 = v"
    using sextets [of v] by linarith
  have "b64_decode (b64_encode [a]) =
      (let u = (v div 262144) mod 64 * 262144 + (v div 4096) mod 64 * 4096 in [of_nat (u div 65536)])"
    by (simp only: b64_encode.simps b64_decode.simps Let_def b64_digit_char v_def)
  then show ?case
    using sx three_bytes(1) [OF lt, of 0 0]
    by (simp only: Let_def byte_of_nat v_def add_0_right mult_0 zero_less_numeral)
qed simp

lemma length_b64_encode: "length (b64_encode bs) = (4 * length bs + 2) div 3"
  by (induction bs rule: b64_encode.induct) (auto simp: Let_def)

lemma set_b64_encode: "set (b64_encode bs) \<subseteq> set b64_alphabet"
  by (induction bs rule: b64_encode.induct) (auto simp: Let_def b64_char_mem)

subsection \<open>Hashing label values\<close>

lemma anon_in_sets_eq:
  "anon_in_sets hash name sets p =
     (if \<exists>S \<in> set sets. name \<in> S then p\<lparr>lp_Value := Some (hash (GetValue (Some p)))\<rparr> else p)"
  by (induction sets) auto

lemma anon_pair_name [simp]: "lp_Name (anon_pair hash sets p) = lp_Name p"
  by (simp add: anon_pair_def anon_in_sets_eq split: option.split)

lemma anon_labels_Ret:
  "anon_labels hash sets ls = Ret out \<longleftrightarrow>
     None \<notin> set ls \<and> out = map (map_option (anon_pair hash sets)) ls"
proof (induction ls arbitrary: out)
  case (Cons l ls)
  then show ?case by (cases l) auto
qed auto

lemma transformMetricLabelValues_Ret:
  "transformMetricLabelValues hash sets ms = Ret out \<longleftrightarrow>
     (\<forall>m \<in> set (somes ms). None \<notin> set (m_Label m)) \<and>
     out = map (map_option (\<lambda>m. m\<lparr>m_Label := map (map_option (anon_pair hash sets)) (m_Label m)\<rparr>)) ms"
  by (induction hash sets ms arbitrary: out rule: transformMetricLabelValues.induct)
    (auto simp: anon_labels_Ret)

subsection \<open>Shared label pairs\<close>

text \<open>Every visit of a pair hashes it once more.\<close>

lemma h_labels_count:
  "h_labels hash sets st ps = Ret st' \<Longrightarrow>
     st' a = (anon_pair hash sets ^^ count_list (somes ps) a) (st a)"
proof (induction ps arbitrary: st)
  case (Cons p ps)
  then show ?case by (cases p) (auto simp: funpow_swap1)
qed simp

lemma h_labels_total: "None \<notin> set ps \<Longrightarrow> \<exists>st'. h_labels hash sets st ps = Ret st'"
proof (induction ps arbitrary: st)
  case (Cons p ps)
  then show ?case by (cases p) auto
qed simp

lemma h_transform_count:
  "h_transform hash sets st ms = Ret st' \<Longrightarrow>
     st' a = (anon_pair hash sets ^^ count_list (visited ms) a) (st a)"
proof (induction hash sets st ms rule: h_transform.induct)
  case (3 hash sets st ps ms)
  then obtain st1 where st1: "h_labels hash sets st ps = Ret st1"
    and rest: "h_transform hash sets st1 ms = Ret st'" by auto
  have "count_list (visited (Some ps # ms)) a = count_list (visited ms) a + count_list (somes ps) a"
    by (simp add: visited_def)
  with "3.IH" [OF st1 rest] h_labels_count [OF st1, of a] show ?case by (simp add: funpow_add)
qed (auto simp: visited_def)

lemma h_transform_total:
  "\<forall>ps \<in> set (somes ms). None \<notin> set ps \<Longrightarrow> \<exists>st'. h_transform hash sets st ms = Ret st'"
proof (induction hash sets st ms rule: h_transform.induct)
  case (3 hash sets st ps ms)
  then obtain st1 where st1: "h_labels hash sets st ps = Ret st1"
    using h_labels_total [of ps hash sets st] by auto
  with 3 show ?case by (simp del: go_bind_eq_Ret)
qed auto

section \<open>Properties\<close>

text \<open>
  a hashed value is the URL-safe base64 text of the first nine bytes of the digest: twelve
  characters of the alphabet, from which those nine bytes can be read back, so two values hash
  alike exactly when the digests agree on them.
\<close>

theorem secureValueHash_text:
  assumes "length (sum256 (salt @ v)) = 32"
  shows "length (secureValueHash sum256 salt v) = 12 \<and>
    set (secureValueHash sum256 salt v) \<subseteq> set b64_alphabet \<and>
    b64_decode (secureValueHash sum256 salt v) = take 9 (sum256 (salt @ v))"
  using assms by (simp add: secureValueHash_def length_b64_encode set_b64_encode b64_roundtrip)

theorem secureValueHash_text_witness:
  "b64_decode (secureValueHash (\<lambda>s. replicate 32 7) ''salt'' ''v'') = replicate 9 7"
  using secureValueHash_text [of "\<lambda>s. replicate 32 7" "''salt''" "''v''"] by simp

text \<open>
  C33: on metrics that do not share label pairs, anonymizing hashes the value of exactly the
  labels named globally or for this metric, if it is set and not empty; names, other labels and
  their order stay, and the transformer returns unless a label pointer is nil.
\<close>

theorem Anonymize_exact:
  "AnonymizeMetrics_Transform sum256 a (Some f) = Ret (f', ok, err) \<longleftrightarrow>
     list_all (\<lambda>m. None \<notin> set (m_Label m)) (somes (f_Metric f)) \<and> ok \<and> err = None \<and>
     f' = Some (f\<lparr>f_Metric := map (map_option (\<lambda>m. m\<lparr>m_Label := map (map_option (\<lambda>p.
       if GetValue (Some p) \<noteq> [] \<and> (GetName (Some p) \<in> a_global a \<or>
            (\<exists>S. a_byMetric a (family_GetName (Some f)) = Some S \<and> GetName (Some p) \<in> S))
       then p\<lparr>lp_Value := Some (secureValueHash sum256 (a_salt a) (GetValue (Some p)))\<rparr>
       else p)) (m_Label m)\<rparr>)) (f_Metric f)\<rparr>)"
proof -
  define sets where "sets = (case a_byMetric a (family_GetName (Some f)) of
    Some S \<Rightarrow> [a_global a, S] | None \<Rightarrow> [a_global a])"
  let ?h = "secureValueHash sum256 (a_salt a)"
  have pair: "anon_pair ?h sets p =
      (if GetValue (Some p) \<noteq> [] \<and> (GetName (Some p) \<in> a_global a \<or>
            (\<exists>S. a_byMetric a (family_GetName (Some f)) = Some S \<and> GetName (Some p) \<in> S))
       then p\<lparr>lp_Value := Some (?h (GetValue (Some p)))\<rparr> else p)" for p
    by (simp add: anon_pair_def anon_in_sets_eq sets_def GetValue_def split: option.split)
  have "AnonymizeMetrics_Transform sum256 a (Some f) =
      go_bind (transformMetricLabelValues ?h sets (f_Metric f)) (\<lambda>ms. Ret (Some (f\<lparr>f_Metric := ms\<rparr>), True, None))"
    by (simp add: AnonymizeMetrics_Transform_def sets_def Let_def del: family_GetName_simps)
  then show ?thesis
    by (auto simp: transformMetricLabelValues_Ret list_all_iff pair [abs_def] simp del: family_GetName_simps)
qed

text \<open>
  C34: on the pointers the program really holds, a label pair is hashed once for every time a
  metric of the family refers to it: pairs that are not shared are hashed as intended, a pair
  that \<^verbatim>\<open>label.go\<close> put into \<open>n\<close> metrics is hashed \<open>n\<close> times over.
\<close>

theorem shared_pairs_hashed_per_metric:
  assumes "h_transform hash sets st ms = Ret st'"
  shows "st' a = (anon_pair hash sets ^^ count_list (visited ms) a) (st a)"
  using assms by (rule h_transform_count)

theorem shared_pairs_hashed_per_metric_witness:
  "\<exists>st'. h_transform (\<lambda>v. CHR ''x'' # v) [{''_id''}] (\<lambda>_. mk_label ''_id'' ''c'') [Some [Some 0], Some [Some 0, Some 1]] =
      Ret st' \<and> st' 0 = mk_label ''_id'' ''xxc'' \<and> st' 1 = mk_label ''_id'' ''xc'' \<and> st' 2 = mk_label ''_id'' ''c''"
proof -
  let ?ms = "[Some [Some 0], Some [Some 0, Some 1]]" and ?st = "\<lambda>_. mk_label ''_id'' ''c''"
  have "\<forall>ps \<in> set (somes ?ms). None \<notin> set ps" by simp
  from h_transform_total [OF this] obtain st' where
    run: "h_transform (\<lambda>v. CHR ''x'' # v) [{''_id''}] ?st ?ms = Ret st'" by blast
  have "visited ?ms = [0, 0, 1]" by (simp add: visited_def)
  then have "st' 0 = mk_label ''_id'' ''xxc'' \<and> st' 1 = mk_label ''_id'' ''xc'' \<and> st' 2 = mk_label ''_id'' ''c''"
    using shared_pairs_hashed_per_metric [OF run, of 0] shared_pairs_hashed_per_metric [OF run, of 1]
      shared_pairs_hashed_per_metric [OF run, of 2]
    by (simp add: anon_pair_def mk_label_def GetName_def GetValue_def numeral_2_eq_2)
  with run show ?thesis by blast
qed

end
