(* ===== verification/Transformers.thy ===== *)
theory Transformers
  imports Pack Sample_Filters Validation Label_Transformer Whitelist Sort_Merge Anonymize
begin

text \<open>
  The \<^verbatim>\<open>Transformer\<close> interface (\<^verbatim>\<open>pkg/metricfamily/transform.go\<close>), its
  implementations gathered into one type, \<^verbatim>\<open>MultiTransformer\<close>
  (\<^verbatim>\<open>multi_transformer.go\<close>) and \<^verbatim>\<open>Filter\<close>.  The locale
  \<open>transformer_interface\<close> is what \<^verbatim>\<open>Filter\<close> may rely on; it is interpreted on
  the dispatcher over all the transformers of the package.
\<close>

section \<open>Dispatch\<close>

text \<open>The functions outside the repository that transformers call: sorting and SHA-256.\<close>

record env =
  e_sortMetrics :: "metric option list \<Rightarrow> metric option list"
  e_sum256 :: "string \<Rightarrow> 8 word list"

definition example_env :: env where
  "example_env = \<lparr>e_sortMetrics = insertion_sort metric_less, e_sum256 = (\<lambda>s. replicate 32 0)\<rparr>"

text \<open>
  One constructor per implementation, with its state.  \<open>T_OverwriteTimestamps\<close> is the
  function \<^verbatim>\<open>OverwriteTimestamps(now)\<close> returns.
\<close>

datatype basic =
    T_None
  | T_DropEmptyFamilies
  | T_DropTimestamp
  | T_PackMetrics
  | T_SortMetrics
  | T_OverwriteTimestamps
  | T_Count count_state
  | T_Rename "string \<rightharpoonup> string"
  | T_DropUnsorted int
  | T_DropExpired int
  | T_Elide "string set"
  | T_Whitelist "matcher list list"
  | T_RequireLabel "(string \<times> string) list"
  | T_ErrorOnUnsorted errorOnUnsorted
  | T_ErrorInvalid int
  | T_DropInvalid int
  | T_Label label_state
  | T_Anonymize anonymizer

definition stateless :: "world \<times> basic \<Rightarrow> tres go \<Rightarrow> ((world \<times> basic) \<times> tres) go" where
  "stateless s m = go_bind m (\<lambda>r. Ret (s, r))"

fun basic_Transform :: "env \<Rightarrow> world \<times> basic \<Rightarrow> family option \<Rightarrow> ((world \<times> basic) \<times> tres) go" where
  "basic_Transform e (w, T_None) f = stateless (w, T_None) (None_Transform f)"
| "basic_Transform e (w, T_DropEmptyFamilies) f =
     stateless (w, T_DropEmptyFamilies) (DropEmptyFamilies f)"
| "basic_Transform e (w, T_DropTimestamp) f = stateless (w, T_DropTimestamp) (DropTimestamp f)"
| "basic_Transform e (w, T_PackMetrics) f = stateless (w, T_PackMetrics) (PackMetrics f)"
| "basic_Transform e (w, T_SortMetrics) f =
     stateless (w, T_SortMetrics) (SortMetrics (e_sortMetrics e) f)"
| "basic_Transform e (w, T_OverwriteTimestamps) f =
     go_bind (OverwriteTimestamps w f) (\<lambda>(w', r). Ret ((w', T_OverwriteTimestamps), r))"
| "basic_Transform e (w, T_Count c) f =
     go_bind (Count_Transform c f) (\<lambda>(c', r). Ret ((w, T_Count c'), r))"
| "basic_Transform e (w, T_Rename n) f = stateless (w, T_Rename n) (RenameMetrics_Transform n f)"
| "basic_Transform e (w, T_DropUnsorted t) f =
     go_bind (DropUnsorted_Transform t f) (\<lambda>(t', r). Ret ((w, T_DropUnsorted t'), r))"
| "basic_Transform e (w, T_DropExpired mn) f =
     stateless (w, T_DropExpired mn) (dropExpiredSamples_Transform mn f)"
| "basic_Transform e (w, T_Elide S) f =
     go_bind (elide_Transform S w f) (\<lambda>(w', r). Ret ((w', T_Elide S), r))"
| "basic_Transform e (w, T_Whitelist t) f = stateless (w, T_Whitelist t) (whitelist_Transform t f)"
| "basic_Transform e (w, T_RequireLabel kvs) f =
     stateless (w, T_RequireLabel kvs) (requireLabel_Transform kvs f)"
| "basic_Transform e (w, T_ErrorOnUnsorted t) f =
     go_bind (errorOnUnsorted_Transform t f) (\<lambda>(t', r). Ret ((w, T_ErrorOnUnsorted t'), r))"
| "basic_Transform e (w, T_ErrorInvalid mn) f =
     stateless (w, T_ErrorInvalid mn) (errorInvalid_Transform mn f)"
| "basic_Transform e (w, T_DropInvalid mn) f =
     stateless (w, T_DropInvalid mn) (dropInvalid_Transform mn f)"
| "basic_Transform e (w, T_Label t) f =
     go_bind (label_Transform t w f) (\<lambda>(w', t', r). Ret ((w', T_Label t'), r))"
| "basic_Transform e (w, T_Anonymize a) f =
     stateless (w, T_Anonymize a) (AnonymizeMetrics_Transform (e_sum256 e) a f)"

section \<open>MultiTransformer\<close>

text \<open>
  A \<^verbatim>\<open>MultiTransformer\<close> holds functions that build a fresh transformer for every call
  and transformers that live as long as it does.  The built ones run first; the chain stops at
  the first error and at the first refusal.
\<close>

type_synonym builder = "world \<Rightarrow> basic \<times> world"

datatype transformer = Basic basic | Multi "builder list" "transformer list"

fun With :: "transformer option \<Rightarrow> transformer \<Rightarrow> transformer" where
  "With (Some t) (Multi bs ts) = Multi bs (ts @ [t])"
| "With _ a = a"

fun WithFunc :: "builder \<Rightarrow> transformer \<Rightarrow> transformer" where
  "WithFunc b (Multi bs ts) = Multi (bs @ [b]) ts"
| "WithFunc b a = a"

fun build :: "builder list \<Rightarrow> world \<Rightarrow> basic list \<times> world" where
  "build [] w = ([], w)"
| "build (b # bs) w = (let (t, w1) = b w; (ts, w2) = build bs w1 in (t # ts, w2))"

fun run_built :: "env \<Rightarrow> world \<Rightarrow> basic list \<Rightarrow> family option \<Rightarrow> (world \<times> tres) go" where
  "run_built e w [] f = Ret (w, f, True, None)"
| "run_built e w (b # bs) f =
     go_bind (basic_Transform e (w, b) f) (\<lambda>((w1, _), (f1, ok, err)).
       if err \<noteq> None then Ret (w1, f1, False, err)
       else if \<not> ok then Ret (w1, f1, False, None)
       else run_built e w1 bs f1)"

fun Transform :: "env \<Rightarrow> world \<Rightarrow> transformer \<Rightarrow> family option \<Rightarrow> ((world \<times> transformer) \<times> tres) go"
and Transform_all ::
  "env \<Rightarrow> world \<Rightarrow> transformer list \<Rightarrow> family option \<Rightarrow> ((world \<times> transformer list) \<times> tres) go" where
  "Transform e w (Basic b) f =
     go_bind (basic_Transform e (w, b) f) (\<lambda>((w', b'), r). Ret ((w', Basic b'), r))"
| "Transform e w (Multi bs ts) f =
     (let (fresh, w1) = build bs w
      in go_bind (run_built e w1 fresh f) (\<lambda>(w2, (f2, ok, err)).
           if err \<noteq> None \<or> \<not> ok then Ret ((w2, Multi bs ts), (f2, False, err))
           else go_bind (Transform_all e w2 ts f2) (\<lambda>((w3, ts'), r).
                  Ret ((w3, Multi bs ts'), r))))"
| "Transform_all e w [] f = Ret ((w, []), (f, True, None))"
| "Transform_all e w (t # ts) f =
     go_bind (Transform e w t f) (\<lambda>((w1, t1), (f1, ok, err)).
       if err \<noteq> None then Ret ((w1, t1 # ts), (f1, False, err))
       else if \<not> ok then Ret ((w1, t1 # ts), (f1, False, None))
       else go_bind (Transform_all e w1 ts f1) (\<lambda>((w2, ts'), r).
              Ret ((w2, t1 # ts'), r)))"

text \<open>The method value \<^verbatim>\<open>t.Transform\<close> over the state it changes.\<close>

definition transform_step ::
  "env \<Rightarrow> world \<times> transformer \<Rightarrow> family option \<Rightarrow> ((world \<times> transformer) \<times> tres) go" where
  "transform_step e s f = Transform e (fst s) (snd s) f"

section \<open>Filter and MetricsCount\<close>

fun Filter ::
  "('s \<Rightarrow> family option \<Rightarrow> ('s \<times> tres) go) \<Rightarrow> 's \<Rightarrow> family option list \<Rightarrow>
   ('s \<times> family option list \<times> terr option) go" where
  "Filter step s [] = Ret (s, [], None)"
| "Filter step s (f # fs) =
     go_bind (step s f) (\<lambda>(s1, (f1, ok, err)).
       if err \<noteq> None then Ret (s1, f1 # fs, err)
       else go_bind (Filter step s1 fs) (\<lambda>(s2, out, err2).
              Ret (s2, (if ok then f1 else None) # out, err2)))"

fun MetricsCount :: "family option list \<Rightarrow> nat" where
  "MetricsCount [] = 0"
| "MetricsCount (None # fs) = MetricsCount fs"
| "MetricsCount (Some f # fs) = length (f_Metric f) + MetricsCount fs"

section \<open>The interface\<close>

locale transformer_interface =
  fixes step :: "'s \<Rightarrow> family option \<Rightarrow> ('s \<times> tres) go" and inv :: "'s \<Rightarrow> bool"
  assumes inv_step: "inv s \<Longrightarrow> step s f = Ret (s', r) \<Longrightarrow> inv s'"
    and keeps_nil: "step s f = Ret (s', f', ok, err) \<Longrightarrow> f' = None \<longleftrightarrow> f = None"
    and err_not_ok: "step s f = Ret (s', f', ok, err) \<Longrightarrow> err \<noteq> None \<Longrightarrow> \<not> ok"
begin

lemma Filter_ConsE:
  assumes "Filter step s (f # fs) = Ret (s', out, err)"
  obtains (stop) f1 ok e where "step s f = Ret (s', f1, ok, Some e)" and "err = Some e" and "out = f1 # fs"
  | (go_on) s1 f1 ok out1 where "step s f = Ret (s1, f1, ok, None)"
      and "Filter step s1 fs = Ret (s', out1, err)" and "out = (if ok then f1 else None) # out1"
proof -
  from assms obtain s1 f1 ok err1 where st: "step s f = Ret (s1, f1, ok, err1)" by auto
  show ?thesis
  proof (cases err1)
    case None
    with assms st go_on show ?thesis by auto
  next
    case (Some e)
    with assms st stop show ?thesis by auto
  qed
qed

lemma Filter_length: "Filter step s fs = Ret (s', out, err) \<Longrightarrow> length out = length fs"
proof (induction fs arbitrary: s out)
  case (Cons f fs)
  from Cons.prems show ?case by (cases rule: Filter_ConsE) (auto dest: Cons.IH)
qed simp

lemma Filter_inv: "inv s \<Longrightarrow> Filter step s fs = Ret (s', out, err) \<Longrightarrow> inv s'"
proof (induction fs arbitrary: s out)
  case (Cons f fs)
  from Cons.prems(2) show ?case
    by (cases rule: Filter_ConsE) (use Cons.prems(1) Cons.IH inv_step in blast)+
qed simp

text \<open>
  Without an error, every entry was either accepted, and is what the transformer made of it,
  or is nil.
\<close>

lemma Filter_entries:
  assumes "inv s" and "Filter step s fs = Ret (s', out, None)"
  shows "list_all2 (\<lambda>f g. g = None \<or> (\<exists>s1 s2. inv s1 \<and> step s1 f = Ret (s2, g, True, None))) fs out"
  using assms
proof (induction fs arbitrary: s out)
  case (Cons f fs)
  from Cons.prems(2) obtain s1 f1 ok out1 where
    st: "step s f = Ret (s1, f1, ok, None)" and
    rest: "Filter step s1 fs = Ret (s', out1, None)" and
    out: "out = (if ok then f1 else None) # out1"
    by (cases rule: Filter_ConsE) auto
  have "inv s1" using inv_step [OF Cons.prems(1) st] .
  with Cons.IH [OF this rest] Cons.prems(1) st out show ?case by auto
qed simp

lemma Filter_establishes:
  assumes "inv s" and "Filter step s fs = Ret (s', out, None)" and "Some g \<in> set out"
    and "\<And>s1 s2 f. inv s1 \<Longrightarrow> Some f \<in> set fs \<Longrightarrow> step s1 (Some f) = Ret (s2, Some g, True, None) \<Longrightarrow> Q g"
  shows "Q g"
proof -
  from assms(3) obtain i where i: "i < length out" "out ! i = Some g" by (auto simp: in_set_conv_nth)
  from Filter_entries [OF assms(1,2)] i have len: "i < length fs"
    by (simp add: list_all2_lengthD)
  with list_all2_nthD [OF Filter_entries [OF assms(1,2)], of i] i obtain s1 s2 where
    st: "inv s1" "step s1 (fs ! i) = Ret (s2, Some g, True, None)" by auto
  then obtain f where f: "fs ! i = Some f" using keeps_nil [OF st(2)] by auto
  with len have "Some f \<in> set fs" by (metis nth_mem)
  with st f assms(4) show ?thesis by simp
qed

end

section \<open>The dispatcher implements the interface\<close>

fun basic_ok :: "basic \<Rightarrow> bool" where
  "basic_ok (T_Label t) = label_map_ok (ls_labels t)"
| "basic_ok _ = True"

fun transformer_ok :: "transformer \<Rightarrow> bool" where
  "transformer_ok (Basic b) = basic_ok b"
| "transformer_ok (Multi bs ts) = list_all transformer_ok ts"

text \<open>
  What of a transformer never changes: everything but the running state of the counting and
  sorting ones, as long as no label retriever is left.
\<close>

fun basic_fixed :: "basic \<Rightarrow> bool" where
  "basic_fixed (T_Label t) = (\<not> ls_retriever t)"
| "basic_fixed _ = True"

fun basic_skeleton :: "basic \<Rightarrow> basic" where
  "basic_skeleton (T_Count c) = T_Count \<lparr>cnt_families = 0, cnt_metrics = 0\<rparr>"
| "basic_skeleton (T_DropUnsorted t) = T_DropUnsorted 0"
| "basic_skeleton (T_ErrorOnUnsorted t) = T_ErrorOnUnsorted (t\<lparr>eu_timestamp := 0\<rparr>)"
| "basic_skeleton b = b"

fun fixed :: "transformer \<Rightarrow> bool" where
  "fixed (Basic b) = basic_fixed b"
| "fixed (Multi bs ts) = list_all fixed ts"

fun skeleton :: "transformer \<Rightarrow> transformer" where
  "skeleton (Basic b) = Basic (basic_skeleton b)"
| "skeleton (Multi bs ts) = Multi bs (map skeleton ts)"

lemmas small_transform_defs = stateless_def None_Transform_def DropEmptyFamilies_def
  DropTimestamp_def PackMetrics_def SortMetrics_def Count_Transform_def RenameMetrics_Transform_def
  DropUnsorted_Transform_def dropExpiredSamples_Transform_def elide_Transform_def
  OverwriteTimestamps_def whitelist_Transform_def requireLabel_Transform_def
  errorOnUnsorted_Transform_def AnonymizeMetrics_Transform_def Let_def

lemma basic_keeps_nil:
  "basic_Transform e s f = Ret (s', f', ok, err) \<Longrightarrow> f' = None \<longleftrightarrow> f = None"
  by (induction e s f rule: basic_Transform.induct)
    (auto simp: small_transform_defs errorInvalid_Transform_def dropInvalid_Transform_def
      label_Transform_def case_prod_unfold split: option.splits if_splits sum.splits)

lemma basic_err_not_ok:
  "basic_Transform e s f = Ret (s', f', ok, err) \<Longrightarrow> err \<noteq> None \<Longrightarrow> \<not> ok"
  by (induction e s f rule: basic_Transform.induct)
    (auto simp: small_transform_defs errorInvalid_Transform_def dropInvalid_Transform_def
      label_Transform_def case_prod_unfold split: option.splits if_splits sum.splits)

lemma basic_ok_step: "basic_Transform e (w, b) f = Ret ((w', b'), r) \<Longrightarrow> basic_ok b \<Longrightarrow> basic_ok b'"
  by (cases b) (auto simp: stateless_def dest: label_Transform_map_ok)

lemma run_built_laws:
  "run_built e w bs f = Ret (w', f', ok, err) \<Longrightarrow> (f' = None \<longleftrightarrow> f = None) \<and> (err \<noteq> None \<longrightarrow> \<not> ok)"
proof (induction bs arbitrary: w f)
  case (Cons b bs)
  from Cons.prems obtain s1 f1 ok1 err1 where b: "basic_Transform e (w, b) f = Ret (s1, f1, ok1, err1)"
    by auto
  from basic_keeps_nil [OF b] Cons b show ?case
    by (auto split: if_splits prod.splits)
qed simp

text \<open>The laws of the interface, for a transformer and for a chain of them.\<close>

lemma Transform_laws:
  "Transform e w t f = Ret ((w', t'), f', ok, err) \<Longrightarrow>
     (f' = None \<longleftrightarrow> f = None) \<and> (err \<noteq> None \<longrightarrow> \<not> ok) \<and> (transformer_ok t \<longrightarrow> transformer_ok t')"
  "Transform_all e w ts f = Ret ((w', ts'), f', ok, err) \<Longrightarrow>
     (f' = None \<longleftrightarrow> f = None) \<and> (err \<noteq> None \<longrightarrow> \<not> ok) \<and>
     (list_all transformer_ok ts \<longrightarrow> list_all transformer_ok ts')"
proof (induction e w t f and e w ts f arbitrary: w' t' f' ok err and w' ts' f' ok err
    rule: Transform_Transform_all.induct)
  case (1 e w b f)
  then obtain b' where b': "basic_Transform e (w, b) f = Ret ((w', b'), f', ok, err)" "t' = Basic b'"
    by auto
  with basic_keeps_nil [OF b'(1)] basic_err_not_ok [OF b'(1)] basic_ok_step [OF b'(1)] show ?case
    by auto
next
  case (2 e w bs ts f)
  obtain fresh w1 where fresh: "build bs w = (fresh, w1)" by force
  with "2.prems" obtain w2 f2 ok2 err2 where
    built: "run_built e w1 fresh f = Ret (w2, f2, ok2, err2)" by auto
  note laws = run_built_laws [OF built]
  show ?case
  proof (cases "err2 \<noteq> None \<or> \<not> ok2")
    case True
    with "2.prems" fresh built laws show ?thesis by auto
  next
    case False
    with "2.prems" fresh built obtain ts2 where
      all: "Transform_all e w2 ts f2 = Ret ((w', ts2), f', ok, err)" and "t' = Multi bs ts2"
      by auto
    with "2.IH" [OF fresh [symmetric] refl built refl refl refl _ all] False laws show ?thesis by auto
  qed
next
  case (3 e w f)
  then show ?case by auto
next
  case (4 e w t ts f)
  from "4.prems" obtain w1 t1 f1 ok1 err1 where
    t: "Transform e w t f = Ret ((w1, t1), f1, ok1, err1)" by auto
  note laws = "4.IH"(1) [OF t]
  show ?case
  proof (cases "err1 \<noteq> None \<or> \<not> ok1")
    case True
    with "4.prems" t laws show ?thesis by (auto split: if_splits)
  next
    case False
    with "4.prems" t obtain ts2 where
      all: "Transform_all e w1 ts f1 = Ret ((w', ts2), f', ok, err)" and "ts' = t1 # ts2"
      by auto
    with "4.IH"(2) [OF t refl refl _ _ all, of None True] False laws show ?thesis by auto
  qed
qed

lemma basic_fixed_step:
  "basic_Transform e (w, b) f = Ret ((w', b'), r) \<Longrightarrow> basic_fixed b \<Longrightarrow>
     basic_fixed b' \<and> basic_skeleton b' = basic_skeleton b"
  by (cases b) (auto simp: stateless_def errorOnUnsorted_Transform_def label_Transform_def Let_def
      case_prod_unfold)

lemma Transform_fixed:
  "Transform e w t f = Ret ((w', t'), r) \<Longrightarrow> fixed t \<Longrightarrow> fixed t' \<and> skeleton t' = skeleton t"
  "Transform_all e w ts f = Ret ((w', ts'), r) \<Longrightarrow> list_all fixed ts \<Longrightarrow>
     list_all fixed ts' \<and> map skeleton ts' = map skeleton ts"
proof (induction e w t f and e w ts f arbitrary: w' t' r and w' ts' r rule: Transform_Transform_all.induct)
  case (1 e w b f)
  then show ?case using basic_fixed_step by (cases r) fastforce
next
  case (2 e w bs ts f)
  obtain fresh w1 where fresh: "build bs w = (fresh, w1)" by force
  with "2.prems" obtain w2 f2 ok2 err2 where
    built: "run_built e w1 fresh f = Ret (w2, f2, ok2, err2)" by auto
  show ?case
  proof (cases "err2 \<noteq> None \<or> \<not> ok2")
    case True
    with "2.prems" fresh built show ?thesis by auto
  next
    case False
    with "2.prems" fresh built obtain ts2 where
      all: "Transform_all e w2 ts f2 = Ret ((w', ts2), r)" and "t' = Multi bs ts2"
      by auto
    with "2.IH" [OF fresh [symmetric] refl built refl refl refl _ all] False "2.prems"(2) show ?thesis
      by auto
  qed
next
  case (3 e w f)
  then show ?case by auto
next
  case (4 e w t ts f)
  from "4.prems" obtain w1 t1 f1 ok1 err1 where
    t: "Transform e w t f = Ret ((w1, t1), f1, ok1, err1)" by auto
  note t_fixed = "4.IH"(1) [OF t]
  show ?case
  proof (cases "err1 \<noteq> None \<or> \<not> ok1")
    case True
    with "4.prems" t t_fixed show ?thesis by (auto split: if_splits)
  next
    case False
    with "4.prems" t obtain ts2 where
      all: "Transform_all e w1 ts f1 = Ret ((w', ts2), r)" and "ts' = t1 # ts2"
      by auto
    with "4.IH"(2) [OF t refl refl _ _ all, of None True] False t_fixed "4.prems"(2) show ?thesis by auto
  qed
qed

interpretation dispatch: transformer_interface "transform_step e" "\<lambda>s. transformer_ok (snd s)" for e
proof unfold_locales
  fix s s' :: "world \<times> transformer" and f r
  assume "transformer_ok (snd s)" and "transform_step e s f = Ret (s', r)"
  then show "transformer_ok (snd s')"
    using Transform_laws(1) [of e "fst s" "snd s" f "fst s'" "snd s'" "fst r" "fst (snd r)" "snd (snd r)"]
    by (simp add: transform_step_def)
next
  fix s s' :: "world \<times> transformer" and f f' ok err
  assume st: "transform_step e s f = Ret (s', f', ok, err)"
  note laws = Transform_laws(1) [of e "fst s" "snd s" f "fst s'" "snd s'" f' ok err]
  show "f' = None \<longleftrightarrow> f = None" using st laws by (simp add: transform_step_def)
  show "err \<noteq> None \<Longrightarrow> \<not> ok" using st laws by (simp add: transform_step_def)
qed

subsection \<open>Chains that run to the end\<close>

lemma Transform_all_Nil_ok:
  "Transform_all e w [] f = Ret ((w', ts'), f', ok, err) \<longleftrightarrow> w' = w \<and> ts' = [] \<and> f' = f \<and> ok \<and> err = None"
  by auto

lemma Transform_all_Cons_ok:
  "Transform_all e w (t # ts) f = Ret ((w', ts'), f', True, None) \<longleftrightarrow>
     (\<exists>w1 t1 f1 ts1. Transform e w t f = Ret ((w1, t1), f1, True, None) \<and>
        Transform_all e w1 ts f1 = Ret ((w', ts1), f', True, None) \<and> ts' = t1 # ts1)"
proof (cases "Transform e w t f")
  case (Ret r)
  obtain w1 t1 f1 ok1 err1 where "r = ((w1, t1), f1, ok1, err1)" by (metis prod.exhaust)
  with Ret show ?thesis by auto
qed auto

lemma Transform_Multi_ok:
  "Transform e w (Multi [] ts) f = Ret ((w', t'), f', True, None) \<longleftrightarrow>
     (\<exists>ts'. Transform_all e w ts f = Ret ((w', ts'), f', True, None) \<and> t' = Multi [] ts')"
  by auto

lemma Transform_Basic_ok:
  "Transform e w (Basic b) f = Ret ((w', t'), r) \<longleftrightarrow>
     (\<exists>b'. basic_Transform e (w, b) f = Ret ((w', b'), r) \<and> t' = Basic b')"
  by (cases r) auto

lemmas chain_ok = Transform_all_Nil_ok Transform_all_Cons_ok Transform_Multi_ok Transform_Basic_ok

subsection \<open>What each transformer accepts, and what it makes of it\<close>

lemma whitelist_ok:
  "basic_Transform e (w, T_Whitelist t) (Some f) = Ret ((w', b'), f', True, err) \<longleftrightarrow>
     w' = w \<and> b' = T_Whitelist t \<and> err = None \<and>
     (\<exists>m \<in> set (somes (f_Metric f)). whitelisted t (family_GetName (Some f)) m) \<and>
     f' = Some (f\<lparr>f_Metric := map (\<lambda>m. case m of None \<Rightarrow> None
            | Some x \<Rightarrow> if whitelisted t (family_GetName (Some f)) x then m else None) (f_Metric f)\<rparr>)"
  by (auto simp: stateless_def whitelist_Transform_eq Let_def simp del: family_GetName_simps)

lemma elide_ok:
  "basic_Transform e (w, T_Elide S) (Some f) = Ret ((w', b'), f', True, err) \<longleftrightarrow>
     w' = w\<lparr>w_elideSkipped := w_elideSkipped w + count_list (f_Metric f) None\<rparr> \<and> b' = T_Elide S \<and> err = None \<and>
     f' = Some (f\<lparr>f_Metric := map (\<lambda>m. Some (m\<lparr>m_Label := filter (\<lambda>l. GetName l \<notin> S) (m_Label m)\<rparr>))
                (somes (f_Metric f))\<rparr>)"
  by (auto simp: elide_Transform_eq)

text \<open>A label transformer whose labels are fixed, that is, one with no retriever left.\<close>

lemma label_fixed_ok:
  "\<not> ls_retriever t \<Longrightarrow>
   basic_Transform e (w, T_Label t) (Some f) = Ret ((w', b'), f', True, err) \<longleftrightarrow>
     w' = w \<and> b' = T_Label t \<and> err = None \<and> None \<notin> set (f_Metric f) \<and>
     f' = Some (f\<lparr>f_Metric := map (map_option (\<lambda>m. m\<lparr>m_Label := appendLabels (m_Label m) (ls_labels t)\<rparr>))
                (f_Metric f)\<rparr>)"
  by (auto simp: label_Transform_def Let_def label_loop_Ret)

lemma require_ok:
  "basic_Transform e (w, T_RequireLabel kvs) (Some f) = Ret ((w', b'), f', True, err) \<longleftrightarrow>
     w' = w \<and> b' = T_RequireLabel kvs \<and> err = None \<and> f' = Some f \<and>
     (\<forall>(k, v) \<in> set kvs. \<forall>m \<in> set (somes (f_Metric f)). first_value k m = Some v)"
  by (auto simp: stateless_def requireLabel_Transform_def require_each_None [symmetric] split: option.splits)

lemma unsorted_ok:
  "basic_Transform e (w, T_ErrorOnUnsorted t) (Some f) = Ret ((w', b'), f', True, err) \<longleftrightarrow>
     w' = w \<and> (\<exists>t'. b' = T_ErrorOnUnsorted t' \<and>
       t' = t\<lparr>eu_timestamp := fst (unsorted_loop (eu_require t) 0 (f_Metric f))\<rparr>) \<and> err = None \<and> f' = Some f \<and>
     in_order_from 0 (somes (f_Metric f)) \<and>
     (eu_require t \<longrightarrow> (\<forall>m \<in> set (somes (f_Metric f)). m_TimestampMs m \<noteq> None))"
  using unsorted_loop_None [of "eu_require t" 0 "f_Metric f"]
  by (auto simp: errorOnUnsorted_Transform_def case_prod_unfold Let_def)

lemma empty_ok:
  "basic_Transform e (w, T_DropEmptyFamilies) (Some f) = Ret ((w', b'), f', True, err) \<longleftrightarrow>
     w' = w \<and> b' = T_DropEmptyFamilies \<and> err = None \<and> f' = Some f \<and> somes (f_Metric f) \<noteq> []"
  by (auto simp: stateless_def DropEmptyFamilies_def)

lemma invalid_ok:
  "basic_Transform e (w, T_ErrorInvalid mn) (Some f) = Ret ((w', b'), f', True, None) \<longleftrightarrow>
     w' = w \<and> b' = T_ErrorInvalid mn \<and> f' = Some f \<and> valid_family mn f"
  using errorInvalid_family_unchanged [of mn "Some f"]
  by (auto simp: stateless_def errorInvalid_accepts_iff [symmetric])

lemma overwrite_ok:
  assumes "basic_Transform e (w, T_OverwriteTimestamps) (Some f) = Ret ((w', b'), f', True, err)"
  shows "b' = T_OverwriteTimestamps \<and> err = None \<and> None \<notin> set (f_Metric f) \<and>
     f' = Some (f\<lparr>f_Metric := map (map_option (\<lambda>m. m\<lparr>m_TimestampMs :=
            Some (wrap64 (Unix (w_now w (w_ticks w)) * 1000))\<rparr>)) (f_Metric f)\<rparr>) \<and>
     drift_total w' = drift_total w + length (f_Metric f)"
  using assms
  by (auto simp: OverwriteTimestamps_def read_now_def Let_def drift_total_def dest!: overwrite_loop_Ret)

lemmas accept_ok = whitelist_ok elide_ok require_ok unsorted_ok empty_ok invalid_ok

section \<open>Properties\<close>

text \<open>
  \<^verbatim>\<open>Filter\<close> over any transformer of the package keeps the number of families; without
  an error each entry is nil or the family the transformer accepted there; and a transformer
  never turns a family into nil or a nil into a family, nor accepts one with an error.
\<close>

theorem Filter_entries_accepted:
  assumes "transformer_ok t" and "Filter (transform_step e) (w, t) fs = Ret (s', out, None)"
  shows "transformer_ok (snd s') \<and> length out = length fs \<and>
    list_all2 (\<lambda>f g. g = None \<or> (f \<noteq> None \<and> (\<exists>s1 s2. transformer_ok (snd s1) \<and>
       transform_step e s1 f = Ret (s2, g, True, None)))) fs out"
proof -
  have ok: "transformer_ok (snd (w, t))" using assms(1) by simp
  have "list_all2 (\<lambda>f g. g = None \<or> (\<exists>s1 s2. transformer_ok (snd s1) \<and>
      transform_step e s1 f = Ret (s2, g, True, None))) fs out"
    by (rule dispatch.Filter_entries [OF ok assms(2)])
  then have "list_all2 (\<lambda>f g. g = None \<or> (f \<noteq> None \<and> (\<exists>s1 s2. transformer_ok (snd s1) \<and>
       transform_step e s1 f = Ret (s2, g, True, None)))) fs out"
    by (rule list.rel_mono_strong) (use dispatch.keeps_nil in blast)
  with dispatch.Filter_inv [OF ok assms(2)] dispatch.Filter_length [OF assms(2)] show ?thesis by blast
qed

theorem Filter_entries_accepted_witness:
  "\<exists>s' out. Filter (transform_step example_env) (still_world 0, Multi [] [Basic T_DropEmptyFamilies])
      [Some (counter_family ''a'' []), Some (counter_family ''b'' [Some (counter_metric [] None)])] = Ret (s', out, None) \<and>
    length out = 2 \<and> transformer_ok (snd s')"
proof -
  have ok: "transformer_ok (Multi [] [Basic T_DropEmptyFamilies])" by simp
  have run: "Filter (transform_step e) (w, Multi [] [Basic T_DropEmptyFamilies])
      [Some (counter_family ''a'' []), Some (counter_family ''b'' [Some (counter_metric [] None)])] =
      Ret ((w, Multi [] [Basic T_DropEmptyFamilies]),
        [None, Some (counter_family ''b'' [Some (counter_metric [] None)])], None)" for e w
    by (simp add: transform_step_def stateless_def DropEmptyFamilies_def counter_family_def)
  from Filter_entries_accepted [OF ok run] show ?thesis unfolding run by auto
qed

text \<open>
  a chain of transformers accepts a family exactly when its members accept it one after the
  other, each on the result of the one before; the chain is then the composition of its halves.
\<close>

theorem chain_composes:
  "(Transform_all e w (ts @ us) f = Ret ((w', ts' @ us'), f', True, None) \<and> length ts' = length ts) \<longleftrightarrow>
   (\<exists>w1 f1. Transform e w (Multi [] ts) f = Ret ((w1, Multi [] ts'), f1, True, None) \<and>
      Transform e w1 (Multi [] us) f1 = Ret ((w', Multi [] us'), f', True, None))"
  unfolding Transform_Multi_ok
proof (induction ts arbitrary: w f ts')
  case Nil
  then show ?case by (auto simp: chain_ok)
next
  case (Cons t ts)
  show ?case
  proof (cases ts')
    case Nil
    then show ?thesis by (auto simp: chain_ok simp del: Transform_all.simps)
  next
    case (Cons t1 ts1)
    with Cons.IH show ?thesis
      by (simp add: Transform_all_Cons_ok del: Transform_all.simps Transform.simps) blast
  qed
qed

text \<open>
  C30: a nil metric, which the whitelist leaves behind for every metric it drops, makes a label
  transformer behind it panic: a server started with both \<^verbatim>\<open>--whitelist\<close> and
  \<^verbatim>\<open>--label\<close> panics on a family of which the whitelist drops some metrics but not all.
\<close>

theorem label_after_whitelist_panics:
  assumes "basic_Transform e (w, T_Whitelist t) (Some f) = Ret ((w1, b1), Some g, True, None)"
    and "\<not> whitelisted t (family_GetName (Some f)) m" and "Some m \<in> set (f_Metric f)"
  shows "Transform e w (Multi [] [Basic (T_Whitelist t), Basic (T_Label (NewLabel kvs False))]) (Some f) = Panic NilDeref"
proof -
  from assms(1) have g: "g = f\<lparr>f_Metric := map (\<lambda>m. case m of None \<Rightarrow> None
      | Some x \<Rightarrow> if whitelisted t (family_GetName (Some f)) x then m else None) (f_Metric f)\<rparr>"
    by (simp add: whitelist_ok del: basic_Transform.simps family_GetName_simps)
  with assms(2,3) have "None \<in> set (f_Metric g)" by (force simp del: family_GetName_simps)
  then have "label_Transform (NewLabel kvs False) w1 (Some g) = Panic NilDeref"
    by (simp add: label_Transform_def NewLabel_def label_loop_nil Let_def)
  with assms(1) show ?thesis by simp
qed

theorem label_after_whitelist_panics_witness:
  "Transform example_env (still_world 0) (Multi [] [Basic (T_Whitelist [[\<lparr>mt_Name = ''a'', mt_Matches = (\<lambda>v. v = ''b'')\<rparr>]]),
       Basic (T_Label (NewLabel [(''_id'', ''c1'')] False))])
     (Some (counter_family ''up'' [Some (counter_metric [(''a'', ''b'')] None), Some (counter_metric [] None)])) =
   Panic NilDeref"
proof (rule label_after_whitelist_panics)
  let ?f = "counter_family ''up'' [Some (counter_metric [(''a'', ''b'')] None), Some (counter_metric [] None)]"
  let ?t = "[[\<lparr>mt_Name = ''a'', mt_Matches = (\<lambda>v. v = ''b'')\<rparr>]]"
  show "basic_Transform example_env (still_world 0, T_Whitelist ?t) (Some ?f) = Ret ((still_world 0, T_Whitelist ?t),
      Some (counter_family ''up'' [Some (counter_metric [(''a'', ''b'')] None), None]), True, None)"
    by (simp add: stateless_def whitelist_Transform_def example_defs nameLabel_def GetName_def GetValue_def)
  show "\<not> whitelisted ?t (family_GetName (Some ?f)) (counter_metric [] None)"
    by (simp add: whitelisted_def satisfies_def counter_metric_def nameLabel_def)
  show "Some (counter_metric [] None) \<in> set (f_Metric ?f)" by (simp add: counter_family_def)
qed

end
