(* ===== verification/Rate_Limit.thy ===== *)
theory Rate_Limit
  imports Http_Model
begin

text \<open>
  \<^verbatim>\<open>pkg/server/ratelimited.go\<close>: one limiter per cluster, created at the cluster's
  first request.  The limiters come from \<^verbatim>\<open>golang.org/x/time/rate\<close> and are a
  parameter: \<open>newLimiter d\<close> is \<^verbatim>\<open>rate.NewLimiter(rate.Every(d), 1)\<close> and
  \<open>allowN l t\<close> is \<^verbatim>\<open>l.AllowN(t, 1)\<close> with the limiter's next state.
\<close>

section \<open>The store\<close>

type_synonym 'l ratelimitStore = "string \<rightharpoonup> 'l"

definition limit ::
  "(duration \<Rightarrow> 'l) \<Rightarrow> ('l \<Rightarrow> time \<Rightarrow> bool \<times> 'l) \<Rightarrow> 'l ratelimitStore \<Rightarrow> duration \<Rightarrow> time \<Rightarrow> string \<Rightarrow>
   'l ratelimitStore \<times> content option" where
  "limit newLimiter allowN s d now key =
     (let (limiter, s1) =
        (case s key of
           Some l \<Rightarrow> (l, s)
         | None \<Rightarrow> (let l = newLimiter d in (l, s(key \<mapsto> l))));
        (ok, limiter') = allowN limiter now;
        s2 = s1(key \<mapsto> limiter')
      in if \<not> ok then (s2, Some (WriteLimitReached key)) else (s2, None))"

text \<open>The middleware over the state of the store and of the handler it wraps.\<close>

definition Ratelimit ::
  "(duration \<Rightarrow> 'l) \<Rightarrow> ('l \<Rightarrow> time \<Rightarrow> bool \<times> 'l) \<Rightarrow> duration \<Rightarrow> ('s \<Rightarrow> time \<times> 's) \<Rightarrow>
   's handler \<Rightarrow> ('l ratelimitStore \<times> 's) handler" where
  "Ratelimit newLimiter allowN d now nxt = (\<lambda>(store, s) r.
     (case ClusterIDFromContext r of
        (clusterID, False) \<Rightarrow>
          Ret ((store, s), http_Error (Text ''failed to get cluster ID from request'')
                 StatusInternalServerError)
      | (clusterID, True) \<Rightarrow>
          (let (t, s1) = now s
           in (case limit newLimiter allowN store d t clusterID of
                 (store', Some err) \<Rightarrow> Ret ((store', s1), http_Error err StatusTooManyRequests)
               | (store', None) \<Rightarrow>
                   go_bind (nxt s1 r) (\<lambda>(s2, resp). Ret ((store', s2), resp))))))"

section \<open>Sequences of requests\<close>

text \<open>
  The verdicts of a sequence of calls, each a key with the time of the call, and the verdicts
  of a single limiter on a sequence of times.
\<close>

fun run_limit ::
  "(duration \<Rightarrow> 'l) \<Rightarrow> ('l \<Rightarrow> time \<Rightarrow> bool \<times> 'l) \<Rightarrow> duration \<Rightarrow> 'l ratelimitStore \<Rightarrow>
   (string \<times> time) list \<Rightarrow> (string \<times> time \<times> bool) list" where
  "run_limit newLimiter allowN d s [] = []"
| "run_limit newLimiter allowN d s ((k, t) # rs) =
     (let (s', err) = limit newLimiter allowN s d t k
      in (k, t, err = None) # run_limit newLimiter allowN d s' rs)"

fun run_limiter :: "('l \<Rightarrow> time \<Rightarrow> bool \<times> 'l) \<Rightarrow> 'l \<Rightarrow> time list \<Rightarrow> (time \<times> bool) list" where
  "run_limiter allowN l [] = []"
| "run_limiter allowN l (t # ts) = (let (ok, l') = allowN l t in (t, ok) # run_limiter allowN l' ts)"

definition verdicts_of :: "string \<Rightarrow> (string \<times> time \<times> bool) list \<Rightarrow> (time \<times> bool) list" where
  "verdicts_of k vs = map snd (filter (\<lambda>v. fst v = k) vs)"

definition accepted :: "(time \<times> bool) list \<Rightarrow> time list" where
  "accepted vs = map fst (filter snd vs)"

section \<open>A token bucket of one\<close>

text \<open>
  What the package documents of a limiter with a burst of one: its bucket starts full, an
  accepted call empties it, and it is full again one interval later; a refused call changes
  nothing.  Kept as the time of the last accepted call.
\<close>

definition bucket_new :: "duration \<Rightarrow> duration \<times> time option" where
  "bucket_new d = (d, None)"

definition bucket_allow :: "duration \<times> time option \<Rightarrow> time \<Rightarrow> bool \<times> (duration \<times> time option)" where
  "bucket_allow b t =
     (case b of (d, prev) \<Rightarrow>
        if (case prev of None \<Rightarrow> True | Some u \<Rightarrow> u + d \<le> t) then (True, (d, Some t))
        else (False, b))"

text \<open>The documented behaviour as a contract on any limiter.\<close>

definition burst_one :: "(duration \<Rightarrow> 'l) \<Rightarrow> ('l \<Rightarrow> time \<Rightarrow> bool \<times> 'l) \<Rightarrow> duration \<Rightarrow> bool" where
  "burst_one newLimiter allowN d \<longleftrightarrow>
     (\<forall>ts. sorted ts \<longrightarrow>
        run_limiter allowN (newLimiter d) ts = run_limiter bucket_allow (bucket_new d) ts)"

section \<open>Isolation\<close>

lemma run_limit_isolated:
  "verdicts_of k (run_limit newLimiter allowN d s rs) =
     run_limiter allowN (case s k of Some l \<Rightarrow> l | None \<Rightarrow> newLimiter d) (map snd (filter (\<lambda>r. fst r = k) rs))"
proof (induction rs arbitrary: s)
  case (Cons r rs)
  obtain k' t where r: "r = (k', t)" by force
  show ?case using Cons.IH
    by (cases "k' = k"; cases "s k'")
      (auto simp: r verdicts_of_def limit_def Let_def split: prod.splits option.splits)
qed (simp add: verdicts_of_def)

section \<open>Spacing\<close>

lemma bucket_spacing:
  "sorted_wrt (\<lambda>a b. a + d \<le> b) (accepted (run_limiter bucket_allow (d, prev) ts)) \<and>
   (\<forall>u. prev = Some u \<longrightarrow> (\<forall>t \<in> set (accepted (run_limiter bucket_allow (d, prev) ts)). u + d \<le> t))"
  if "0 \<le> d"
proof (induction ts arbitrary: prev)
  case (Cons t ts)
  show ?case
  proof (cases "case prev of None \<Rightarrow> True | Some u \<Rightarrow> u + d \<le> t")
    case True
    with Cons.IH [of "Some t"] that show ?thesis
      by (fastforce simp: bucket_allow_def accepted_def split: option.splits)
  next
    case False
    with Cons.IH [of prev] show ?thesis
      by (auto simp: bucket_allow_def accepted_def split: option.splits)
  qed
qed (simp add: accepted_def)

lemma bucket_first: "ts \<noteq> [] \<Longrightarrow> hd ts \<in> set (accepted (run_limiter bucket_allow (bucket_new d) ts))"
  by (cases ts) (auto simp: bucket_new_def bucket_allow_def accepted_def)

lemma sorted_filter_times: "sorted (map snd rs) \<Longrightarrow> sorted (map snd (filter P rs))"
  by (rule sorted_filter)

lemma burst_one_bucket: "burst_one bucket_new bucket_allow d"
  by (simp add: burst_one_def)

section \<open>Properties\<close>

text \<open>
  C24: clusters do not influence each other: in any sequence of requests of any clusters, the
  verdicts on one cluster's requests are those a fresh limiter of its own gives on the times of
  its own requests.
\<close>

theorem ratelimit_isolated:
  "verdicts_of k (run_limit newLimiter allowN d Map.empty rs) =
     run_limiter allowN (newLimiter d) (map snd (filter (\<lambda>r. fst r = k) rs))"
  using run_limit_isolated [of k newLimiter allowN d Map.empty rs] by simp

text \<open>
  C25: with limiters that behave as documented (a bucket of one token, refilled once per
  interval), requests in time order of a cluster are accepted at least one interval apart, and
  a cluster's first request is accepted, whatever the other clusters send.
\<close>

theorem ratelimit_spacing:
  assumes "burst_one newLimiter allowN d" and "0 \<le> d" and "sorted (map snd rs)"
  shows "sorted_wrt (\<lambda>a b. a + d \<le> b) (accepted (verdicts_of k (run_limit newLimiter allowN d Map.empty rs))) \<and>
    (filter (\<lambda>r. fst r = k) rs \<noteq> [] \<longrightarrow>
       snd (hd (filter (\<lambda>r. fst r = k) rs)) \<in> set (accepted (verdicts_of k (run_limit newLimiter allowN d Map.empty rs))))"
proof -
  let ?ts = "map snd (filter (\<lambda>r. fst r = k) rs)"
  have "sorted ?ts" using sorted_filter_times [OF assms(3)] .
  with assms(1) have "verdicts_of k (run_limit newLimiter allowN d Map.empty rs) =
      run_limiter bucket_allow (bucket_new d) ?ts"
    using run_limit_isolated [of k newLimiter allowN d Map.empty rs] by (simp add: burst_one_def)
  with bucket_spacing [OF assms(2), of None ?ts] bucket_first [of ?ts d] show ?thesis
    by (simp add: bucket_new_def hd_map)
qed

theorem ratelimit_spacing_witness:
  "accepted (verdicts_of ''a'' (run_limit bucket_new bucket_allow 10 Map.empty
     [(''a'', 0), (''b'', 1), (''a'', 5), (''b'', 12), (''a'', 13)])) = [0, 13] \<and>
   sorted_wrt (\<lambda>a b. a + 10 \<le> b) (accepted (verdicts_of ''a'' (run_limit bucket_new bucket_allow 10 Map.empty
     [(''a'', 0), (''b'', 1), (''a'', 5), (''b'', 12), (''a'', 13)])))"
proof -
  let ?rs = "[(''a'', 0), (''b'', 1), (''a'', 5), (''b'', 12), (''a'', 13)] :: (string \<times> time) list"
  have "sorted (map snd ?rs)" by simp
  from ratelimit_spacing [OF burst_one_bucket _ this, of 10 "''a''"]
  have "sorted_wrt (\<lambda>a b. a + 10 \<le> b) (accepted (verdicts_of ''a'' (run_limit bucket_new bucket_allow 10 Map.empty ?rs)))"
    by simp
  moreover have "accepted (verdicts_of ''a'' (run_limit bucket_new bucket_allow 10 Map.empty ?rs)) = [0, 13]"
    by (simp add: accepted_def verdicts_of_def limit_def bucket_new_def bucket_allow_def Let_def)
  ultimately show ?thesis by blast
qed

end
