(* ===== verification/Upload.thy ===== *)
theory Upload
  imports Http_Model Timeseries Transformers Rate_Limit
begin

text \<open>
  The v1 upload path of the server: the middlewares \<^verbatim>\<open>ClusterID\<close>, \<^verbatim>\<open>Snappy\<close>
  and \<^verbatim>\<open>Validate\<close> (\<^verbatim>\<open>pkg/server/validator.go\<close>, \<^verbatim>\<open>snappy.go\<close>) and
  \<^verbatim>\<open>ForwardHandler\<close> (\<^verbatim>\<open>pkg/server/forward.go\<close>), composed as
  \<^verbatim>\<open>cmd/telemeter-server/main.go\<close> does.
\<close>

section \<open>State and parameters\<close>

text \<open>
  The state the handlers share: the world of the transformers, the base transformers of the
  server (which keep their own state across requests), the upstream the requests are
  forwarded to, and the Prometheus metrics of \<^verbatim>\<open>forward.go\<close>.
\<close>

record 'u server =
  sv_world :: world
  sv_base :: "transformer option"
  sv_upstream :: 'u
  sv_forwardSamples :: nat
  sv_forwardRequests :: "string \<Rightarrow> nat"
  sv_forwardDuration :: "int list"
  sv_overwritten :: nat

text \<open>
  The code outside the repository.  \<open>x_decode header body\<close> is the loop over
  \<^verbatim>\<open>expfmt.NewDecoder\<close>: the families its calls deliver and the error that ends them
  unless it is \<^verbatim>\<open>io.EOF\<close>; \<open>x_encode\<close> is one \<^verbatim>\<open>Encode\<close>.  \<open>x_do\<close>
  sends URL, tenant header and payload upstream and yields an error or a status code.
\<close>

record 'u ext =
  x_env :: env
  x_room :: "nat \<Rightarrow> nat"
  x_decode :: "(string \<Rightarrow> string) \<Rightarrow> body \<Rightarrow> family list \<times> string option"
  x_encode :: "(string \<Rightarrow> string) \<Rightarrow> family \<Rightarrow> string + string"
  x_snappyReader :: "body \<Rightarrow> body"
  x_sortLabels :: label_sorter
  x_marshal :: "timeseries list \<Rightarrow> string + string"
  x_snappyEncode :: "string \<Rightarrow> string"
  x_newRequest :: "string \<Rightarrow> string option"
  x_do :: "'u \<Rightarrow> string \<times> string \<times> string \<Rightarrow> (string + int) \<times> 'u"

section \<open>ClusterID and Snappy\<close>

definition ClusterID :: "string \<Rightarrow> 's handler \<Rightarrow> 's handler" where
  "ClusterID key nxt = (\<lambda>s r.
     (case FromContext r of
        (_, False) \<Rightarrow> Ret (s, http_Error (Text ''unable to find user info'') StatusInternalServerError)
      | (client, True) \<Rightarrow>
          go_bind (deref client) (\<lambda>c.
            let clusterID = map_get (cl_Labels c) key
            in if length clusterID = 0
               then Ret (s, http_Error (Text (''user data must contain a '' @ [CHR 0x27] @ key @ [CHR 0x27] @ '' label''))
                       StatusInternalServerError)
               else nxt s (WithClusterID r clusterID))))"

definition Snappy :: "(body \<Rightarrow> body) \<Rightarrow> 's handler \<Rightarrow> 's handler" where
  "Snappy snappyReader nxt = (\<lambda>s r.
     if EqualFold (rq_header r ''Content-Encoding'') ''snappy''
     then nxt s (r\<lparr>rq_body := snappyReader (rq_body r)\<rparr>)
     else nxt s r)"

section \<open>Validate\<close>

text \<open>
  The transformers of one request.  \<^verbatim>\<open>now().Add(-maxAge)\<close> is read before the
  families are filtered.
\<close>

definition validate_transforms ::
  "duration \<Rightarrow> auth_client \<Rightarrow> transformer option \<Rightarrow> world \<Rightarrow> transformer \<times> world" where
  "validate_transforms maxAge client base w =
     (let m0 = Multi [] [];
          m1 = With (Some (Basic (T_ErrorOnUnsorted (NewErrorOnUnsorted True)))) m0;
          m2 = With (Some (Basic (T_RequireLabel (cl_Labels client)))) m1;
          m3 = With (Some (Basic T_DropEmptyFamilies)) m2;
          (m4, w1) =
            (if maxAge > 0
             then (let (t, w') = read_now w
                   in (With (Some (Basic (T_ErrorInvalid (min_ms (t - maxAge))))) m3, w'))
             else (m3, w));
          m5 = With (Some (Basic T_OverwriteTimestamps)) m4
      in (With base m5, w1))"

text \<open>The base transformers, as they are after the run, are the last of the chain.\<close>

fun base_after :: "transformer option \<Rightarrow> transformer \<Rightarrow> transformer option" where
  "base_after None t = None"
| "base_after (Some b) (Multi bs ts) = Some (last ts)"
| "base_after (Some b) (Basic x) = Some b"

definition validate_status :: "terr \<Rightarrow> int" where
  "validate_status err =
     (if err = ErrNoTimestamp then StatusBadRequest
      else if err = ErrUnsorted then StatusBadRequest
      else if err = ErrTimestampTooOld then StatusBadRequest
      else if err = ErrRequiredLabelMissing then StatusBadRequest
      else StatusInternalServerError)"

fun encode_all :: "(family \<Rightarrow> string + string) \<Rightarrow> family option list \<Rightarrow> string option" where
  "encode_all enc [] = Some []"
| "encode_all enc (None # fs) = encode_all enc fs"
| "encode_all enc (Some f # fs) =
     (case enc f of
        Inl e \<Rightarrow> None
      | Inr out \<Rightarrow> map_option (\<lambda>rest. out @ rest) (encode_all enc fs))"

definition Validate :: "'u ext \<Rightarrow> duration \<Rightarrow> int \<Rightarrow> 'u server handler \<Rightarrow> 'u server handler" where
  "Validate x maxAge limitBytes nxt = (\<lambda>s r.
     (case FromContext r of
        (_, False) \<Rightarrow> Ret (s, http_Error (Text ''unable to find user info'') StatusInternalServerError)
      | (client, True) \<Rightarrow>
          (let bd = (if limitBytes > 0 then NewLimitReadCloser (rq_body r) limitBytes else rq_body r)
           in (case ReadAll (x_room x) [] bd of
                 (_, Some e) \<Rightarrow>
                   Ret (s, http_Error (Text ''failed to read request body'')
                     (if e = ErrTooLong then StatusRequestEntityTooLarge else StatusInternalServerError))
               | (data, None) \<Rightarrow>
                   go_bind (deref client) (\<lambda>c.
                     let (transforms, w1) = validate_transforms maxAge c (sv_base s) (sv_world s)
                     in (case x_decode x (rq_header r) (buffer data) of
                           (_, Some e) \<Rightarrow>
                             Ret (s\<lparr>sv_world := w1\<rparr>,
                                  http_Error (Text ''failed to decode metrics'') StatusInternalServerError)
                         | (fams, None) \<Rightarrow>
                             go_bind (Filter (transform_step (x_env x)) (w1, transforms) (Pack (map Some fams)))
                               (\<lambda>((w2, transforms'), families, err).
                                 let s2 = s\<lparr>sv_world := w2, sv_base := base_after (sv_base s) transforms'\<rparr>
                                 in (case err of
                                       Some e \<Rightarrow> Ret (s2, http_Error (TransformError e) (validate_status e))
                                     | None \<Rightarrow>
                                         (case encode_all (x_encode x (rq_header r)) families of
                                            None \<Rightarrow>
                                              Ret (s2, http_Error (Text ''failed to encode transformed metrics again'')
                                                     StatusInternalServerError)
                                          | Some buf \<Rightarrow> nxt s2 (r\<lparr>rq_body := buffer buf\<rparr>))))))))))"

section \<open>ForwardHandler\<close>

definition count_request :: "string \<Rightarrow> 'u server \<Rightarrow> 'u server" where
  "count_request result s =
     s\<lparr>sv_forwardRequests := (sv_forwardRequests s)(result := Suc (sv_forwardRequests s result))\<rparr>"

fun sample_count :: "timeseries list \<Rightarrow> nat" where
  "sample_count [] = 0"
| "sample_count (t # ts) = length (ts_Samples t) + sample_count ts"

text \<open>From the status of the upstream's answer on.\<close>

definition forward_answer :: "int \<Rightarrow> timeseries list \<Rightarrow> 'u server \<Rightarrow> 'u server \<times> response" where
  "forward_answer status tss s =
     (let s1 = s\<lparr>sv_forwardDuration := sv_forwardDuration s @ [status]\<rparr>
      in if trunc_div status 100 \<noteq> 2
         then (count_request ''error'' s1, http_Error (Upstream_status status) status)
         else (let s2 = count_request ''success'' s1
               in (s2\<lparr>sv_forwardSamples := sv_forwardSamples s2 + sample_count tss\<rparr>, empty_response)))"

text \<open>Marshalling, compressing and sending.\<close>

definition forward_send ::
  "'u ext \<Rightarrow> string \<Rightarrow> string \<Rightarrow> timeseries list \<Rightarrow> 'u server \<Rightarrow> 'u server \<times> response" where
  "forward_send x url tenantID tss s =
     (case x_marshal x tss of
        Inl e \<Rightarrow> (s, http_Error (Text ''failed to marshal proto'') StatusInternalServerError)
      | Inr data \<Rightarrow>
          (case x_newRequest x url of
             Some e \<Rightarrow> (count_request ''telemeter_error'' s,
                        http_Error (Text ''failed to create forwarding request'') StatusInternalServerError)
           | None \<Rightarrow>
               (case x_do x (sv_upstream s) (url, tenantID, x_snappyEncode x data) of
                  (Inl e, u) \<Rightarrow>
                    (count_request ''error'' (s\<lparr>sv_upstream := u\<rparr>),
                     http_Error (Text ''failed to forward request'') StatusBadGateway)
                | (Inr status, u) \<Rightarrow> forward_answer status tss (s\<lparr>sv_upstream := u\<rparr>))))"

definition ForwardHandler :: "'u ext \<Rightarrow> string \<Rightarrow> string \<Rightarrow> 'u server handler" where
  "ForwardHandler x url tenantID = (\<lambda>s r.
     (case ClusterIDFromContext r of
        (_, False) \<Rightarrow> Ret (s, http_Error (Text ''failed to retrieve clusterID'') StatusInternalServerError)
      | (clusterID, True) \<Rightarrow>
          (case x_decode x (rq_header r) (rq_body r) of
             (_, Some e) \<Rightarrow>
               Ret (count_request ''telemeter_error'' s, http_Error (Text e) StatusInternalServerError)
           | (fams, None) \<Rightarrow>
               (let (t, w1) = read_now (sv_world s);
                    s1 = s\<lparr>sv_world := w1\<rparr>;
                    p = \<lparr>pm_ClusterID = clusterID, pm_Families = Pack (map Some fams)\<rparr>
                in go_bind (convertToTimeseries (x_sortLabels x) (sv_overwritten s1) p t) (\<lambda>(ow, res).
                     let s2 = s1\<lparr>sv_overwritten := ow\<rparr>
                     in (case res of
                           Inl e \<Rightarrow> Ret (count_request ''telemeter_error'' s2,
                                         http_Error (Text ''failed to convert timeseries'') StatusInternalServerError)
                         | Inr tss \<Rightarrow>
                             if length tss = 0 then Ret (s2, empty_response)
                             else Ret (forward_send x url tenantID tss s2)))))))"

section \<open>The route\<close>

text \<open>
  \<^verbatim>\<open>/upload\<close> behind the authorization of \<^verbatim>\<open>NewAuthorizeClientHandler\<close>, with the
  base transformers of \<^verbatim>\<open>main.go\<close>.
\<close>

definition server_transforms :: "matcher list list \<Rightarrow> (string \<times> string) list \<Rightarrow> string list \<Rightarrow> transformer" where
  "server_transforms whitelist labels elide =
     (let m1 = With (Some (Basic (T_Whitelist whitelist))) (Multi [] []);
          m2 = (if length labels > 0 then With (Some (Basic (T_Label (NewLabel labels False)))) m1 else m1)
      in With (Some (Basic (T_Elide (NewElide elide)))) m2)"

definition upload_route ::
  "'u ext \<Rightarrow> (duration \<Rightarrow> 'l) \<Rightarrow> ('l \<Rightarrow> time \<Rightarrow> bool \<times> 'l) \<Rightarrow> string \<Rightarrow> duration \<Rightarrow> int \<Rightarrow> string \<Rightarrow> string \<Rightarrow>
   ('l ratelimitStore \<times> 'u server) handler" where
  "upload_route x newLimiter allowN clusterIDKey ratelimit limitBytes forwardURL tenantID =
     ClusterID clusterIDKey
       (Ratelimit newLimiter allowN ratelimit
          (\<lambda>s. let (t, w) = read_now (sv_world s) in (t, s\<lparr>sv_world := w\<rparr>))
          (Snappy (x_snappyReader x)
             (Validate x (24 * Hour) limitBytes (ForwardHandler x forwardURL tenantID))))"

section \<open>Vocabulary of the theorems\<close>

text \<open>What the base transformers make of one metric they keep.\<close>

definition relabel :: "(string \<times> string) list \<Rightarrow> string list \<Rightarrow> metric \<Rightarrow> metric" where
  "relabel labels elide m =
     m\<lparr>m_Label := filter (\<lambda>l. GetName l \<notin> set elide)
        (if labels = [] then m_Label m else appendLabels (m_Label m) (ls_labels (NewLabel labels False)))\<rparr>"

definition restamp :: "int \<Rightarrow> metric \<Rightarrow> metric" where
  "restamp t m = m\<lparr>m_TimestampMs := Some t\<rparr>"

text \<open>The chain \<^verbatim>\<open>Validate\<close> builds for a positive \<^verbatim>\<open>maxAge\<close>.\<close>

definition upload_chain ::
  "errorOnUnsorted \<Rightarrow> (string \<times> string) list \<Rightarrow> int \<Rightarrow> transformer \<Rightarrow> transformer" where
  "upload_chain eu kvs mn base =
     Multi [] [Basic (T_ErrorOnUnsorted eu), Basic (T_RequireLabel kvs), Basic T_DropEmptyFamilies,
       Basic (T_ErrorInvalid mn), Basic T_OverwriteTimestamps, base]"

text \<open>What a family has to satisfy to be accepted.\<close>

definition acceptable :: "(string \<times> string) list \<Rightarrow> int \<Rightarrow> family \<Rightarrow> bool" where
  "acceptable kvs mn f \<longleftrightarrow>
     valid_family mn f \<and> in_order_from 0 (somes (f_Metric f)) \<and> somes (f_Metric f) \<noteq> [] \<and>
     (\<forall>(k, v) \<in> set kvs. \<forall>m \<in> set (somes (f_Metric f)). first_value k m = Some v)"

text \<open>
  The body \<^verbatim>\<open>Validate\<close> reads, decompressed if it is declared as snappy and cut
  off at the limit, and the bytes it decodes.
\<close>

definition upload_body :: "'u ext \<Rightarrow> int \<Rightarrow> request \<Rightarrow> body" where
  "upload_body x limitBytes r =
     (let bd = (if EqualFold (rq_header r ''Content-Encoding'') ''snappy'' then x_snappyReader x (rq_body r) else rq_body r)
      in if limitBytes > 0 then NewLimitReadCloser bd limitBytes else bd)"

definition upload_payload :: "'u ext \<Rightarrow> int \<Rightarrow> request \<Rightarrow> string" where
  "upload_payload x limitBytes r = fst (ReadAll (x_room x) [] (upload_body x limitBytes r))"

text \<open>What leaves the chain of the server for it, with the time \<open>t\<close> of the server.\<close>

definition accepted_family ::
  "matcher list list \<Rightarrow> (string \<times> string) list \<Rightarrow> string list \<Rightarrow> int \<Rightarrow> family \<Rightarrow> family" where
  "accepted_family wl labels elide t f =
     f\<lparr>f_Metric := map (\<lambda>m. Some (relabel labels elide (restamp t m)))
        (filter (\<lambda>m. whitelisted wl (family_GetName (Some f)) (restamp t m)) (somes (f_Metric f)))\<rparr>"

section \<open>The base transformers\<close>

lemma somes_map_keep: "None \<notin> set ms \<Longrightarrow> map (map_option g) ms = map (\<lambda>m. Some (g m)) (somes ms)"
  by (induction ms rule: somes.induct) auto

lemma server_transforms_eq:
  assumes "Transform e w (server_transforms wl labels el) (Some f) = Ret ((w', t'), Some g, True, None)"
  shows "t' = server_transforms wl labels el \<and>
    g = f\<lparr>f_Metric := map (\<lambda>m. Some (relabel labels el m))
      (filter (whitelisted wl (family_GetName (Some f))) (somes (f_Metric f)))\<rparr>"
proof (cases "labels = []")
  case True
  with assms show ?thesis
    by (auto simp: server_transforms_def Let_def chain_ok accept_ok somes_whitelist relabel_def NewElide_def
        simp del: Transform.simps Transform_all.simps basic_Transform.simps family_GetName_simps)
next
  case False
  have fixed: "\<not> ls_retriever (NewLabel labels False)" by (simp add: NewLabel_def)
  from False assms show ?thesis
    by (auto simp: server_transforms_def Let_def chain_ok accept_ok label_fixed_ok [OF fixed]
        somes_map_option_fun somes_whitelist relabel_def NewElide_def comp_def
        simp del: Transform.simps Transform_all.simps basic_Transform.simps family_GetName_simps)
qed

text \<open>The base transformers leave every label alone that is neither configured nor elided.\<close>

lemma first_value_filter:
  "k \<notin> S \<Longrightarrow> first_value k (m\<lparr>m_Label := filter (\<lambda>l. GetName l \<notin> S) ls\<rparr>) = first_value k (m\<lparr>m_Label := ls\<rparr>)"
proof -
  assume "k \<notin> S"
  then have "filter (\<lambda>l. GetName (Some l) = k) (somes (filter (\<lambda>l. GetName l \<notin> S) ls)) =
      filter (\<lambda>l. GetName (Some l) = k) (somes ls)"
    by (induction ls rule: somes.induct) auto
  then show ?thesis by (simp add: first_value_def)
qed

lemma somes_filter_name:
  "map_of kvs k = None \<Longrightarrow>
     filter (\<lambda>l. GetName (Some l) = k) (somes (filter (\<lambda>l. map_of kvs (GetName l) = None) ls)) =
     filter (\<lambda>l. GetName (Some l) = k) (somes ls)"
  by (induction ls rule: somes.induct) auto

lemma first_value_appendLabels:
  assumes "label_map_ok kvs" and "map_of kvs k = None"
  shows "first_value k (m\<lparr>m_Label := appendLabels (m_Label m) kvs\<rparr>) = first_value k m"
  using somes_filter_name [OF assms(2), of "appendLabels (m_Label m) kvs"]
    somes_filter_name [OF assms(2), of "m_Label m"] appendLabels_others [OF assms(1)]
  by (simp add: first_value_def)

lemma map_of_NewLabel_None: "k \<notin> fst ` set labels \<Longrightarrow> map_of (ls_labels (NewLabel labels r)) k = None"
  by (simp add: NewLabel_def map_of_fold_update_None)

lemma first_value_relabel:
  assumes "k \<notin> set elide" and "k \<notin> fst ` set labels"
  shows "first_value k (relabel labels elide m) = first_value k m"
  using first_value_filter [OF assms(1)] map_of_NewLabel_None [OF assms(2)]
    first_value_appendLabels [OF label_map_ok_NewLabel]
  by (simp add: relabel_def)

lemma first_value_restamp [simp]: "first_value k (restamp t m) = first_value k m"
  by (simp add: restamp_def first_value_def)

section \<open>The chain of a request\<close>

lemma validate_transforms_eq:
  assumes "0 < maxAge"
  shows "validate_transforms maxAge c (Some b) w =
    (upload_chain (NewErrorOnUnsorted True) (cl_Labels c) (min_ms (fst (read_now w) - maxAge)) b, snd (read_now w))"
  using assms by (simp add: validate_transforms_def upload_chain_def case_prod_unfold Let_def)

lemma upload_chain_accepts:
  assumes run: "Transform e w (upload_chain eu kvs mn (server_transforms wl labels el)) (Some f) =
      Ret ((w', t'), Some g, True, None)"
  shows "acceptable kvs mn f \<and> g = accepted_family wl labels el (wrap64 (Unix (w_now w (w_ticks w)) * 1000)) f"
    and "\<exists>eu'. eu_require eu' = eu_require eu \<and> t' = upload_chain eu' kvs mn (server_transforms wl labels el)"
proof -
  let ?t = "wrap64 (Unix (w_now w (w_ticks w)) * 1000)"
  let ?eu = "eu\<lparr>eu_timestamp := fst (unsorted_loop (eu_require eu) 0 (f_Metric f))\<rparr>"
  from run obtain w1 b1 f1 t2 where
    pre: "acceptable kvs mn f" and
    ow: "basic_Transform e (w, T_OverwriteTimestamps) (Some f) = Ret ((w1, b1), f1, True, None)" and
    base: "Transform e w1 (server_transforms wl labels el) f1 = Ret ((w', t2), Some g, True, None)" and
    t': "t' = Multi [] [Basic (T_ErrorOnUnsorted ?eu), Basic (T_RequireLabel kvs), Basic T_DropEmptyFamilies,
       Basic (T_ErrorInvalid mn), Basic b1, t2]"
    by (auto simp: upload_chain_def chain_ok accept_ok acceptable_def
        simp del: Transform.simps Transform_all.simps basic_Transform.simps)
  note f1 = overwrite_ok [OF ow]
  from base f1 have base': "Transform e w1 (server_transforms wl labels el)
      (Some (f\<lparr>f_Metric := map (map_option (restamp ?t)) (f_Metric f)\<rparr>)) = Ret ((w', t2), Some g, True, None)"
    by (simp add: restamp_def [abs_def])
  note g = server_transforms_eq [OF base']
  show "acceptable kvs mn f \<and> g = accepted_family wl labels el ?t f"
    using pre g by (simp add: accepted_family_def filter_map comp_def)
  show "\<exists>eu'. eu_require eu' = eu_require eu \<and> t' = upload_chain eu' kvs mn (server_transforms wl labels el)"
    using t' g f1 by (intro exI [of _ ?eu]) (simp add: upload_chain_def)
qed

text \<open>The chain keeps its shape, whatever a family makes of it.\<close>

definition upload_state :: "(string \<times> string) list \<Rightarrow> int \<Rightarrow> transformer \<Rightarrow> transformer \<Rightarrow> bool" where
  "upload_state kvs mn base t \<longleftrightarrow> (\<exists>eu. eu_require eu \<and> t = upload_chain eu kvs mn base)"

lemma skeleton_eq_Basic: "skeleton t = Basic b \<longleftrightarrow> (\<exists>b'. t = Basic b' \<and> basic_skeleton b' = b)"
  by (cases t) auto

lemma skeleton_eq_Multi: "skeleton t = Multi bs ts \<longleftrightarrow> (\<exists>ts'. t = Multi bs ts' \<and> map skeleton ts' = ts)"
  by (cases t) auto

lemma basic_skeleton_eq [simp]:
  "basic_skeleton b = T_Whitelist wl \<longleftrightarrow> b = T_Whitelist wl"
  "basic_skeleton b = T_Label t \<longleftrightarrow> b = T_Label t"
  "basic_skeleton b = T_Elide S \<longleftrightarrow> b = T_Elide S"
  "basic_skeleton b = T_RequireLabel kvs \<longleftrightarrow> b = T_RequireLabel kvs"
  "basic_skeleton b = T_DropEmptyFamilies \<longleftrightarrow> b = T_DropEmptyFamilies"
  "basic_skeleton b = T_ErrorInvalid mn \<longleftrightarrow> b = T_ErrorInvalid mn"
  "basic_skeleton b = T_OverwriteTimestamps \<longleftrightarrow> b = T_OverwriteTimestamps"
  "basic_skeleton b = T_ErrorOnUnsorted u \<longleftrightarrow> (\<exists>u'. b = T_ErrorOnUnsorted u' \<and> u = u'\<lparr>eu_timestamp := 0\<rparr>)"
  by (cases b; auto)+

lemma server_transforms_skeleton:
  "skeleton t = skeleton (server_transforms wl labels el) \<longleftrightarrow> t = server_transforms wl labels el"
  by (auto simp: server_transforms_def Let_def skeleton_eq_Basic skeleton_eq_Multi map_eq_Cons_conv)

lemma server_transforms_fixed: "fixed (server_transforms wl labels el)"
  by (simp add: server_transforms_def NewLabel_def Let_def)

lemma upload_state_step:
  assumes "Transform e w t f = Ret ((w', t'), r)" and "upload_state kvs mn (server_transforms wl labels el) t"
  shows "upload_state kvs mn (server_transforms wl labels el) t'"
proof -
  from assms(2) obtain eu where t: "eu_require eu" "t = upload_chain eu kvs mn (server_transforms wl labels el)"
    by (auto simp: upload_state_def)
  then have "fixed t" by (simp add: upload_chain_def server_transforms_fixed)
  from Transform_fixed(1) [OF assms(1) this] t obtain eu' where
    "t' = upload_chain eu' kvs mn (server_transforms wl labels el)" and
    "eu'\<lparr>eu_timestamp := 0\<rparr> = eu\<lparr>eu_timestamp := 0\<rparr>"
    by (auto simp: upload_chain_def skeleton_eq_Basic skeleton_eq_Multi map_eq_Cons_conv
        server_transforms_skeleton)
  moreover from this(2) have "eu_require eu' = eu_require eu" by (metis errorOnUnsorted.simps(2,4) errorOnUnsorted.surjective)
  ultimately show ?thesis using t by (auto simp: upload_state_def)
qed

interpretation upload: transformer_interface "transform_step e"
    "\<lambda>s. upload_state kvs mn (server_transforms wl labels el) (snd s)" for e kvs mn wl labels el
proof unfold_locales
  fix s s' :: "world \<times> transformer" and f r
  assume "upload_state kvs mn (server_transforms wl labels el) (snd s)" and "transform_step e s f = Ret (s', r)"
  then show "upload_state kvs mn (server_transforms wl labels el) (snd s')"
    using upload_state_step [of e "fst s" "snd s" f "fst s'" "snd s'" r] by (simp add: transform_step_def)
qed (use dispatch.keeps_nil dispatch.err_not_ok in blast)+

lemma upload_Filter:
  assumes "Filter (transform_step e) (w, t) fs = Ret (s', out, None)"
    and "upload_state kvs mn (server_transforms wl labels el) t" and "Some g \<in> set out"
  shows "\<exists>f u. Some f \<in> set fs \<and> acceptable kvs mn f \<and> g = accepted_family wl labels el u f"
proof (rule upload.Filter_establishes [OF _ assms(1,3)])
  show "upload_state kvs mn (server_transforms wl labels el) (snd (w, t))" using assms(2) by simp
  fix s1 s2 :: "world \<times> transformer" and f
  assume "upload_state kvs mn (server_transforms wl labels el) (snd s1)" and "Some f \<in> set fs"
    and "transform_step e s1 (Some f) = Ret (s2, Some g, True, None)"
  moreover from this obtain eu where "snd s1 = upload_chain eu kvs mn (server_transforms wl labels el)"
    by (auto simp: upload_state_def)
  ultimately show "\<exists>f u. Some f \<in> set fs \<and> acceptable kvs mn f \<and> g = accepted_family wl labels el u f"
    using upload_chain_accepts(1) [of e "fst s1" eu kvs mn wl labels el f "fst s2" "snd s2" g]
    by (auto simp: transform_step_def)
qed

section \<open>From a request to the upstream\<close>

text \<open>Decoding gives back the families that were encoded, in order.\<close>

definition codec_roundtrip :: "'u ext \<Rightarrow> bool" where
  "codec_roundtrip x \<longleftrightarrow>
     (\<forall>h fs buf. encode_all (x_encode x h) fs = Some buf \<longrightarrow> x_decode x h (buffer buf) = (somes fs, None))"

text \<open>
  The outcomes of a run of the handlers as far as the upstream can tell: it was not called, or
  it was called once, with the rendering of \<open>tss\<close>.
\<close>

definition sent :: "'u ext \<Rightarrow> string \<Rightarrow> string \<Rightarrow> 'u \<Rightarrow> 'u \<Rightarrow> timeseries list \<Rightarrow> bool" where
  "sent x url tenantID u u' tss \<longleftrightarrow>
     (\<exists>data. x_marshal x tss = Inr data \<and> u' = snd (x_do x u (url, tenantID, x_snappyEncode x data)))"

lemma forward_send_upstream:
  "forward_send x url tenantID tss s = (s', resp) \<Longrightarrow>
     sv_upstream s' = sv_upstream s \<or> sent x url tenantID (sv_upstream s) (sv_upstream s') tss"
  by (auto simp: forward_send_def sent_def count_request_def forward_answer_def Let_def
      split: sum.splits option.splits prod.splits if_splits)

lemma ForwardHandler_upstream:
  assumes "ForwardHandler x url tenantID s r = Ret (s', resp)"
  shows "sv_upstream s' = sv_upstream s \<or>
    (\<exists>fams ow t tss. x_decode x (rq_header r) (rq_body r) = (fams, None) \<and>
       convertToTimeseries (x_sortLabels x) (sv_overwritten s)
         \<lparr>pm_ClusterID = fst (ClusterIDFromContext r), pm_Families = Pack (map Some fams)\<rparr> t = Ret (ow, Inr tss) \<and>
       tss \<noteq> [] \<and> sent x url tenantID (sv_upstream s) (sv_upstream s') tss)"
proof (cases "\<exists>cid fams. ClusterIDFromContext r = (cid, True) \<and> x_decode x (rq_header r) (rq_body r) = (fams, None)")
  case False
  with assms show ?thesis
    by (auto simp: ForwardHandler_def count_request_def split: prod.splits bool.splits option.splits)
next
  case True
  then obtain cid fams where ctx: "ClusterIDFromContext r = (cid, True)"
    and dec: "x_decode x (rq_header r) (rq_body r) = (fams, None)" by auto
  obtain t w1 where now: "read_now (sv_world s) = (t, w1)" by force
  from assms ctx dec now obtain ow res where
    conv: "convertToTimeseries (x_sortLabels x) (sv_overwritten s)
      \<lparr>pm_ClusterID = cid, pm_Families = Pack (map Some fams)\<rparr> t = Ret (ow, res)"
    by (auto simp: ForwardHandler_def Let_def)
  show ?thesis
  proof (cases "\<exists>tss. res = Inr tss \<and> tss \<noteq> []")
    case False
    with assms ctx dec now conv show ?thesis
      by (cases res) (auto simp: ForwardHandler_def count_request_def Let_def)
  next
    case True
    then obtain tss where tss: "res = Inr tss" "tss \<noteq> []" by auto
    with assms ctx dec now conv have
      "forward_send x url tenantID tss (s\<lparr>sv_world := w1, sv_overwritten := ow\<rparr>) = (s', resp)"
      by (simp add: ForwardHandler_def Let_def)
    from forward_send_upstream [OF this] ctx dec conv tss show ?thesis by auto
  qed
qed

lemma Validate_upstream:
  assumes run: "Validate x maxAge limitBytes nxt s r = Ret (s', resp)" and client: "rq_client r = Some (Some c)"
    and base: "sv_base s = Some (server_transforms wl labels el)" and age: "0 < maxAge"
  shows "sv_upstream s' = sv_upstream s \<or>
    (\<exists>s2 fams families buf mn. nxt s2 (r\<lparr>rq_body := buffer buf\<rparr>) = Ret (s', resp) \<and>
       x_decode x (rq_header r) (buffer (fst (ReadAll (x_room x) []
         (if limitBytes > 0 then NewLimitReadCloser (rq_body r) limitBytes else rq_body r)))) = (fams, None) \<and>
       sv_upstream s2 = sv_upstream s \<and> encode_all (x_encode x (rq_header r)) families = Some buf \<and>
       (\<forall>g. Some g \<in> set families \<longrightarrow>
          (\<exists>f u. f \<in> set fams \<and> acceptable (cl_Labels c) mn f \<and> g = accepted_family wl labels el u f)))"
proof -
  let ?bd = "if limitBytes > 0 then NewLimitReadCloser (rq_body r) limitBytes else rq_body r"
  obtain data rerr where rd: "ReadAll (x_room x) [] ?bd = (data, rerr)" by force
  obtain fams derr where dec: "x_decode x (rq_header r) (buffer data) = (fams, derr)" by force
  define w1 where "w1 = snd (read_now (sv_world s))"
  define mn where "mn = min_ms (fst (read_now (sv_world s)) - maxAge)"
  let ?chain = "upload_chain (NewErrorOnUnsorted True) (cl_Labels c) mn (server_transforms wl labels el)"
  have tr: "validate_transforms maxAge c (sv_base s) (sv_world s) = (?chain, w1)"
    by (simp add: base validate_transforms_eq [OF age] w1_def mn_def)
  note unf = Validate_def FromContext_def client rd dec tr
  show ?thesis
  proof (cases "rerr = None \<and> derr = None")
    case False
    with run show ?thesis by (auto simp: unf split: option.splits)
  next
    case True
    with run obtain w2 t2 families err where
      filt: "Filter (transform_step (x_env x)) (w1, ?chain) (Pack (map Some fams)) = Ret ((w2, t2), families, err)"
      by (auto simp: unf Let_def)
    show ?thesis
    proof (cases "\<exists>buf. err = None \<and> encode_all (x_encode x (rq_header r)) families = Some buf")
      case False
      with True run filt show ?thesis by (auto simp: unf Let_def split: option.splits)
    next
      case True2: True
      then obtain buf where buf: "err = None" "encode_all (x_encode x (rq_header r)) families = Some buf" by auto
      have "upload_state (cl_Labels c) mn (server_transforms wl labels el) ?chain"
        unfolding upload_state_def
        by (rule exI [of _ "NewErrorOnUnsorted True"]) (simp add: NewErrorOnUnsorted_def)
      from upload_Filter [OF filt [unfolded buf(1)] this]
      have "\<forall>g. Some g \<in> set families \<longrightarrow>
          (\<exists>f u. f \<in> set fams \<and> acceptable (cl_Labels c) mn f \<and> g = accepted_family wl labels el u f)"
        by (fastforce simp: Pack_filter)
      moreover from True run filt buf obtain s2 where
        "nxt s2 (r\<lparr>rq_body := buffer buf\<rparr>) = Ret (s', resp)" "sv_upstream s2 = sv_upstream s"
        by (auto simp: unf Let_def)
      moreover have "x_decode x (rq_header r) (buffer (fst (ReadAll (x_room x) [] ?bd))) = (fams, None)"
        using True by (simp add: rd dec)
      ultimately show ?thesis using buf(2) by blast
    qed
  qed
qed

text \<open>A series the conversion makes of an accepted family stems from a metric of the request.\<close>

lemma accepted_series:
  assumes "(g, m') \<in> set (metrics_of (map Some gs))"
    and "\<forall>g \<in> set gs. \<exists>f u. f \<in> set fams \<and> acceptable kvs mn f \<and> g = accepted_family wl labels el u f"
  shows "\<exists>f m u. f \<in> set fams \<and> acceptable kvs mn f \<and> m \<in> set (somes (f_Metric f)) \<and>
    whitelisted wl (family_GetName (Some f)) (restamp u m) \<and> f_Name g = f_Name f \<and>
    m' = relabel labels el (restamp u m)"
proof -
  from assms(1) have g: "g \<in> set gs" "m' \<in> set (somes (f_Metric g))"
    by (auto simp: metrics_of_def)
  with assms(2) obtain f u where f: "f \<in> set fams" "acceptable kvs mn f" "g = accepted_family wl labels el u f"
    by blast
  from f(3) g(2) obtain m where "m \<in> set (somes (f_Metric f))"
    "whitelisted wl (family_GetName (Some f)) (restamp u m)" "m' = relabel labels el (restamp u m)"
    by (auto simp: accepted_family_def set_somes simp del: family_GetName_simps)
  moreover have "f_Name g = f_Name f" by (simp add: f(3) accepted_family_def)
  ultimately show ?thesis using f(1,2) by blast
qed

text \<open>
  Everything in front of \<^verbatim>\<open>Validate\<close> either answers itself or passes on a request
  with the same client, and the cluster ID the client's labels have.
\<close>

lemma Snappy_eq:
  "Snappy sr nxt s r = nxt s (r\<lparr>rq_body :=
     (if EqualFold (rq_header r ''Content-Encoding'') ''snappy'' then sr (rq_body r) else rq_body r)\<rparr>)"
  by (simp add: Snappy_def)

lemma upload_route_cases:
  assumes run: "upload_route x newLimiter allowN key d limitBytes url tenantID (store, s) r = Ret ((store', s'), resp)"
    and client: "rq_client r = Some (Some c)"
  shows "s' = s \<or> (\<exists>w bd cid. cid = map_get (cl_Labels c) key \<and> cid \<noteq> [] \<and>
    bd = (if EqualFold (rq_header r ''Content-Encoding'') ''snappy'' then x_snappyReader x (rq_body r) else rq_body r) \<and>
    (s' = s\<lparr>sv_world := w\<rparr> \<or>
     Validate x (24 * Hour) limitBytes (ForwardHandler x url tenantID) (s\<lparr>sv_world := w\<rparr>)
       ((WithClusterID r cid)\<lparr>rq_body := bd\<rparr>) = Ret (s', resp)))"
proof (cases "map_get (cl_Labels c) key = []")
  case True
  with run client show ?thesis by (simp add: upload_route_def ClusterID_def FromContext_def)
next
  case False
  let ?cid = "map_get (cl_Labels c) key"
  obtain t w where now: "read_now (sv_world s) = (t, w)" by force
  obtain st verdict where lim: "limit newLimiter allowN store d t ?cid = (st, verdict)" by force
  let ?V = "Validate x (24 * Hour) limitBytes (ForwardHandler x url tenantID)"
  show ?thesis
  proof (cases verdict)
    case (Some e)
    with run client False now lim have "s' = s\<lparr>sv_world := w\<rparr>"
      by (simp add: upload_route_def ClusterID_def FromContext_def Ratelimit_def Let_def)
    with False show ?thesis by blast
  next
    case None
    with run client False now lim have
      "Snappy (x_snappyReader x) ?V (s\<lparr>sv_world := w\<rparr>) (WithClusterID r ?cid) = Ret (s', resp)"
      by (simp add: upload_route_def ClusterID_def FromContext_def Ratelimit_def Let_def)
    with False show ?thesis unfolding Snappy_eq by (simp only: WithClusterID_keeps) blast
  qed
qed

text \<open>The base transformers of the server are the same after every request.\<close>

lemma forward_answer_base: "forward_answer st tss s = (s', resp) \<Longrightarrow> sv_base s' = sv_base s"
  by (auto simp: forward_answer_def count_request_def Let_def split: if_splits)

lemma forward_send_base: "forward_send x url tenantID tss s = (s', resp) \<Longrightarrow> sv_base s' = sv_base s"
  by (auto simp: forward_send_def count_request_def dest!: forward_answer_base split: sum.splits option.splits prod.splits)

lemma ForwardHandler_base:
  assumes "ForwardHandler x url tenantID s r = Ret (s', resp)"
  shows "sv_base s' = sv_base s"
proof -
  obtain cid ok where ctx: "ClusterIDFromContext r = (cid, ok)" by force
  obtain fams err where dec: "x_decode x (rq_header r) (rq_body r) = (fams, err)" by force
  obtain t w1 where now: "read_now (sv_world s) = (t, w1)" by force
  note unf = ForwardHandler_def ctx dec now count_request_def Let_def
  show ?thesis
  proof (cases "ok \<and> err = None")
    case False
    with assms show ?thesis by (cases ok) (auto simp: unf)
  next
    case True
    with assms obtain ow res where conv: "convertToTimeseries (x_sortLabels x) (sv_overwritten s)
      \<lparr>pm_ClusterID = cid, pm_Families = Pack (map Some fams)\<rparr> t = Ret (ow, res)" by (auto simp: unf)
    show ?thesis
    proof (cases "\<exists>tss. res = Inr tss \<and> tss \<noteq> []")
      case False
      with assms True conv show ?thesis by (cases res) (auto simp: unf)
    next
      case tss: True
      then obtain tss where "res = Inr tss" "tss \<noteq> []" by blast
      with assms True conv have "forward_send x url tenantID tss (s\<lparr>sv_world := w1, sv_overwritten := ow\<rparr>) = (s', resp)"
        by (simp add: unf)
      from forward_send_base [OF this] show ?thesis by simp
    qed
  qed
qed

lemma base_after_chain:
  "upload_state kvs mn b t \<Longrightarrow> base_after (Some b0) t = Some b"
  by (auto simp: upload_state_def upload_chain_def)

lemma Validate_base:
  assumes run: "Validate x maxAge limitBytes nxt s r = Ret (s', resp)"
    and base: "sv_base s = Some (server_transforms wl labels el)" and age: "0 < maxAge"
    and nxt: "\<And>s r s' resp. nxt s r = Ret (s', resp) \<Longrightarrow> sv_base s' = sv_base s"
  shows "sv_base s' = sv_base s"
proof (cases "\<exists>c. rq_client r = Some (Some c)")
  case False
  with run show ?thesis
    by (cases "rq_client r") (auto simp: Validate_def FromContext_def split: option.splits prod.splits)
next
  case True
  then obtain c where client: "rq_client r = Some (Some c)" by blast
  let ?bd = "if limitBytes > 0 then NewLimitReadCloser (rq_body r) limitBytes else rq_body r"
  obtain data rerr where rd: "ReadAll (x_room x) [] ?bd = (data, rerr)" by force
  obtain fams derr where dec: "x_decode x (rq_header r) (buffer data) = (fams, derr)" by force
  define w1 where "w1 = snd (read_now (sv_world s))"
  define mn where "mn = min_ms (fst (read_now (sv_world s)) - maxAge)"
  let ?chain = "upload_chain (NewErrorOnUnsorted True) (cl_Labels c) mn (server_transforms wl labels el)"
  have tr: "validate_transforms maxAge c (sv_base s) (sv_world s) = (?chain, w1)"
    by (simp add: base validate_transforms_eq [OF age] w1_def mn_def)
  note unf = Validate_def FromContext_def client rd dec tr
  show ?thesis
  proof (cases "rerr = None \<and> derr = None")
    case False
    with run show ?thesis by (auto simp: unf split: option.splits)
  next
    case True
    with run obtain w2 t2 families err where
      filt: "Filter (transform_step (x_env x)) (w1, ?chain) (Pack (map Some fams)) = Ret ((w2, t2), families, err)"
      by (auto simp: unf Let_def)
    have "upload_state (cl_Labels c) mn (server_transforms wl labels el) (snd (w1, ?chain))"
      unfolding upload_state_def
      by (intro exI [of _ "NewErrorOnUnsorted True"]) (simp add: NewErrorOnUnsorted_def)
    from upload.Filter_inv [OF this filt] have "base_after (sv_base s) t2 = sv_base s"
      using base by (simp add: base_after_chain)
    with True run filt nxt show ?thesis by (auto simp: unf Let_def split: option.splits) 
  qed
qed

lemma upload_route_base:
  assumes "upload_route x newLimiter allowN key d limitBytes url tenantID (store, s) r = Ret ((store', s'), resp)"
    and "rq_client r = Some (Some c)" and "sv_base s = Some (server_transforms wl labels el)"
  shows "sv_base s' = sv_base s"
proof -
  have age: "0 < 24 * Hour" by (simp add: Hour_def Minute_def Second_def)
  from upload_route_cases [OF assms(1,2)] consider "s' = s" | w where "s' = s\<lparr>sv_world := w\<rparr>"
    | w bd cid where "Validate x (24 * Hour) limitBytes (ForwardHandler x url tenantID) (s\<lparr>sv_world := w\<rparr>)
       ((WithClusterID r cid)\<lparr>rq_body := bd\<rparr>) = Ret (s', resp)" by blast
  then show ?thesis
  proof cases
    case 3
    from Validate_base [OF this _ age ForwardHandler_base] assms(3) show ?thesis by simp
  qed simp_all
qed

lemma forwarded_series:
  assumes "convertToTimeseries srt cnt \<lparr>pm_ClusterID = cid, pm_Families = Pack (map Some gs)\<rparr> t = Ret (ow, Inr tss)"
    and "\<forall>g \<in> set gs. \<exists>f u. f \<in> set fams \<and> acceptable kvs mn f \<and> g = accepted_family wl labels el u f"
    and "ts \<in> set tss"
  shows "\<exists>f m u g. f \<in> set fams \<and> acceptable kvs mn f \<and> m \<in> set (somes (f_Metric f)) \<and>
    whitelisted wl (family_GetName (Some f)) (restamp u m) \<and>
    series_of srt (trunc_div (UnixNano t) Millisecond) g (relabel labels el (restamp u m)) ts"
proof -
  from convertToTimeseries_Inr [OF assms(1,3)] obtain g m' where
    mem: "(g, m') \<in> set (metrics_of (Pack (map Some gs)))" and
    ser: "series_of srt (trunc_div (UnixNano t) Millisecond) g m' ts" by auto
  have "(g, m') \<in> set (metrics_of (map Some gs))"
    using mem by (auto simp: Pack_filter metrics_of_def set_somes)
  from accepted_series [OF this assms(2)] ser show ?thesis by blast
qed

lemma upload_sent:
  assumes run: "upload_route x newLimiter allowN key d limitBytes url tenantID (store, s) r = Ret ((store', s'), resp)"
    and client: "rq_client r = Some (Some c)" and base: "sv_base s = Some (server_transforms wl labels el)"
    and codec: "codec_roundtrip x"
  shows "sv_upstream s' = sv_upstream s \<or>
    (\<exists>tss fams mn t. tss \<noteq> [] \<and> sent x url tenantID (sv_upstream s) (sv_upstream s') tss \<and> map_get (cl_Labels c) key \<noteq> [] \<and>
       x_decode x (rq_header r) (buffer (upload_payload x limitBytes r)) = (fams, None) \<and>
       (\<forall>ts \<in> set tss. \<exists>f m u g. f \<in> set fams \<and> acceptable (cl_Labels c) mn f \<and>
          m \<in> set (somes (f_Metric f)) \<and> whitelisted wl (family_GetName (Some f)) (restamp u m) \<and>
          series_of (x_sortLabels x) t g (relabel labels el (restamp u m)) ts))"
proof -
  have age: "0 < 24 * Hour" by (simp add: Hour_def Minute_def Second_def)
  from upload_route_cases [OF run client] consider "sv_upstream s' = sv_upstream s"
  | w bd cid where "cid = map_get (cl_Labels c) key" "cid \<noteq> []"
    "bd = (if EqualFold (rq_header r ''Content-Encoding'') ''snappy'' then x_snappyReader x (rq_body r) else rq_body r)"
    "Validate x (24 * Hour) limitBytes (ForwardHandler x url tenantID) (s\<lparr>sv_world := w\<rparr>)
       ((WithClusterID r cid)\<lparr>rq_body := bd\<rparr>) = Ret (s', resp)" by auto
  then show ?thesis
  proof cases
    case 2
    let ?r = "(WithClusterID r cid)\<lparr>rq_body := bd\<rparr>"
    have payload: "fst (ReadAll (x_room x) [] (if limitBytes > 0 then NewLimitReadCloser (rq_body ?r) limitBytes
        else rq_body ?r)) = upload_payload x limitBytes r"
      by (cases "0 < limitBytes") (simp_all add: upload_payload_def upload_body_def Let_def 2(3))
    from Validate_upstream [OF 2(4) _ _ age, of c wl labels el, unfolded payload] client base
    consider "sv_upstream s' = sv_upstream s"
    | s2 fams families buf mn where "x_decode x (rq_header r) (buffer (upload_payload x limitBytes r)) = (fams, None)"
       "ForwardHandler x url tenantID s2 (?r\<lparr>rq_body := buffer buf\<rparr>) = Ret (s', resp)"
       "sv_upstream s2 = sv_upstream s" "encode_all (x_encode x (rq_header ?r)) families = Some buf"
       "\<forall>g. Some g \<in> set families \<longrightarrow> (\<exists>f u. f \<in> set fams \<and> acceptable (cl_Labels c) mn f \<and>
          g = accepted_family wl labels el u f)"
      by (simp del: request.update_convs) blast
    then show ?thesis
    proof cases
      case V: 2
      have dec: "x_decode x (rq_header ?r) (buffer buf) = (somes families, None)"
        using codec V(4) by (auto simp: codec_roundtrip_def)
      from ForwardHandler_upstream [OF V(2)] V(3) dec
      consider "sv_upstream s' = sv_upstream s"
      | ow t tss where "convertToTimeseries (x_sortLabels x) (sv_overwritten s2)
           \<lparr>pm_ClusterID = fst (ClusterIDFromContext (?r\<lparr>rq_body := buffer buf\<rparr>)),
            pm_Families = Pack (map Some (somes families))\<rparr> t = Ret (ow, Inr tss)" "tss \<noteq> []"
         "sent x url tenantID (sv_upstream s) (sv_upstream s') tss" by auto
      then show ?thesis
      proof cases
        case F: 2
        have "\<forall>g \<in> set (somes families). \<exists>f u. f \<in> set fams \<and> acceptable (cl_Labels c) mn f \<and>
            g = accepted_family wl labels el u f" using V(5) by (simp add: set_somes)
        with forwarded_series [OF F(1) this] F(2,3) V(1) 2(1,2) show ?thesis by blast
      qed simp
    qed simp
  qed simp
qed

text \<open>The label that identifies the cluster, in a series of an accepted metric.\<close>

lemma series_cluster_label:
  assumes "sort_contract label_less srt" and "series_of srt t g (relabel labels el (restamp u m)) ts"
    and "first_value key m = Some cid" and "cid \<noteq> []" and "key \<noteq> []" and "key \<noteq> nameLabelName"
    and "key \<notin> set el" and "key \<notin> fst ` set labels"
  shows "filter (\<lambda>l. pl_Name l = key) (ts_Labels ts) = [\<lparr>pl_Name = key, pl_Value = cid\<rparr>]"
proof -
  let ?m = "relabel labels el (restamp u m)"
  from series_labels(2) [OF assms(1,2)] obtain name out where
    conv: "conv_labels {} (m_Label ?m) = Ret out" and
    perm: "mset (ts_Labels ts) = mset (\<lparr>pl_Name = nameLabelName, pl_Value = name\<rparr> # out)" by auto
  have "first_value key ?m = Some cid"
    using assms(3) first_value_relabel [OF assms(7,8)] by simp
  from conv_labels_first_value [OF conv this assms(5,4)] assms(6)
  have "filter (\<lambda>l. pl_Name l = key) (\<lparr>pl_Name = nameLabelName, pl_Value = name\<rparr> # out) =
      [\<lparr>pl_Name = key, pl_Value = cid\<rparr>]" by simp
  with perm show ?thesis by (rule filter_sorted_labels)
qed

lemma map_get_mem: "map_get kvs k \<noteq> [] \<Longrightarrow> (k, map_get kvs k) \<in> set kvs"
  by (auto simp: map_get_def split: option.splits dest: map_of_SomeD)

lemma acceptable_first_value:
  "acceptable kvs mn f \<Longrightarrow> m \<in> set (somes (f_Metric f)) \<Longrightarrow> (k, v) \<in> set kvs \<Longrightarrow> first_value k m = Some v"
  by (auto simp: acceptable_def)

text \<open>Every series that is sent carries the cluster ID of the client, once.\<close>

lemma upload_identity:
  assumes "upload_route x newLimiter allowN key d limitBytes url tenantID (store, s) r = Ret ((store', s'), resp)"
    and "rq_client r = Some (Some c)" and "sv_base s = Some (server_transforms wl labels el)"
    and "codec_roundtrip x" and "sort_contract label_less (x_sortLabels x)"
    and "key \<noteq> []" and "key \<noteq> nameLabelName" and "key \<notin> set el" and "key \<notin> fst ` set labels"
  shows "sv_upstream s' = sv_upstream s \<or>
    (\<exists>tss. sent x url tenantID (sv_upstream s) (sv_upstream s') tss \<and>
       list_all (\<lambda>ts. filter (\<lambda>l. pl_Name l = key) (ts_Labels ts) =
         [\<lparr>pl_Name = key, pl_Value = map_get (cl_Labels c) key\<rparr>]) tss)"
proof -
  let ?cid = "map_get (cl_Labels c) key"
  from upload_sent [OF assms(1-4)] consider "sv_upstream s' = sv_upstream s"
  | tss fams mn t where "sent x url tenantID (sv_upstream s) (sv_upstream s') tss" "?cid \<noteq> []"
    "\<forall>ts \<in> set tss. \<exists>f m u g. f \<in> set fams \<and> acceptable (cl_Labels c) mn f \<and>
          m \<in> set (somes (f_Metric f)) \<and> whitelisted wl (family_GetName (Some f)) (restamp u m) \<and>
          series_of (x_sortLabels x) t g (relabel labels el (restamp u m)) ts" by blast
  then show ?thesis
  proof cases
    case 2
    have "filter (\<lambda>l. pl_Name l = key) (ts_Labels ts) = [\<lparr>pl_Name = key, pl_Value = ?cid\<rparr>]"
      if "ts \<in> set tss" for ts
      using 2(3) that acceptable_first_value [OF _ _ map_get_mem [OF 2(2)]]
        series_cluster_label [OF assms(5) _ _ 2(2) assms(6-9)] by blast
    with 2(1) show ?thesis by (auto simp: list_all_iff)
  qed simp
qed

section \<open>Properties\<close>


text \<open>
  A concrete outside world, in which the codec knows two families by one letter each and the
  upstream records what it is sent, and a run of the route in it.
\<close>

definition example_metric :: "int \<Rightarrow> metric" where
  "example_metric t = counter_metric [(''_id'', ''c1'')] (Some t)"

definition example_letter :: "char \<Rightarrow> family option" where
  "example_letter c =
     (if c = CHR ''A'' then Some (counter_family ''up'' [Some (example_metric 99000)])
      else if c = CHR ''B'' then Some (counter_family ''up'' [Some (example_metric 100000)]) else None)"

definition example_decode :: "body \<Rightarrow> family list \<times> string option" where
  "example_decode b =
     (if list_all (\<lambda>c. example_letter c \<noteq> None) (body_left b)
      then (map (\<lambda>c. the (example_letter c)) (body_left b), None) else ([], Some ''unknown letter''))"

definition example_encode :: "family \<Rightarrow> string + string" where
  "example_encode f =
     (if example_letter (CHR ''A'') = Some f then Inr ''A''
      else if example_letter (CHR ''B'') = Some f then Inr ''B'' else Inl ''unsupported'')"

definition example_ext :: "(string \<times> string \<times> string) list ext" where
  "example_ext = \<lparr>x_env = example_env, x_room = (\<lambda>_. 512), x_decode = (\<lambda>_. example_decode),
     x_encode = (\<lambda>_. example_encode), x_snappyReader = (\<lambda>b. b),
     x_sortLabels = insertion_sort label_less, x_marshal = (\<lambda>tss. Inr ''data''), x_snappyEncode = (\<lambda>d. d),
     x_newRequest = (\<lambda>_. None), x_do = (\<lambda>u p. (Inr 200, u @ [p]))\<rparr>"

definition example_server :: "(string \<times> string \<times> string) list server" where
  "example_server = \<lparr>sv_world = still_world 100000000000,
     sv_base = Some (server_transforms [[\<lparr>mt_Name = ''__name__'', mt_Matches = (\<lambda>v. v = ''up'')\<rparr>]] [] []),
     sv_upstream = [], sv_forwardSamples = 0, sv_forwardRequests = (\<lambda>_. 0), sv_forwardDuration = [], sv_overwritten = 0\<rparr>"

definition example_request :: request where
  "example_request = \<lparr>rq_method = ''POST'', rq_header = (\<lambda>_. []), rq_form = (\<lambda>_. Inl []),
     rq_body = buffer ''A'', rq_client = Some (Some \<lparr>cl_ID = ''u'', cl_Labels = [(''_id'', ''c1'')]\<rparr>),
     rq_cluster = None, rq_tenant = None, rq_values = (\<lambda>_. None)\<rparr>"

lemma example_codec: "codec_roundtrip example_ext"
proof -
  have enc: "example_encode f = Inr out \<Longrightarrow> \<exists>c. out = [c] \<and> example_letter c = Some f" for f out
    by (auto simp: example_encode_def split: if_splits)
  have "encode_all example_encode fs = Some buf \<Longrightarrow> example_decode (buffer buf) = (somes fs, None)" for fs buf
  proof (induction fs arbitrary: buf rule: somes.induct)
    case (3 f fs)
    from 3(2) obtain out rest where "example_encode f = Inr out" "encode_all example_encode fs = Some rest" "buf = out @ rest"
      by (auto split: sum.splits)
    moreover from this(1) enc obtain c where "out = [c]" "example_letter c = Some f" by blast
    ultimately show ?case using 3(1) by (auto simp: example_decode_def split: if_splits)
  qed (auto simp: example_decode_def)
  then show ?thesis by (simp add: codec_roundtrip_def example_ext_def)
qed

lemmas example_eval = transform_step_def stateless_def NewErrorOnUnsorted_def still_world_def server_transforms_def
  errorOnUnsorted_Transform_def sample_ts_def requireLabel_Transform_def DropEmptyFamilies_def
  errorInvalid_Transform_def OverwriteTimestamps_def read_now_def whitelist_Transform_def elide_Transform_def
  example_metric_def example_defs GetName_def GetValue_def bad_name_def bad_value_def nameLabel_def NewElide_def
  Let_def observeDrift_def driftRange_def Minute_def Second_def Unix_def trunc_div_def wrap64_def

lemma example_chain:
  "\<exists>w' t'. Filter (transform_step example_env)
     ((still_world 100000000000)\<lparr>w_ticks := n\<rparr>, upload_chain (NewErrorOnUnsorted True) [(''_id'', ''c1'')] (- 86300000)
        (server_transforms wl [] []))
     [Some (counter_family ''up'' [Some (example_metric 99000)])] =
   Ret ((w', t'), [if wl = [] then None else Some (counter_family ''up'' [Some (example_metric 100000)])], None) \<and>
   w_now w' = (\<lambda>_. 100000000000)"
  if "wl = [[\<lparr>mt_Name = ''__name__'', mt_Matches = (\<lambda>v. v = ''up'')\<rparr>]] \<or> wl = []"
  using that by (elim disjE) (simp_all add: upload_chain_def example_eval)

text \<open>The requests for which the route is run.\<close>

definition example_upload :: "request \<Rightarrow> bool" where
  "example_upload r \<longleftrightarrow>
     (\<exists>i. rq_client r = Some (Some \<lparr>cl_ID = i, cl_Labels = [(''_id'', ''c1'')]\<rparr>)) \<and> rq_body r = buffer ''A''"

lemma example_request_upload: "example_upload example_request"
  by (simp add: example_upload_def example_request_def)

lemma example_validated:
  assumes up: "example_upload r" and enc: "encode_all example_encode out = Some buf"
    and ch: "Filter (transform_step example_env)
     ((still_world 100000000000)\<lparr>w_ticks := Suc n\<rparr>, upload_chain (NewErrorOnUnsorted True) [(''_id'', ''c1'')] (- 86300000)
        (server_transforms wl [] [])) [Some (counter_family ''up'' [Some (example_metric 99000)])] = Ret ((w', t'), out, None)"
  shows "Validate example_ext (24 * Hour) 0 nxt
       (s\<lparr>sv_base := Some (server_transforms wl [] []), sv_world := (still_world 100000000000)\<lparr>w_ticks := n\<rparr>\<rparr>)
       (WithClusterID r ''c1'') =
     nxt (s\<lparr>sv_world := w', sv_base := base_after (Some (server_transforms wl [] [])) t'\<rparr>)
       ((WithClusterID r ''c1'')\<lparr>rq_body := buffer buf\<rparr>)"
proof -
  from up obtain i where r: "rq_client r = Some (Some \<lparr>cl_ID = i, cl_Labels = [(''_id'', ''c1'')]\<rparr>)" "rq_body r = buffer ''A''"
    by (auto simp: example_upload_def)
  have age: "0 < 24 * Hour" by (simp add: Hour_def Minute_def Second_def)
  have mn: "min_ms (100000000000 - 24 * Hour) = - 86300000"
    by (simp add: min_ms_def Hour_def Minute_def Second_def Unix_def wrap64_def)
  have tr: "validate_transforms (24 * Hour) \<lparr>cl_ID = i, cl_Labels = [(''_id'', ''c1'')]\<rparr> (Some (server_transforms wl [] []))
      ((still_world 100000000000)\<lparr>w_ticks := n\<rparr>) =
    (upload_chain (NewErrorOnUnsorted True) [(''_id'', ''c1'')] (- 86300000) (server_transforms wl [] []),
     (still_world 100000000000)\<lparr>w_ticks := Suc n\<rparr>)"
    by (simp add: validate_transforms_eq [OF age] read_now_def still_world_def mn)
  have rd: "ReadAll room [] (buffer ''A'') = (''A'', None)" for room by simp
  have pk: "Pack [Some (counter_family ''up'' [Some (example_metric 99000)])] =
      [Some (counter_family ''up'' [Some (example_metric 99000)])]"
    by (simp add: Pack_filter empty_family_def counter_family_def)
  have ext: "x_room example_ext = (\<lambda>_. 512)" "x_decode example_ext = (\<lambda>_. example_decode)"
    "x_encode example_ext = (\<lambda>_. example_encode)" "x_env example_ext = example_env"
    by (simp_all add: example_ext_def)
  have dec: "example_decode (buffer ''A'') = ([counter_family ''up'' [Some (example_metric 99000)]], None)"
    by (simp add: example_decode_def example_letter_def)
  show ?thesis
    by (simp add: Validate_def FromContext_def r WithClusterID_def rd tr ext dec pk ch enc del: Filter.simps)
qed

lemma example_forwarded:
  assumes "sv_upstream s = []" and "w_now (sv_world s) = (\<lambda>_. 100000000000)"
  shows "\<exists>s'. ForwardHandler example_ext url tenant s ((WithClusterID r ''c1'')\<lparr>rq_body := buffer ''B''\<rparr>) =
    Ret (s', empty_response) \<and> sv_upstream s' = [(url, tenant, ''data'')]"
proof -
  let ?p = "\<lparr>pm_ClusterID = ''c1'', pm_Families = [Some (counter_family ''up'' [Some (example_metric 100000)])]\<rparr>"
  have t: "trunc_div (UnixNano 100000000000) Millisecond = 100000"
    by (simp add: trunc_div_def UnixNano_def Millisecond_def wrap64_def)
  have "\<exists>ts. convertToTimeseries (insertion_sort label_less) n ?p 100000000000 = Ret (n, Inr [ts])" for n
    unfolding convertToTimeseries_def t
    by (simp add: conv_metric_def sample_value_def sortLabels_def nameLabelName_def label_less_def example_defs
        example_metric_def)
  then obtain ts where conv:
    "convertToTimeseries (insertion_sort label_less) (sv_overwritten s) ?p 100000000000 = Ret (sv_overwritten s, Inr [ts])"
    by blast
  have pk: "Pack [Some (counter_family ''up'' [Some (example_metric 100000)])] =
      [Some (counter_family ''up'' [Some (example_metric 100000)])]"
    by (simp add: Pack_filter empty_family_def counter_family_def)
  show ?thesis using assms conv
    by (simp add: ForwardHandler_def ClusterIDFromContext_def WithClusterID_def example_ext_def example_decode_def
        example_letter_def read_now_def pk forward_send_def forward_answer_def count_request_def trunc_div_def Let_def)
qed

lemma example_route_at:
  assumes "example_upload r"
  shows "\<exists>store' s'. upload_route example_ext bucket_new bucket_allow ''_id'' 10 0 ''http://up'' ''tenant''
      (Map.empty, example_server\<lparr>sv_world := (still_world 100000000000)\<lparr>w_ticks := n\<rparr>\<rparr>) r = Ret ((store', s'), empty_response) \<and>
    sv_upstream s' = [(''http://up'', ''tenant'', ''data'')]"
proof -
  let ?wl = "[[\<lparr>mt_Name = ''__name__'', mt_Matches = (\<lambda>v. v = ''up'')\<rparr>]]"
  have enc: "encode_all example_encode [Some (counter_family ''up'' [Some (example_metric 100000)])] = Some ''B''"
    by (simp add: example_encode_def example_letter_def example_metric_def example_defs)
  obtain w' t' where ch: "Filter (transform_step example_env)
     ((still_world 100000000000)\<lparr>w_ticks := Suc (Suc n)\<rparr>, upload_chain (NewErrorOnUnsorted True) [(''_id'', ''c1'')] (- 86300000)
        (server_transforms ?wl [] [])) [Some (counter_family ''up'' [Some (example_metric 99000)])] =
     Ret ((w', t'), [Some (counter_family ''up'' [Some (example_metric 100000)])], None)" and w': "w_now w' = (\<lambda>_. 100000000000)"
    using example_chain [of ?wl "Suc (Suc n)"] by auto
  have base: "example_server\<lparr>sv_base := Some (server_transforms ?wl [] []), sv_world := w\<rparr> = example_server\<lparr>sv_world := w\<rparr>" for w
    by (simp add: example_server_def)
  let ?s1 = "example_server\<lparr>sv_world := w', sv_base := base_after (Some (server_transforms ?wl [] [])) t'\<rparr>"
  have v: "Validate example_ext (24 * Hour) 0 (ForwardHandler example_ext ''http://up'' ''tenant'')
      (example_server\<lparr>sv_world := (still_world 100000000000)\<lparr>w_ticks := Suc n\<rparr>\<rparr>) (WithClusterID r ''c1'') =
     ForwardHandler example_ext ''http://up'' ''tenant'' ?s1 ((WithClusterID r ''c1'')\<lparr>rq_body := buffer ''B''\<rparr>)"
    by (rule example_validated [OF assms enc ch, where s = example_server, unfolded base])
  have s1: "sv_upstream ?s1 = []" "w_now (sv_world ?s1) = (\<lambda>_. 100000000000)"
    using w' by (simp_all add: example_server_def)
  from example_forwarded [OF s1] obtain s' where
    f: "ForwardHandler example_ext ''http://up'' ''tenant'' ?s1 ((WithClusterID r ''c1'')\<lparr>rq_body := buffer ''B''\<rparr>) =
      Ret (s', empty_response)" "sv_upstream s' = [(''http://up'', ''tenant'', ''data'')]" by blast
  have sn: "(WithClusterID r ''c1'')\<lparr>rq_body := rq_body r\<rparr> =
      WithClusterID r ''c1''" by (simp add: WithClusterID_def)
  from assms obtain i where ctx: "FromContext r = (Some \<lparr>cl_ID = i, cl_Labels = [(''_id'', ''c1'')]\<rparr>, True)"
    by (auto simp: FromContext_def example_upload_def)
  have now: "read_now ((still_world 100000000000)\<lparr>w_ticks := n\<rparr>) = (100000000000, (still_world 100000000000)\<lparr>w_ticks := Suc n\<rparr>)"
    by (simp add: read_now_def still_world_def)
  have sr: "x_snappyReader example_ext = (\<lambda>b. b)" by (simp add: example_ext_def)
  have "upload_route example_ext bucket_new bucket_allow ''_id'' 10 0 ''http://up'' ''tenant''
      (Map.empty, example_server\<lparr>sv_world := (still_world 100000000000)\<lparr>w_ticks := n\<rparr>\<rparr>) r =
    Ret ((Map.empty(''_id'' := None, ''c1'' \<mapsto> (10, Some 100000000000)), s'), empty_response)"
    using v f(1)
    by (simp add: upload_route_def ClusterID_def ctx map_get_def Ratelimit_def now limit_def bucket_new_def
        bucket_allow_def Snappy_def sr sn Let_def)
  with f(2) show ?thesis by blast
qed

lemma example_route:
  assumes "example_upload r"
  shows "\<exists>store' s'. upload_route example_ext bucket_new bucket_allow ''_id'' 10 0 ''http://up'' ''tenant''
      (Map.empty, example_server) r = Ret ((store', s'), empty_response) \<and>
    sv_upstream s' = [(''http://up'', ''tenant'', ''data'')]"
  using example_route_at [OF assms, of 0] by (simp add: example_server_def still_world_def)




text \<open>
  an upload over the size limit is refused with status 413 before anything else is looked
  at: nothing is decoded, nothing is forwarded, and the state of the server does not change.
\<close>

theorem Validate_refuses_large:
  assumes "rq_client r = Some c" and "rq_body r = Stream st" and "proper_stream st"
    and "0 < limitBytes" and "limitBytes < int (length (concat (st_chunks st)))"
  shows "Validate x maxAge limitBytes nxt s r =
    Ret (s, http_Error (Text ''failed to read request body'') StatusRequestEntityTooLarge)"
proof -
  have "limited_end st limitBytes = ErrTooLong" using assms(4,5) by (simp add: limited_end_def)
  with ReadAll_limited [OF assms(3), of "x_room x" limitBytes]
  have "ReadAll (x_room x) [] (NewLimitReadCloser (rq_body r) limitBytes) =
      (take (nat limitBytes) (concat (st_chunks st)), Some ErrTooLong)"
    by (simp add: assms(2) NewLimitReadCloser_def LimitReader_def)
  with assms(1,4) show ?thesis by (simp add: Validate_def FromContext_def)
qed

theorem Validate_refuses_large_witness:
  "Validate example_ext 0 3 (\<lambda>s r. Panic NilDeref) example_server (example_request\<lparr>rq_body := buffer ''AAAA''\<rparr>) =
    Ret (example_server, http_Error (Text ''failed to read request body'') 413)"
proof -
  let ?st = "\<lparr>st_chunks = [''AAAA''], st_end = EOF, st_eager = False\<rparr>"
  have "Validate example_ext 0 3 (\<lambda>s r. Panic NilDeref) example_server (example_request\<lparr>rq_body := buffer ''AAAA''\<rparr>) =
    Ret (example_server, http_Error (Text ''failed to read request body'') StatusRequestEntityTooLarge)"
    by (rule Validate_refuses_large [where st = ?st])
      (simp_all add: example_request_def buffer_def proper_stream_def)
  then show ?thesis by (simp add: StatusRequestEntityTooLarge_def)
qed

end
