(* ===== verification/Delivery.thy ===== *)
theory Delivery
  imports Upload
begin

text \<open>
  The functional counterpart of the safety properties of \<open>Upload\<close>: the chain of
  \<^verbatim>\<open>Validate\<close>, \<^verbatim>\<open>ForwardHandler\<close> and the whole \<^verbatim>\<open>/upload\<close> route do
  deliver what they should.  Each layer gets a lemma that it runs to its end on good input
  (\<open>upload_chain_run\<close>, \<open>upload_Filter_run\<close>, \<open>Validate_hands_on\<close>,
  \<open>ForwardHandler_received\<close>, \<open>upload_route_admits\<close>).
\<close>

section \<open>What is delivered\<close>

text \<open>The metrics of a family, and of a request, that the whitelist lets pass, in order.\<close>

definition kept :: "matcher list list \<Rightarrow> family \<Rightarrow> metric list" where
  "kept wl f = filter (whitelisted wl (family_GetName (Some f))) (somes (f_Metric f))"

definition kept_metrics :: "matcher list list \<Rightarrow> family list \<Rightarrow> (family \<times> metric) list" where
  "kept_metrics wl fams = concat (map (\<lambda>f. map (Pair f) (kept wl f)) fams)"

text \<open>
  A family that is delivered: it is accepted, none of its metrics is nil, what is kept of it can be
  converted, and the label transformer is not given a family the whitelist has left a nil in.
\<close>

definition has_value :: "metric \<Rightarrow> bool" where
  "has_value m \<longleftrightarrow> Option.bind (m_Counter m) c_Value \<noteq> None \<or> Option.bind (m_Gauge m) g_Value \<noteq> None \<or>
     Option.bind (m_Untyped m) u_Value \<noteq> None"

definition values_kept :: "matcher list list \<Rightarrow> family \<Rightarrow> bool" where
  "values_kept wl f \<longleftrightarrow>
     (kept wl f \<noteq> [] \<longrightarrow> the (f_Type f) \<in> {COUNTER, GAUGE, UNTYPED} \<and> list_all has_value (kept wl f))"

definition label_safe :: "matcher list list \<Rightarrow> (string \<times> string) list \<Rightarrow> family \<Rightarrow> bool" where
  "label_safe wl labels f \<longleftrightarrow> labels = [] \<or> kept wl f = [] \<or> kept wl f = somes (f_Metric f)"

definition deliverable ::
  "matcher list list \<Rightarrow> (string \<times> string) list \<Rightarrow> (string \<times> string) list \<Rightarrow> int \<Rightarrow> family \<Rightarrow> bool" where
  "deliverable wl labels kvs mn f \<longleftrightarrow>
     acceptable kvs mn f \<and> None \<notin> set (f_Metric f) \<and> label_safe wl labels f \<and> values_kept wl f"

lemma whitelisted_restamp [simp]: "whitelisted wl n (restamp t m) = whitelisted wl n m"
  by (simp add: whitelisted_def satisfies_def restamp_def)

lemma accepted_family_kept:
  "accepted_family wl labels el t f = f\<lparr>f_Metric := map (\<lambda>m. Some (relabel labels el (restamp t m))) (kept wl f)\<rparr>"
  by (simp add: accepted_family_def kept_def)

section \<open>The chain accepts\<close>

text \<open>What single transformers do, as equations that also cover a refusal.\<close>

lemma whitelist_step:
  "basic_Transform e (w, T_Whitelist wl) (Some f) = Ret ((w, T_Whitelist wl),
     Some (f\<lparr>f_Metric := map (\<lambda>m. case m of None \<Rightarrow> None
        | Some x \<Rightarrow> if whitelisted wl (family_GetName (Some f)) x then m else None) (f_Metric f)\<rparr>), kept wl f \<noteq> [], None)"
  by (auto simp: stateless_def whitelist_Transform_eq kept_def Let_def filter_empty_conv simp del: family_GetName_simps)

lemma all_kept:
  assumes "None \<notin> set (f_Metric f)" and "kept wl f = somes (f_Metric f)"
  shows "map (\<lambda>m. case m of None \<Rightarrow> None
        | Some x \<Rightarrow> if whitelisted wl (family_GetName (Some f)) x then m else None) (f_Metric f) = f_Metric f"
proof (rule map_idI)
  fix m assume "m \<in> set (f_Metric f)"
  with assms(1) obtain x where "m = Some x" "x \<in> set (somes (f_Metric f))"
    by (metis not_None_eq set_somes)
  moreover have "\<forall>x \<in> set (somes (f_Metric f)). whitelisted wl (family_GetName (Some f)) x"
    using assms(2) unfolding kept_def filter_id_conv .
  ultimately show "(case m of None \<Rightarrow> None
        | Some x \<Rightarrow> if whitelisted wl (family_GetName (Some f)) x then m else None) = m" by (simp del: family_GetName_simps)
qed

lemma label_step:
  "None \<notin> set (f_Metric f) \<Longrightarrow> basic_Transform e (w, T_Label (NewLabel labels False)) (Some f) =
     Ret ((w, T_Label (NewLabel labels False)),
       Some (f\<lparr>f_Metric := map (map_option (\<lambda>m. m\<lparr>m_Label := appendLabels (m_Label m) (ls_labels (NewLabel labels False))\<rparr>))
                (f_Metric f)\<rparr>), True, None)"
  by (simp add: label_fixed_ok NewLabel_def del: basic_Transform.simps)

lemma elide_step:
  "basic_Transform e (w, T_Elide S) (Some f) =
     Ret ((w\<lparr>w_elideSkipped := w_elideSkipped w + count_list (f_Metric f) None\<rparr>, T_Elide S),
       Some (f\<lparr>f_Metric := map (\<lambda>m. Some (m\<lparr>m_Label := filter (\<lambda>l. GetName l \<notin> S) (m_Label m)\<rparr>))
                (somes (f_Metric f))\<rparr>), True, None)"
  by (simp add: elide_ok del: basic_Transform.simps)

text \<open>
  The chains run to their end; whether they accept a family is whether something of it is kept.
\<close>

lemma server_transforms_run:
  assumes "None \<notin> set (f_Metric f)" and "label_safe wl labels f"
  shows "\<exists>w' t' g. Transform e w (server_transforms wl labels el) (Some f) = Ret ((w', t'), Some g, kept wl f \<noteq> [], None) \<and>
    w_now w' = w_now w"
proof (cases "labels = [] \<or> kept wl f = []")
  case True
  then show ?thesis
    by (auto simp: server_transforms_def Let_def whitelist_step elide_step simp del: basic_Transform.simps family_GetName_simps)
next
  case False
  with assms(2) have "kept wl f = somes (f_Metric f)" by (simp add: label_safe_def)
  note all = all_kept [OF assms(1) this]
  from False show ?thesis
    by (simp add: server_transforms_def Let_def whitelist_step elide_step label_step [OF assms(1)] all
        del: basic_Transform.simps family_GetName_simps)
qed

lemma overwrite_loop_now: "overwrite_loop t w ms = Ret (w', out) \<Longrightarrow> w_now w' = w_now w"
  by (induction t w ms arbitrary: out rule: overwrite_loop.induct)
    (auto simp: Let_def observeDrift_def read_now_def split: if_splits)

text \<open>The time in milliseconds that reading \<open>n\<close> of a clock gives.\<close>

definition clock_ms :: "(nat \<Rightarrow> time) \<Rightarrow> nat \<Rightarrow> int" where
  "clock_ms clock n = wrap64 (Unix (clock n) * 1000)"

lemma upload_chain_run:
  assumes "acceptable kvs mn f" and "None \<notin> set (f_Metric f)" and "label_safe wl labels f"
    and "upload_state kvs mn (server_transforms wl labels el) t"
  shows "\<exists>w' t' g. Transform e w t (Some f) = Ret ((w', t'), Some g, kept wl f \<noteq> [], None) \<and>
    w_now w' = w_now w \<and> upload_state kvs mn (server_transforms wl labels el) t' \<and>
    (kept wl f \<noteq> [] \<longrightarrow> (\<exists>n. g = accepted_family wl labels el (clock_ms (w_now w) n) f))"
proof -
  let ?base = "server_transforms wl labels el"
  from assms(4) obtain eu where t: "eu_require eu" "t = upload_chain eu kvs mn ?base"
    by (auto simp: upload_state_def)
  let ?eu = "eu\<lparr>eu_timestamp := fst (unsorted_loop (eu_require eu) 0 (f_Metric f))\<rparr>"
  have stamped: "\<forall>m \<in> set (somes (f_Metric f)). m_TimestampMs m \<noteq> None"
    using assms(1) by (auto simp: acceptable_def valid_family_def list_all_iff valid_sample_def)
  have eu: "basic_Transform e (w, T_ErrorOnUnsorted eu) (Some f) = Ret ((w, T_ErrorOnUnsorted ?eu), Some f, True, None)"
    using assms(1) stamped by (simp add: unsorted_ok acceptable_def del: basic_Transform.simps)
  have req: "basic_Transform e (w, T_RequireLabel kvs) (Some f) = Ret ((w, T_RequireLabel kvs), Some f, True, None)"
    using assms(1) by (simp add: require_ok acceptable_def del: basic_Transform.simps)
  have empty: "basic_Transform e (w, T_DropEmptyFamilies) (Some f) = Ret ((w, T_DropEmptyFamilies), Some f, True, None)"
    using assms(1) by (simp add: empty_ok acceptable_def del: basic_Transform.simps)
  have inv: "basic_Transform e (w, T_ErrorInvalid mn) (Some f) = Ret ((w, T_ErrorInvalid mn), Some f, True, None)"
    using assms(1) by (simp add: invalid_ok acceptable_def del: basic_Transform.simps)
  let ?u = "wrap64 (Unix (w_now w (w_ticks w)) * 1000)"
  let ?f = "f\<lparr>f_Metric := map (map_option (restamp ?u)) (f_Metric f)\<rparr>"
  obtain w1 where loop: "overwrite_loop ?u (snd (read_now w)) (f_Metric f) = Ret (w1, map (map_option (restamp ?u)) (f_Metric f))"
    using overwrite_loop_total [OF assms(2), of ?u "snd (read_now w)"] by (auto simp: restamp_def [abs_def])
  then have ow: "basic_Transform e (w, T_OverwriteTimestamps) (Some f) = Ret ((w1, T_OverwriteTimestamps), Some ?f, True, None)"
    by (simp add: OverwriteTimestamps_def read_now_def Let_def)
  have now: "w_now w1 = w_now w" using overwrite_loop_now [OF loop] by (simp add: read_now_def)
  have kept: "kept wl ?f = map (restamp ?u) (kept wl f)"
    by (simp add: kept_def filter_map comp_def)
  have "None \<notin> set (f_Metric ?f)" using assms(2) by auto
  moreover have "label_safe wl labels ?f" using assms(3) kept by (auto simp: label_safe_def)
  ultimately obtain w' t' g where
    base: "Transform e w1 ?base (Some ?f) = Ret ((w', t'), Some g, kept wl f \<noteq> [], None)"
    and "w_now w' = w_now w"
    using server_transforms_run [of ?f wl labels e w1 el] kept now by auto
  obtain t2 where run: "Transform e w t (Some f) = Ret ((w', t2), Some g, kept wl f \<noteq> [], None)"
    by (simp add: t(2) upload_chain_def eu req empty inv ow base del: basic_Transform.simps)
  moreover have "upload_state kvs mn ?base t2" by (rule upload_state_step [OF run assms(4)])
  moreover have "\<exists>n. g = accepted_family wl labels el (clock_ms (w_now w) n) f" if "kept wl f \<noteq> []"
    using upload_chain_accepts(1) [of e w eu kvs mn wl labels el f w' t2 g] run that t(2) by (auto simp: clock_ms_def)
  ultimately show ?thesis using \<open>w_now w' = w_now w\<close> by blast
qed


text \<open>What \<^verbatim>\<open>Filter\<close> leaves in the place of a family.\<close>

definition delivers ::
  "(nat \<Rightarrow> time) \<Rightarrow> matcher list list \<Rightarrow> (string \<times> string) list \<Rightarrow> string list \<Rightarrow> family \<Rightarrow> family option \<Rightarrow> bool" where
  "delivers clock wl labels el f g \<longleftrightarrow>
     (if kept wl f = [] then g = None else \<exists>n. g = Some (accepted_family wl labels el (clock_ms clock n) f))"

lemma upload_Filter_run:
  assumes "list_all (deliverable wl labels kvs mn) fams" and "upload_state kvs mn (server_transforms wl labels el) t"
  shows "\<exists>s' out. Filter (transform_step e) (w, t) (map Some fams) = Ret (s', out, None) \<and>
    list_all2 (delivers (w_now w) wl labels el) fams out"
  using assms
proof (induction fams arbitrary: w t)
  case (Cons f fams)
  then obtain w' t' g where
    run: "Transform e w t (Some f) = Ret ((w', t'), Some g, kept wl f \<noteq> [], None)" "w_now w' = w_now w"
      "upload_state kvs mn (server_transforms wl labels el) t'"
      "kept wl f \<noteq> [] \<longrightarrow> (\<exists>n. g = accepted_family wl labels el (clock_ms (w_now w) n) f)"
    using upload_chain_run [of kvs mn f wl labels el t e w] by (auto simp: deliverable_def)
  from Cons.IH [OF _ run(3), of w'] Cons.prems(1) run(2) obtain s' out where
    "Filter (transform_step e) (w', t') (map Some fams) = Ret (s', out, None)"
    "list_all2 (delivers (w_now w) wl labels el) fams out"
    by auto
  moreover have "transform_step e (w, t) (Some f) = Ret ((w', t'), Some g, kept wl f \<noteq> [], None)"
    using run(1) by (simp add: transform_step_def)
  moreover have "delivers (w_now w) wl labels el f (if kept wl f \<noteq> [] then Some g else None)"
    using run(4) by (simp add: delivers_def)
  ultimately show ?case
    by (intro exI [of _ s'] exI [of _ "(if kept wl f \<noteq> [] then Some g else None) # out"]) simp
qed simp

lemma deliverable_Pack: "list_all (deliverable wl labels kvs mn) fams \<Longrightarrow> Pack (map Some fams) = map Some fams"
  by (auto simp: Pack_filter filter_id_conv list_all_iff deliverable_def acceptable_def empty_family_def)

lemma delivered_Pack:
  "list_all2 (delivers clock wl labels el) fams out \<Longrightarrow> Pack (map Some (somes out)) = map Some (somes out)"
proof -
  assume all: "list_all2 (delivers clock wl labels el) fams out"
  have "\<not> empty_family (Some g)" if "g \<in> set (somes out)" for g
  proof -
    from that all obtain f where "delivers clock wl labels el f (Some g)"
      by (metis list_all2_conv_all_nth in_set_conv_nth set_somes)
    then show ?thesis by (auto simp: delivers_def accepted_family_kept empty_family_def split: if_splits)
  qed
  then show ?thesis by (auto simp: Pack_filter filter_id_conv)
qed

text \<open>What became of a metric on its way.\<close>

definition moved ::
  "(nat \<Rightarrow> time) \<Rightarrow> (string \<times> string) list \<Rightarrow> string list \<Rightarrow> family \<times> metric \<Rightarrow> family \<times> metric \<Rightarrow> bool" where
  "moved clock labels el a b \<longleftrightarrow>
     f_Name (fst b) = f_Name (fst a) \<and> f_Type (fst b) = f_Type (fst a) \<and>
     (\<exists>n. snd b = relabel labels el (restamp (clock_ms clock n) (snd a)))"

lemma delivered_metrics:
  "list_all2 (delivers clock wl labels el) fams out \<Longrightarrow>
     list_all2 (moved clock labels el) (kept_metrics wl fams) (metrics_of (map Some (somes out)))"
proof (induction fams out rule: list_all2_induct)
  case (Cons f fams g out)
  show ?case
  proof (cases "kept wl f = []")
    case True
    with Cons show ?thesis by (simp add: delivers_def kept_metrics_def)
  next
    case False
    with Cons(1) obtain n where g: "g = Some (accepted_family wl labels el (clock_ms clock n) f)"
      by (auto simp: delivers_def)
    let ?u = "clock_ms clock n"
    have ms: "somes (f_Metric (accepted_family wl labels el ?u f)) = map (\<lambda>m. relabel labels el (restamp ?u m)) (kept wl f)"
      using somes_map_Some [of "map (\<lambda>m. relabel labels el (restamp ?u m)) (kept wl f)"]
      by (simp add: accepted_family_kept comp_def)
    have "list_all2 (moved clock labels el) (map (Pair f) (kept wl f))
        (map (Pair (accepted_family wl labels el ?u f)) (map (\<lambda>m. relabel labels el (restamp ?u m)) (kept wl f)))"
      by (auto simp: list.rel_map moved_def accepted_family_kept intro: list.rel_refl)
    with Cons.IH g ms show ?thesis by (auto simp: kept_metrics_def intro: list_all2_appendI)
  qed
qed (simp add: kept_metrics_def)

lemma relabel_labels:
  assumes "l \<in> set (m_Label (relabel labels el m))" and "\<forall>l \<in> set (m_Label m). \<exists>n v. l = Some (mk_label n v)"
  shows "\<exists>n v. l = Some (mk_label n v)"
  using assms by (fastforce simp: relabel_def split: if_splits dest!: appendLabels_mem elim!: NewLabel_pairs)

lemma moved_converts:
  assumes "converts f m" and "moved clock labels el (f, m) (g, m')"
  shows "converts g m'"
proof -
  from assms(2) obtain n where m': "m' = relabel labels el (restamp (clock_ms clock n) m)"
    and g: "f_Name g = f_Name f" "f_Type g = f_Type f" by (auto simp: moved_def)
  have "sample_value ty m' = sample_value ty m" "m_TimestampMs m' = Some (clock_ms clock n)" for ty
    by (simp_all add: m' sample_value_def relabel_def restamp_def cong: metric_type.case_cong)
  moreover have "\<forall>l \<in> set (m_Label m'). \<exists>n v. l = Some (mk_label n v)"
    using relabel_labels [of _ labels el "restamp (clock_ms clock n) m"] assms(1)
    unfolding m' by (auto simp: converts_def restamp_def)
  ultimately show ?thesis using assms(1) g by (auto simp: converts_def)
qed

lemma deliverable_converts:
  assumes "deliverable wl labels kvs mn f" and "m \<in> set (kept wl f)"
  shows "converts f m"
proof (rule valid_sample_converts)
  show "valid_family mn f" using assms(1) by (simp add: deliverable_def acceptable_def)
  show "m \<in> set (somes (f_Metric f))" using assms(2) by (simp add: kept_def)
  from assms have "kept wl f \<noteq> []" by auto
  with assms show "the (f_Type f) \<in> {COUNTER, GAUGE, UNTYPED}"
    "Option.bind (m_Counter m) c_Value \<noteq> None \<or> Option.bind (m_Gauge m) g_Value \<noteq> None \<or>
      Option.bind (m_Untyped m) u_Value \<noteq> None"
    by (auto simp: deliverable_def values_kept_def list_all_iff has_value_def)
qed


lemma delivered_converts:
  assumes "list_all2 (delivers clock wl labels el) fams out" and "list_all (deliverable wl labels kvs mn) fams"
    and "g \<in> set (somes out)"
  shows "None \<notin> set (f_Metric g) \<and> (\<forall>m \<in> set (somes (f_Metric g)). converts g m)"
proof -
  from assms(1,3) obtain f where f: "f \<in> set fams" "delivers clock wl labels el f (Some g)"
    by (metis list_all2_conv_all_nth in_set_conv_nth set_somes)
  then obtain n where g: "g = accepted_family wl labels el (clock_ms clock n) f"
    by (auto simp: delivers_def split: if_splits)
  from f(1) assms(2) have "deliverable wl labels kvs mn f" by (simp add: list_all_iff)
  have "converts g (relabel labels el (restamp (clock_ms clock n) m))" if "m \<in> set (kept wl f)" for m
  proof (rule moved_converts)
    from f(1) assms(2) that show "converts f m" by (auto simp: list_all_iff intro: deliverable_converts)
    show "moved clock labels el (f, m) (g, relabel labels el (restamp (clock_ms clock n) m))"
      by (auto simp: moved_def g accepted_family_kept)
  qed
  with g show ?thesis by (auto simp: accepted_family_kept set_somes)
qed

text \<open>The series the upstream gets for a metric of the request.\<close>

definition series_for ::
  "label_sorter \<Rightarrow> int \<Rightarrow> (nat \<Rightarrow> time) \<Rightarrow> (string \<times> string) list \<Rightarrow> string list \<Rightarrow> family \<times> metric \<Rightarrow> timeseries \<Rightarrow> bool" where
  "series_for srt t clock labels el fm ts \<longleftrightarrow>
     (\<exists>n. series_of srt t (fst fm) (relabel labels el (restamp (clock_ms clock n) (snd fm))) ts)"

lemma series_of_header:
  "f_Name g = f_Name f \<Longrightarrow> f_Type g = f_Type f \<Longrightarrow> series_of srt t g m ts = series_of srt t f m ts"
  by (simp add: series_of_def)

section \<open>The handlers deliver\<close>

text \<open>
  An upstream that answers every request with a 2xx status, and what it and the server's counter of
  samples then see of an upload: nothing, if there is no series, and one request with all of them
  otherwise.
\<close>

definition upstream_up :: "'u ext \<Rightarrow> string \<Rightarrow> bool" where
  "upstream_up x url \<longleftrightarrow>
     x_newRequest x url = None \<and> (\<forall>tss. \<exists>data. x_marshal x tss = Inr data) \<and>
     (\<forall>u p. \<exists>status u'. x_do x u p = (Inr status, u') \<and> 200 \<le> status \<and> status < 300)"

definition upload_received :: "'u ext \<Rightarrow> string \<Rightarrow> string \<Rightarrow> 'u server \<Rightarrow> 'u server \<Rightarrow> timeseries list \<Rightarrow> bool" where
  "upload_received x url tenantID s s' tss \<longleftrightarrow>
     (if tss = [] then sv_upstream s' = sv_upstream s else sent x url tenantID (sv_upstream s) (sv_upstream s') tss) \<and>
     sv_forwardSamples s' = sv_forwardSamples s + length tss"

lemma sample_count_series: "list_all2 (\<lambda>(f, m). series_of srt t f m) fms tss \<Longrightarrow> sample_count tss = length tss"
  by (induction fms tss rule: list_all2_induct) (auto simp: series_of_def)

lemma forward_send_received:
  assumes "upstream_up x url" and "tss \<noteq> []" and "sample_count tss = length tss"
  shows "\<exists>s'. forward_send x url tenantID tss s = (s', empty_response) \<and> upload_received x url tenantID s s' tss"
proof -
  from assms(1) obtain data where data: "x_marshal x tss = Inr data" unfolding upstream_up_def by blast
  from assms(1) obtain status u' where up: "x_do x (sv_upstream s) (url, tenantID, x_snappyEncode x data) = (Inr status, u')"
    "200 \<le> status" "status < 300" unfolding upstream_up_def by meson
  then have "trunc_div status 100 = 2" by (simp add: trunc_div_def)
  with assms data up show ?thesis
    by (simp add: forward_send_def forward_answer_def upstream_up_def upload_received_def sent_def count_request_def Let_def)
qed

lemma ForwardHandler_received:
  assumes "ClusterIDFromContext r = (cid, True)" and "x_decode x (rq_header r) (rq_body r) = (gs, None)"
    and "Pack (map Some gs) = map Some gs" and "upstream_up x url"
    and "\<forall>g \<in> set gs. None \<notin> set (f_Metric g) \<and> (\<forall>m \<in> set (somes (f_Metric g)). converts g m)"
  shows "\<exists>s' t tss. ForwardHandler x url tenantID s r = Ret (s', empty_response) \<and> upload_received x url tenantID s s' tss \<and>
    list_all2 (\<lambda>(f, m). series_of (x_sortLabels x) t f m) (metrics_of (map Some gs)) tss"
proof -
  obtain now w1 where now: "read_now (sv_world s) = (now, w1)" by force
  let ?t = "trunc_div (UnixNano now) Millisecond"
  from conv_families_total [OF assms(5)] obtain ow tss where
    conv: "conv_families (x_sortLabels x) ?t (sv_overwritten s) (map Some gs) = Ret (ow, Inr tss)" by blast
  with conv_families_Inr [OF conv] have
    series: "list_all2 (\<lambda>(f, m). series_of (x_sortLabels x) ?t f m) (metrics_of (map Some gs)) tss" by blast
  let ?s2 = "s\<lparr>sv_world := w1, sv_overwritten := ow\<rparr>"
  have run: "ForwardHandler x url tenantID s r =
      (if tss = [] then Ret (?s2, empty_response) else Ret (forward_send x url tenantID tss ?s2))"
    using conv by (simp add: ForwardHandler_def assms(1,2,3) now convertToTimeseries_def Let_def)
  show ?thesis
  proof (cases "tss = []")
    case True
    then have "upload_received x url tenantID s ?s2 tss" by (simp add: upload_received_def)
    with True run series show ?thesis by auto
  next
    case False
    from forward_send_received [OF assms(4) False sample_count_series [OF series]] obtain s' where
      "forward_send x url tenantID tss ?s2 = (s', empty_response)" "upload_received x url tenantID ?s2 s' tss" by blast
    with False run series show ?thesis by (auto simp: upload_received_def)
  qed
qed

text \<open>The time \<^verbatim>\<open>Validate\<close> compares with, in a world whose clock is read next.\<close>

definition oldest_ms :: "duration \<Rightarrow> world \<Rightarrow> int" where
  "oldest_ms maxAge w = min_ms (fst (read_now w) - maxAge)"

lemma encode_all_total:
  "(\<forall>f. Some f \<in> set fs \<longrightarrow> (\<exists>out. enc f = Inr out)) \<Longrightarrow> \<exists>buf. encode_all enc fs = Some buf"
  by (induction enc fs rule: encode_all.induct) force+

lemma Validate_hands_on:
  assumes "rq_client r = Some (Some c)" and "sv_base s = Some (server_transforms wl labels el)" and "0 < maxAge"
    and "ReadAll (x_room x) [] (if limitBytes > 0 then NewLimitReadCloser (rq_body r) limitBytes else rq_body r) = (data, None)"
    and "x_decode x (rq_header r) (buffer data) = (fams, None)"
    and "list_all (deliverable wl labels (cl_Labels c) (oldest_ms maxAge (sv_world s))) fams"
    and "\<forall>f n. f \<in> set fams \<and> kept wl f \<noteq> [] \<longrightarrow>
      (\<exists>out. x_encode x (rq_header r) (accepted_family wl labels el (clock_ms (w_now (sv_world s)) n) f) = Inr out)"
  shows "\<exists>s2 out buf. Validate x maxAge limitBytes nxt s r = nxt s2 (r\<lparr>rq_body := buffer buf\<rparr>) \<and>
    encode_all (x_encode x (rq_header r)) out = Some buf \<and>
    list_all2 (delivers (w_now (sv_world s)) wl labels el) fams out \<and>
    sv_upstream s2 = sv_upstream s \<and> sv_forwardSamples s2 = sv_forwardSamples s"
proof -
  define w1 where "w1 = snd (read_now (sv_world s))"
  let ?mn = "oldest_ms maxAge (sv_world s)"
  let ?chain = "upload_chain (NewErrorOnUnsorted True) (cl_Labels c) ?mn (server_transforms wl labels el)"
  have tr: "validate_transforms maxAge c (sv_base s) (sv_world s) = (?chain, w1)"
    by (simp add: assms(2) validate_transforms_eq [OF assms(3)] w1_def oldest_ms_def)
  have "upload_state (cl_Labels c) ?mn (server_transforms wl labels el) ?chain"
    unfolding upload_state_def by (rule exI [of _ "NewErrorOnUnsorted True"]) (simp add: NewErrorOnUnsorted_def)
  from upload_Filter_run [OF assms(6) this, of "x_env x" w1] obtain w2 t2 out where
    filt: "Filter (transform_step (x_env x)) (w1, ?chain) (map Some fams) = Ret ((w2, t2), out, None)"
    and out: "list_all2 (delivers (w_now (sv_world s)) wl labels el) fams out"
    by (auto simp: w1_def read_now_def)
  have "\<exists>o'. x_encode x (rq_header r) g = Inr o'" if "Some g \<in> set out" for g
  proof -
    from that out obtain f where "f \<in> set fams" "delivers (w_now (sv_world s)) wl labels el f (Some g)"
      by (metis list_all2_conv_all_nth in_set_conv_nth)
    with assms(7) show ?thesis by (auto simp: delivers_def split: if_splits)
  qed
  with encode_all_total [of out "x_encode x (rq_header r)"] obtain buf where
    buf: "encode_all (x_encode x (rq_header r)) out = Some buf" by blast
  have "Validate x maxAge limitBytes nxt s r =
      nxt (s\<lparr>sv_world := w2, sv_base := base_after (sv_base s) t2\<rparr>) (r\<lparr>rq_body := buffer buf\<rparr>)"
    using assms(1,4,5) by (simp add: Validate_def FromContext_def tr deliverable_Pack [OF assms(6)] filt buf Let_def)
  with buf out show ?thesis
    by (intro exI [of _ "s\<lparr>sv_world := w2, sv_base := base_after (sv_base s) t2\<rparr>"]) auto
qed


text \<open>A request the limiter lets through reaches \<^verbatim>\<open>Validate\<close>.\<close>

lemma upload_route_admits:
  assumes "rq_client r = Some (Some c)" and "cid = map_get (cl_Labels c) key" and "cid \<noteq> []"
    and "fst (allowN (case store cid of Some l \<Rightarrow> l | None \<Rightarrow> newLimiter d) (fst (read_now (sv_world s))))"
  shows "\<exists>store'. upload_route x newLimiter allowN key d limitBytes url tenantID (store, s) r =
    go_bind (Validate x (24 * Hour) limitBytes (ForwardHandler x url tenantID) (s\<lparr>sv_world := snd (read_now (sv_world s))\<rparr>)
      ((WithClusterID r cid)\<lparr>rq_body :=
         (if EqualFold (rq_header r ''Content-Encoding'') ''snappy'' then x_snappyReader x (rq_body r) else rq_body r)\<rparr>))
      (\<lambda>(s', resp). Ret ((store', s'), resp))"
proof -
  obtain t w where now: "read_now (sv_world s) = (t, w)" by force
  from assms(4) now obtain store' where "limit newLimiter allowN store d t cid = (store', None)"
    by (auto simp: limit_def Let_def case_prod_unfold split: option.splits)
  with assms(1-3) now show ?thesis
    by (auto simp: upload_route_def ClusterID_def FromContext_def Ratelimit_def Let_def Snappy_eq)
qed

text \<open>The whole route.\<close>

lemma upload_runs:
  assumes "rq_client r = Some (Some c)" and "cid = map_get (cl_Labels c) key" and "cid \<noteq> []"
    and "fst (allowN (case store cid of Some l \<Rightarrow> l | None \<Rightarrow> newLimiter d) (fst (read_now (sv_world s))))"
    and "sv_base s = Some (server_transforms wl labels el)"
    and "ReadAll (x_room x) [] (upload_body x limitBytes r) = (data, None)"
    and "x_decode x (rq_header r) (buffer data) = (fams, None)"
    and "list_all (deliverable wl labels (cl_Labels c) (oldest_ms (24 * Hour) (snd (read_now (sv_world s))))) fams"
    and "\<forall>f n. f \<in> set fams \<and> kept wl f \<noteq> [] \<longrightarrow>
      (\<exists>out. x_encode x (rq_header r) (accepted_family wl labels el (clock_ms (w_now (sv_world s)) n) f) = Inr out)"
    and "codec_roundtrip x" and "upstream_up x url"
  shows "\<exists>store' s' t tss. upload_route x newLimiter allowN key d limitBytes url tenantID (store, s) r =
      Ret ((store', s'), empty_response) \<and> upload_received x url tenantID s s' tss \<and>
    list_all2 (series_for (x_sortLabels x) t (w_now (sv_world s)) labels el) (kept_metrics wl fams) tss"
proof -
  let ?s1 = "s\<lparr>sv_world := snd (read_now (sv_world s))\<rparr>"
  let ?bd = "if EqualFold (rq_header r ''Content-Encoding'') ''snappy'' then x_snappyReader x (rq_body r) else rq_body r"
  let ?r = "(WithClusterID r cid)\<lparr>rq_body := ?bd\<rparr>" and ?clock = "w_now (sv_world s)"
  have clock: "w_now (sv_world ?s1) = ?clock" by (simp add: read_now_def)
  obtain s2 out buf where
    V: "Validate x (24 * Hour) limitBytes (ForwardHandler x url tenantID) ?s1 ?r =
        ForwardHandler x url tenantID s2 (?r\<lparr>rq_body := buffer buf\<rparr>)"
      "encode_all (x_encode x (rq_header r)) out = Some buf" and
    out: "list_all2 (delivers ?clock wl labels el) fams out" and
    s2: "sv_upstream s2 = sv_upstream s" "sv_forwardSamples s2 = sv_forwardSamples s"
    using Validate_hands_on [of ?r c ?s1 wl labels el "24 * Hour" x limitBytes data fams "ForwardHandler x url tenantID"] assms
    unfolding clock by (auto simp: upload_body_def Let_def Hour_def Minute_def Second_def split: if_splits)
  let ?gs = "somes out"
  have dec: "x_decode x (rq_header r) (buffer buf) = (?gs, None)"
    using assms(10) V(2) by (auto simp: codec_roundtrip_def)
  note moved = delivered_metrics [OF out]
  have conv: "\<forall>g \<in> set ?gs. None \<notin> set (f_Metric g) \<and> (\<forall>m \<in> set (somes (f_Metric g)). converts g m)"
    using delivered_converts [OF out assms(8)] by blast
  from ForwardHandler_received [of "?r\<lparr>rq_body := buffer buf\<rparr>" cid x ?gs url tenantID s2] obtain s' t tss where
    F: "ForwardHandler x url tenantID s2 (?r\<lparr>rq_body := buffer buf\<rparr>) = Ret (s', empty_response)"
      "upload_received x url tenantID s2 s' tss" and
    series: "list_all2 (\<lambda>(f, m). series_of (x_sortLabels x) t f m) (metrics_of (map Some ?gs)) tss"
    using dec delivered_Pack [OF out] assms(11) conv by (auto simp: ClusterIDFromContext_def WithClusterID_def)
  obtain store' where R: "upload_route x newLimiter allowN key d limitBytes url tenantID (store, s) r =
      Ret ((store', s'), empty_response)"
    using upload_route_admits [where store = store and s = s and allowN = allowN, of r c cid key newLimiter d x limitBytes url tenantID]
      assms(1-4) V(1) F(1)
    by auto
  have step: "moved ?clock labels el a b \<Longrightarrow> (\<lambda>(f, m). series_of (x_sortLabels x) t f m) b ts \<Longrightarrow>
      series_for (x_sortLabels x) t ?clock labels el a ts" for a b ts
    using series_of_header [of "fst b" "fst a"] by (cases b) (auto simp: moved_def series_for_def)
  have "list_all2 (series_for (x_sortLabels x) t ?clock labels el) (kept_metrics wl fams) tss"
    by (rule list_all2_trans [OF _ moved series]) (rule step)
  with R F(2) s2 show ?thesis unfolding upload_received_def by metis
qed


text \<open>The example of \<open>Upload\<close> meets the hypotheses.\<close>

abbreviation example_whitelist :: "matcher list list" where
  "example_whitelist \<equiv> [[\<lparr>mt_Name = ''__name__'', mt_Matches = (\<lambda>v. v = ''up'')\<rparr>]]"

abbreviation example_up :: "int \<Rightarrow> family" where
  "example_up t \<equiv> counter_family ''up'' [Some (example_metric t)]"

lemma example_kept: "kept example_whitelist (example_up t) = [example_metric t]"
proof -
  have "whitelisted example_whitelist ''up'' m" for m by (simp add: whitelisted_def satisfies_def nameLabel_def)
  then show ?thesis by (simp add: kept_def counter_family_def)
qed

lemma example_oldest: "oldest_ms (24 * Hour) (snd (read_now (sv_world example_server))) = - 86300000"
  by (simp add: oldest_ms_def example_server_def still_world_def read_now_def min_ms_def Hour_def Minute_def Second_def
      Unix_def wrap64_def)

lemma example_values: "label_safe example_whitelist [] (example_up t)" "values_kept example_whitelist (example_up t)"
  unfolding label_safe_def values_kept_def example_kept
  by (simp_all add: has_value_def example_metric_def example_defs)

lemma example_upload_read: "ReadAll (x_room example_ext) [] (upload_body example_ext 0 example_request) = (''A'', None)"
  using ReadAll_eof [of "buffer ''A''" _ "[]"] by (simp add: upload_body_def example_request_def example_ext_def buffer_def)

lemma example_decoded: "x_decode example_ext h (buffer ''A'') = ([example_up 99000], None)"
  by (simp add: example_ext_def example_decode_def example_letter_def)

lemma example_encodes:
  "\<forall>f n. f \<in> set [example_up 99000] \<and> kept example_whitelist f \<noteq> [] \<longrightarrow> (\<exists>out. x_encode example_ext h
     (accepted_family example_whitelist [] [] (clock_ms (w_now (sv_world example_server)) n) f) = Inr out)"
proof -
  have "accepted_family example_whitelist [] [] 100000 (example_up 99000) = example_up 100000"
    by (simp add: accepted_family_kept example_kept)
      (simp add: counter_family_def relabel_def restamp_def example_metric_def counter_metric_def)
  moreover have "clock_ms (w_now (sv_world example_server)) n = 100000" for n
    by (simp add: clock_ms_def example_server_def still_world_def Unix_def Second_def wrap64_def)
  ultimately show ?thesis by (auto simp: example_ext_def example_encode_def example_letter_def)
qed

lemma example_upstream_up: "upstream_up example_ext ''http://up''"
  by (simp add: upstream_up_def example_ext_def)

lemmas example_state = example_request_def example_server_def map_get_def bucket_allow_def bucket_new_def

section \<open>Properties\<close>



end
