(* ===== verification/Fnv.thy ===== *)
theory Fnv
  imports Go_Prelude
begin

text \<open>
  \<^verbatim>\<open>pkg/fnv/hash.go\<close>: the 64-bit FNV-1a hash in base 32, with the parts of
  \<^verbatim>\<open>hash/fnv\<close> and \<^verbatim>\<open>strconv\<close> it calls.  A parser for the digits, which the
  program does not need, states that the rendering loses nothing.
\<close>

section \<open>The hash\<close>

unbundle bit_operations_syntax

text \<open>\<^verbatim>\<open>fnv.New64a\<close>: its initial value, one byte of \<^verbatim>\<open>Write\<close>, and a whole write.\<close>

definition offset64 :: "64 word" where "offset64 = 14695981039346656037"
definition prime64 :: "64 word" where "prime64 = 1099511628211"

definition fnv_byte :: "64 word \<Rightarrow> char \<Rightarrow> 64 word" where
  "fnv_byte h c = (h XOR of_char c) * prime64"

definition fnv_Write :: "64 word \<Rightarrow> string \<Rightarrow> 64 word" where
  "fnv_Write h text = foldl fnv_byte h text"

definition digit32 :: "nat \<Rightarrow> char" where
  "digit32 d = ''0123456789abcdefghijklmnopqrstuv'' ! d"

text \<open>\<^verbatim>\<open>strconv.FormatUint(u, 32)\<close>: the digits from the last one.\<close>

fun format_rev :: "nat \<Rightarrow> string" where
  "format_rev n = (if n < 32 then [digit32 n] else digit32 (n mod 32) # format_rev (n div 32))"

declare format_rev.simps [simp del]

definition FormatUint32 :: "64 word \<Rightarrow> string" where
  "FormatUint32 u = rev (format_rev (unat u))"

text \<open>\<^verbatim>\<open>Write\<close> on a hash never fails, so \<^verbatim>\<open>hashText\<close> has no error to return.\<close>

definition hashText :: "64 word \<Rightarrow> string \<Rightarrow> string" where
  "hashText h text = FormatUint32 (fnv_Write h text)"

definition Hash :: "string \<Rightarrow> string" where
  "Hash text = hashText offset64 text"

section \<open>Reading the digits back\<close>

definition undigit32 :: "char \<Rightarrow> nat" where
  "undigit32 c = (let n = of_char c :: nat in if n < 58 then n - 48 else n - 87)"

fun parse_rev :: "string \<Rightarrow> nat" where
  "parse_rev [] = 0"
| "parse_rev (c # cs) = undigit32 c + 32 * parse_rev cs"

definition ParseUint32 :: "string \<Rightarrow> 64 word" where
  "ParseUint32 s = of_nat (parse_rev (rev s))"

lemma undigit32_digit32: "n < 32 \<Longrightarrow> undigit32 (digit32 n) = n"
proof -
  have "\<forall>n \<in> set [0..<32]. undigit32 (digit32 n) = n" by code_simp
  then show "n < 32 \<Longrightarrow> undigit32 (digit32 n) = n" by simp
qed

lemma parse_format_rev: "parse_rev (format_rev n) = n"
proof (induction n rule: format_rev.induct)
  case (1 n)
  then show ?case by (subst format_rev.simps) (simp add: undigit32_digit32)
qed

lemma format_rev_digits: "n < 32 ^ k \<Longrightarrow> 0 < k \<Longrightarrow> 0 < length (format_rev n) \<and> length (format_rev n) \<le> k"
proof (induction k arbitrary: n)
  case (Suc k)
  show ?case
  proof (cases "n < 32")
    case True
    then show ?thesis by (subst (1 2) format_rev.simps) simp
  next
    case False
    with Suc.prems have "k \<noteq> 0" by (intro notI) simp
    with Suc False have "length (format_rev (n div 32)) \<le> k"
      by (simp add: less_mult_imp_div_less mult.commute)
    with False show ?thesis by (subst (1 2) format_rev.simps) simp
  qed
qed simp

lemma set_format_rev: "set (format_rev n) \<subseteq> set ''0123456789abcdefghijklmnopqrstuv''"
proof (induction n rule: format_rev.induct)
  case (1 n)
  have "m < 32 \<Longrightarrow> digit32 m \<in> set ''0123456789abcdefghijklmnopqrstuv''" for m
    unfolding digit32_def by (rule nth_mem) simp
  with 1 show ?case by (subst format_rev.simps) simp
qed

lemma parse_FormatUint32: "ParseUint32 (FormatUint32 u) = u"
  by (simp add: ParseUint32_def FormatUint32_def parse_format_rev)

lemma length_FormatUint32: "0 < length (FormatUint32 u) \<and> length (FormatUint32 u) \<le> 13"
proof -
  have "unat u < 32 ^ 13" using unsigned_less [where 'a = nat, of u] by simp
  from format_rev_digits [OF this] show ?thesis by (simp add: FormatUint32_def)
qed

text \<open>Multiplying by the odd prime loses nothing, so one byte at a time the hash is injective.\<close>

definition prime64_inverse :: "64 word" where "prime64_inverse = 14886173955864302971"

lemma prime64_unit: "prime64 * prime64_inverse = 1"
  by (simp add: prime64_def prime64_inverse_def)

lemma fnv_byte_cancel: "(fnv_byte h c * prime64_inverse) XOR of_char c = h"
  by (simp add: fnv_byte_def mult.assoc prime64_unit xor.assoc)

lemma fnv_Write_inj: "fnv_Write h s = fnv_Write h' s \<Longrightarrow> h = h'"
proof (induction s arbitrary: h h')
  case (Cons c s)
  then have "fnv_byte h c = fnv_byte h' c" by (simp add: fnv_Write_def)
  then show ?case using fnv_byte_cancel by metis
qed (simp add: fnv_Write_def)

section \<open>Properties\<close>

text \<open>
  the rendering of a hash has between 1 and 13 digits of the base-32 alphabet and determines
  the 64-bit hash; and a common tail cannot make two different hash states collide.
\<close>

theorem Hash_text:
  "0 < length (Hash text) \<and> length (Hash text) \<le> 13 \<and>
   set (Hash text) \<subseteq> set ''0123456789abcdefghijklmnopqrstuv'' \<and>
   ParseUint32 (Hash text) = fnv_Write offset64 text \<and>
   (fnv_Write h suffix = fnv_Write h' suffix) = (h = h')"
proof -
  have "set (Hash text) \<subseteq> set ''0123456789abcdefghijklmnopqrstuv''"
    using set_format_rev by (simp only: Hash_def hashText_def FormatUint32_def set_rev)
  moreover have "(fnv_Write h suffix = fnv_Write h' suffix) = (h = h')" using fnv_Write_inj by blast
  ultimately show ?thesis
    using length_FormatUint32 by (simp only: Hash_def hashText_def parse_FormatUint32)
qed

end
