(* ===== verification/Authorize.thy ===== *)
theory Authorize
  imports Http_Model
begin

text \<open>
  \<^verbatim>\<open>pkg/authorize/handler.go\<close> and \<^verbatim>\<open>cluster.go\<close>: the two authorizing middlewares
  and \<^verbatim>\<open>AgainstEndpoint\<close>, which asks an upstream and translates its status.
\<close>

section \<open>The upstream\<close>

text \<open>
  A response of an HTTP client: status, content type and body.  The errors of this package
  carry a status code or are plain.
\<close>

record http_response =
  hr_status :: int
  hr_contentType :: string
  hr_body :: body

datatype auth_err = PlainErr string | ErrorWithCode string int | BodyErr io_err | UpstreamRejected int string

definition NewErrorWithCode :: "string \<Rightarrow> int \<Rightarrow> auth_err" where
  "NewErrorWithCode msg code = ErrorWithCode msg code"

fun HTTPStatusCode :: "auth_err \<Rightarrow> int option" where
  "HTTPStatusCode (ErrorWithCode msg code) = Some code"
| "HTTPStatusCode _ = None"

definition requestBodyLimit :: int where "requestBodyLimit = 32 * 1024"

text \<open>
  The parameters: the size of the read buffer, \<^verbatim>\<open>http.NewRequest\<close> (an error text or
  none), and \<^verbatim>\<open>client.Do\<close> on the payload, over the state of the upstream.
\<close>

record 'u endpoint =
  ep_room :: "nat \<Rightarrow> nat"
  ep_newRequest :: "string option"
  ep_do :: "'u \<Rightarrow> string \<Rightarrow> (string + http_response) \<times> 'u"

text \<open>The \<^verbatim>\<open>switch\<close> on the status code of the answer.\<close>

definition status_error :: "int \<Rightarrow> string \<Rightarrow> auth_err option" where
  "status_error code data =
     (if code = StatusUnauthorized then Some (NewErrorWithCode ''unauthorized'' StatusUnauthorized)
      else if code = StatusForbidden then Some (NewErrorWithCode ''forbidden'' StatusForbidden)
      else if code = StatusTooManyRequests
           then Some (NewErrorWithCode ''rate limited, please try again later'' StatusTooManyRequests)
      else if code = StatusConflict
           then Some (NewErrorWithCode ''the provided cluster identifier is already in use under a different account or is not sufficiently random'' StatusConflict)
      else if code = StatusNotFound then Some (NewErrorWithCode ''not found'' StatusNotFound)
      else if code = StatusOK \<or> code = StatusCreated then None
      else if code \<ge> 400 \<and> code < 500
           then Some (NewErrorWithCode (''upstream rejected request with code '' @ decimal code) code)
      else Some (UpstreamRejected code data))"

definition AgainstEndpoint ::
  "'u endpoint \<Rightarrow> (http_response \<Rightarrow> auth_err option) option \<Rightarrow> 'u \<Rightarrow> string \<Rightarrow> (string \<times> auth_err option) \<times> 'u" where
  "AgainstEndpoint ep validate u token =
     (case ep_newRequest ep of
        Some e \<Rightarrow> (([], Some (PlainErr e)), u)
      | None \<Rightarrow>
          (case ep_do ep u token of
             (Inl e, u') \<Rightarrow> (([], Some (PlainErr e)), u')
           | (Inr res, u') \<Rightarrow>
               (case ReadAll (ep_room ep) [] (io_LimitedReader (hr_body res) requestBodyLimit) of
                  (_, Some e) \<Rightarrow> (([], Some (BodyErr e)), u')
                | (data, None) \<Rightarrow>
                    (case (case validate of None \<Rightarrow> None | Some v \<Rightarrow> v res) of
                       Some e \<Rightarrow> ((data, Some e), u')
                     | None \<Rightarrow> ((data, status_error (hr_status res) data), u')))))"

section \<open>Bearer authorization\<close>

text \<open>
  \<^verbatim>\<open>NewAuthorizeClientHandler\<close>.  The authorizer is an interface: it yields an error or a
  client pointer.
\<close>

definition bearer_auth :: "string \<Rightarrow> (content + string) go" where
  "bearer_auth header =
     (let auth = SplitN2 (CHR '' '') header
      in go_bind (index auth 0) (\<lambda>scheme.
           if ToLower scheme \<noteq> ''bearer'' then Ret (Inl (Text ''Only bearer authorization allowed''))
           else if length auth \<noteq> 2 then Ret (Inl (Text ''Invalid Authorization header''))
           else go_bind (index auth 1) (\<lambda>tok.
             if length (TrimSpace tok) = 0 then Ret (Inl (Text ''Invalid Authorization header''))
             else Ret (Inr tok))))"

definition NewAuthorizeClientHandler ::
  "(string \<Rightarrow> client_err + auth_client option) \<Rightarrow> 's handler \<Rightarrow> 's handler" where
  "NewAuthorizeClientHandler authorizer nxt = (\<lambda>s req.
     go_bind (bearer_auth (rq_header req ''Authorization'')) (\<lambda>res.
       (case res of
          Inl msg \<Rightarrow> Ret (s, http_Error msg StatusUnauthorized)
        | Inr token \<Rightarrow>
            (case authorizer token of
               Inl e \<Rightarrow> Ret (s, http_Error (NotAuthorized e) StatusUnauthorized)
             | Inr client \<Rightarrow> nxt s (WithClient req client)))))"

section \<open>base64.StdEncoding\<close>

definition b64std_alphabet :: string where
  "b64std_alphabet = ''ABCDEFGHIJKLMNOPQRSTUVWXYZabcdefghijklmnopqrstuvwxyz0123456789+/''"

fun position :: "char \<Rightarrow> string \<Rightarrow> nat option" where
  "position c [] = None"
| "position c (x # xs) = (if x = c then Some 0 else map_option Suc (position c xs))"

definition b64std_digit :: "char \<Rightarrow> nat option" where
  "b64std_digit c = position c b64std_alphabet"

text \<open>
  \<^verbatim>\<open>DecodeString\<close> skips line ends, takes four digits at a time, and accepts padding
  only as the last one or two characters; unused bits of the last digit are ignored.
\<close>

fun b64std_groups :: "string \<Rightarrow> string option" where
  "b64std_groups [] = Some []"
| "b64std_groups (a # b # c # d # rest) =
     (case (b64std_digit a, b64std_digit b) of
        (Some p, Some q) \<Rightarrow>
          (if c = CHR ''='' then
             (if d = CHR ''='' \<and> rest = [] then Some (bytes [p * 4 + q div 16]) else None)
           else (case b64std_digit c of
              None \<Rightarrow> None
            | Some r \<Rightarrow>
                if d = CHR ''='' then
                  (if rest = [] then Some (bytes [p * 4 + q div 16, q mod 16 * 16 + r div 4]) else None)
                else (case b64std_digit d of
                   None \<Rightarrow> None
                 | Some t \<Rightarrow>
                     map_option (\<lambda>out. bytes [p * 4 + q div 16, q mod 16 * 16 + r div 4, r mod 4 * 64 + t] @ out)
                       (b64std_groups rest))))
      | _ \<Rightarrow> None)"
| "b64std_groups _ = None"

definition b64std_DecodeString :: "string \<Rightarrow> string option" where
  "b64std_DecodeString s =
     b64std_groups (filter (\<lambda>c. c \<noteq> char_of (10::nat) \<and> c \<noteq> char_of (13::nat)) s)"

section \<open>NewHandler\<close>

text \<open>
  \<open>unmarshal\<close> is \<^verbatim>\<open>json.Unmarshal\<close> into a \<^verbatim>\<open>map[string]string\<close>.  The state is
  that of the upstream next to that of the wrapped handler.  The URL of the endpoint is a pointer,
  which \<^verbatim>\<open>AgainstEndpoint\<close> dereferences first of all; \<open>None\<close> stands for a nil URL.
\<close>

definition status_only :: "int \<Rightarrow> response" where
  "status_only code = \<lparr>rs_status = code, rs_retryAfter = None, rs_content = Empty\<rparr>"

definition NewHandler ::
  "'u endpoint option \<Rightarrow> (string \<Rightarrow> string + (string \<times> string) list) \<Rightarrow> string \<Rightarrow> 's handler \<Rightarrow> ('u \<times> 's) handler" where
  "NewHandler endpoint unmarshal tenantKey nxt = (\<lambda>(u, s) r.
     let authParts = Split (CHR '' '') (rq_header r ''Authorization'')
     in if length authParts \<noteq> 2 \<or> ToLower (authParts ! 0) \<noteq> ''bearer''
        then Ret ((u, s), status_only StatusBadRequest)
        else (case b64std_DecodeString (authParts ! 1) of
                None \<Rightarrow> Ret ((u, s), status_only StatusBadRequest)
              | Some token \<Rightarrow>
                  (case (if tenantKey \<noteq> [] then
                           (case unmarshal token of Inl e \<Rightarrow> None | Inr flds \<Rightarrow> Some (map_get flds tenantKey))
                         else Some []) of
                     None \<Rightarrow> Ret ((u, s), status_only StatusInternalServerError)
                   | Some tenant \<Rightarrow>
                       go_bind (deref endpoint) (\<lambda>ep.
                         (case AgainstEndpoint ep None u token of
                            ((_, Some e), u') \<Rightarrow> Ret ((u', s), status_only StatusUnauthorized)
                          | ((_, None), u') \<Rightarrow>
                              go_bind (nxt s (r\<lparr>rq_tenant := Some tenant\<rparr>)) (\<lambda>(s', resp).
                                Ret ((u', s'), resp)))))))"

text \<open>A request that carries a bearer token the authorizer takes for client \<open>c\<close>.\<close>

definition bearer_request :: "(string \<Rightarrow> client_err + auth_client option) \<Rightarrow> request \<Rightarrow> auth_client option \<Rightarrow> bool" where
  "bearer_request authorizer req c \<longleftrightarrow>
     (\<exists>scheme tok. rq_header req ''Authorization'' = scheme @ CHR '' '' # tok \<and> CHR '' '' \<notin> set scheme \<and>
        ToLower scheme = ''bearer'' \<and> TrimSpace tok \<noteq> [] \<and> authorizer tok = Inr c)"

section \<open>Lemmas\<close>

lemma split1_Some: "split1 c s = Some (a, b) \<longleftrightarrow> s = a @ c # b \<and> c \<notin> set a"
proof (induction s arbitrary: a)
  case (Cons x s)
  show ?case
  proof (cases a)
    case Nil
    then show ?thesis by (auto split: option.split prod.split)
  next
    case a: (Cons y ys)
    show ?thesis using Cons.IH [of ys] by (cases "split1 c s") (auto simp: a)
  qed
qed simp


text \<open>Exactly a scheme equal to \<open>bearer\<close> up to case, one space and a token that is not blank.\<close>

lemma bearer_auth_Inr:
  "bearer_auth h = Ret (Inr tok) \<longleftrightarrow>
     (\<exists>scheme. h = scheme @ CHR '' '' # tok \<and> CHR '' '' \<notin> set scheme \<and> ToLower scheme = ''bearer'' \<and>
        TrimSpace tok \<noteq> [])"
proof -
  have "bearer_auth h = Ret (Inr tok) \<longleftrightarrow>
      (\<exists>scheme. split1 (CHR '' '') h = Some (scheme, tok) \<and> ToLower scheme = ''bearer'' \<and> TrimSpace tok \<noteq> [])"
    by (auto simp: bearer_auth_def SplitN2_def Let_def index_def split: option.split)
  then show ?thesis by (simp add: split1_Some)
qed

lemma bearer_auth_total: "\<exists>res. bearer_auth h = Ret res"
  by (auto simp: bearer_auth_def SplitN2_def Let_def index_def split: option.split)

lemma status_error_None: "status_error code data = None \<longleftrightarrow> code = 200 \<or> code = 201"
  by (simp add: status_error_def status_defs)

lemma status_error_code:
  "400 \<le> code \<Longrightarrow> code < 500 \<Longrightarrow> Option.bind (status_error code data) HTTPStatusCode = Some code"
  by (simp add: status_error_def status_defs NewErrorWithCode_def)

lemma status_error_plain:
  "\<not> (400 \<le> code \<and> code < 500) \<Longrightarrow> Option.bind (status_error code data) HTTPStatusCode = None"
  by (auto simp: status_error_def status_defs)

section \<open>Properties\<close>

text \<open>
  C37: the client handler calls the next handler exactly for a request whose Authorization header
  is the word bearer in any case, a space and a token that is not blank, and whose token the
  authorizer accepts; it then passes on that client, and otherwise answers 401 without calling
  anything.  It never panics by itself.
\<close>

theorem authorize_client_exact:
  "(\<exists>c. bearer_request authorizer req c \<and>
      NewAuthorizeClientHandler authorizer nxt s req = nxt s (WithClient req c)) \<or>
   ((\<nexists>c. bearer_request authorizer req c) \<and>
      (\<exists>msg. NewAuthorizeClientHandler authorizer nxt s req = Ret (s, http_Error msg StatusUnauthorized)))"
proof -
  let ?h = "rq_header req ''Authorization''"
  obtain res where res: "bearer_auth ?h = Ret res" using bearer_auth_total by blast
  have req: "bearer_request authorizer req c \<longleftrightarrow> (\<exists>tok. res = Inr tok \<and> authorizer tok = Inr c)" for c
    using res bearer_auth_Inr [of ?h] by (auto simp: bearer_request_def)
  show ?thesis
  proof (cases res)
    case (Inl msg)
    with res req show ?thesis by (auto simp: NewAuthorizeClientHandler_def)
  next
    case (Inr tok)
    with res req show ?thesis by (cases "authorizer tok") (auto simp: NewAuthorizeClientHandler_def)
  qed
qed

text \<open>
  \<^verbatim>\<open>AgainstEndpoint\<close> reports success only when the upstream answered 200 or 201 and
  the answer passed the caller's check; a 4xx of the upstream keeps its code, and every other
  status becomes an error without a code, which callers turn into a 500.
\<close>

theorem AgainstEndpoint_status:
  assumes "ep_newRequest ep = None" and "ep_do ep u token = (Inr res, u')"
    and "ReadAll (ep_room ep) [] (io_LimitedReader (hr_body res) requestBodyLimit) = (data, None)"
    and "\<forall>v. validate = Some v \<longrightarrow> v res = None"
  shows "\<exists>err. AgainstEndpoint ep validate u token = ((data, err), u') \<and>
    (err = None \<longleftrightarrow> hr_status res = 200 \<or> hr_status res = 201) \<and>
    Option.bind err HTTPStatusCode =
      (if 400 \<le> hr_status res \<and> hr_status res < 500 then Some (hr_status res) else None)"
proof -
  have "(case validate of None \<Rightarrow> None | Some v \<Rightarrow> v res) = None" using assms(4) by (cases validate) auto
  then have "AgainstEndpoint ep validate u token = ((data, status_error (hr_status res) data), u')"
    using assms(1-3) by (simp add: AgainstEndpoint_def)
  then show ?thesis using status_error_None status_error_code status_error_plain by auto
qed

theorem AgainstEndpoint_status_witness:
  "\<exists>err. AgainstEndpoint \<lparr>ep_room = (\<lambda>_. 512), ep_newRequest = None, ep_do = (\<lambda>u tok. (Inr
       \<lparr>hr_status = 409, hr_contentType = [], hr_body = Stream \<lparr>st_chunks = [''no''], st_end = EOF, st_eager = True\<rparr>\<rparr>, u))\<rparr>
     None () ''t'' = ((''no'', err), ()) \<and> Option.bind err HTTPStatusCode = Some 409"
proof -
  let ?res = "\<lparr>hr_status = 409, hr_contentType = [], hr_body = Stream \<lparr>st_chunks = [''no''], st_end = EOF, st_eager = True\<rparr>\<rparr>"
  let ?ep = "\<lparr>ep_room = (\<lambda>_. 512), ep_newRequest = None, ep_do = (\<lambda>u tok. (Inr ?res, u))\<rparr> :: unit endpoint"
  have rd: "ReadAll (ep_room ?ep) [] (io_LimitedReader (hr_body ?res) requestBodyLimit) = (''no'', None)"
    by (subst ReadAll.simps) (simp add: stream_Read.simps requestBodyLimit_def)
  from AgainstEndpoint_status [of ?ep "()" "''t''" ?res "()" "''no''" None] rd show ?thesis by auto
qed

end
