(* ===== verification/Token_Store.thy ===== *)
theory Token_Store
  imports Authorize
begin

text \<open>
  \<^verbatim>\<open>pkg/authorize/token_store.go\<close> and \<^verbatim>\<open>roundtripper.go\<close>: the client's cache of
  the server token.  The store is guarded by a mutex, so its operations are the steps of a
  state machine; the transport and the JSON decoder are parameters.
\<close>

section \<open>The store\<close>

text \<open>\<open>None\<close> in \<open>ts_expires\<close> is the zero time, in \<open>ts_labels\<close> the nil map.\<close>

record tokenStore =
  ts_value :: string
  ts_expires :: "time option"
  ts_labels :: "(string \<times> string) list option"

definition empty_store :: tokenStore where
  "empty_store = \<lparr>ts_value = [], ts_expires = None, ts_labels = None\<rparr>"

datatype token_err =
    CannotCreateRequest string
  | CannotRequest string
  | InitialTokenInvalid
  | CannotExchange int string
  | CannotReadToken io_err
  | CannotParseToken string
  | LabelsExpired
  | TransportErr string

text \<open>
  The transport over the state of the server side: \<open>tp_exchange\<close> is the \<^verbatim>\<open>POST\<close> of the
  initial token, \<open>tp_roundTrip\<close> a request with a bearer token, \<open>tp_json\<close> the decoding
  of the answer.
\<close>

record 'u transport =
  tp_room :: "nat \<Rightarrow> nat"
  tp_newRequest :: "string option"
  tp_exchange :: "'u \<Rightarrow> string \<Rightarrow> (string + http_response) \<times> 'u"
  tp_roundTrip :: "'u \<Rightarrow> string \<Rightarrow> (string + http_response) \<times> 'u"
  tp_json :: "string \<Rightarrow> string + token_response"

definition parseTokenFromBody :: "'u transport \<Rightarrow> body \<Rightarrow> int \<Rightarrow> token_err + token_response" where
  "parseTokenFromBody tp r limitBytes =
     (case ReadAll (tp_room tp) [] (io_LimitedReader r limitBytes) of
        (_, Some e) \<Rightarrow> Inl (CannotReadToken e)
      | (data, None) \<Rightarrow>
          (case tp_json tp data of Inl e \<Rightarrow> Inl (CannotParseToken e) | Inr resp \<Rightarrow> Inr resp))"

text \<open>\<^verbatim>\<open>time.Duration(e - 15) * time.Second\<close> in 64 bits, added to the clock.\<close>

definition expiry :: "time \<Rightarrow> int \<Rightarrow> time option" where
  "expiry now e = (if e \<ge> 60 then Some (now + wrap64 (wrap64 (e - 15) * Second)) else None)"

definition cached :: "time \<Rightarrow> tokenStore \<Rightarrow> bool" where
  "cached now t \<longleftrightarrow>
     length (ts_value t) > 0 \<and> (case ts_expires t of None \<Rightarrow> True | Some e \<Rightarrow> e > now)"

text \<open>\<open>now\<close> is the clock when the store is asked, \<open>now'\<close> when the answer is stored.\<close>

definition Load ::
  "'u transport \<Rightarrow> string \<Rightarrow> time \<Rightarrow> time \<Rightarrow> tokenStore \<times> 'u \<Rightarrow> (tokenStore \<times> 'u) \<times> (token_err + string)" where
  "Load tp initialToken now now' = (\<lambda>(t, u).
     if cached now t then ((t, u), Inr (ts_value t))
     else (case tp_newRequest tp of
             Some e \<Rightarrow> ((t, u), Inl (CannotCreateRequest e))
           | None \<Rightarrow>
               (case tp_exchange tp u initialToken of
                  (Inl e, u') \<Rightarrow> ((t, u'), Inl (CannotRequest e))
                | (Inr resp, u') \<Rightarrow>
                    if hr_status resp = StatusOK \<or> hr_status resp = StatusCreated then
                      (case parseTokenFromBody tp (hr_body resp) (16 * 1024) of
                         Inl e \<Rightarrow> ((t, u'), Inl e)
                       | Inr response \<Rightarrow>
                           (let t' = t\<lparr>ts_value := tr_Token response, ts_labels := Some (tr_Labels response),
                                ts_expires := expiry now' (tr_ExpiresInSeconds response)\<rparr>
                            in ((t', u'), Inr (ts_value t'))))
                    else if hr_status resp = StatusUnauthorized then ((t, u'), Inl InitialTokenInvalid)
                    else (let (data, _) = ReadAll (tp_room tp) [] (io_LimitedReader (hr_body resp) (4 * 1024))
                          in ((t, u'), Inl (CannotExchange (hr_status resp) data))))))"

definition Invalidate :: "string \<Rightarrow> tokenStore \<Rightarrow> tokenStore" where
  "Invalidate token t =
     (if token = ts_value t then t\<lparr>ts_value := [], ts_labels := None, ts_expires := None\<rparr> else t)"

text \<open>Ranging over a nil map does nothing, so the copy of nil is the empty map.\<close>

definition Labels :: "tokenStore \<Rightarrow> (string \<times> string) list option \<times> bool" where
  "Labels t =
     (if length (ts_value t) = 0 then (None, False)
      else (Some (case ts_labels t of None \<Rightarrow> [] | Some ls \<Rightarrow> ls), True))"

section \<open>The round tripper\<close>

definition RoundTrip ::
  "'u transport \<Rightarrow> string \<Rightarrow> time \<Rightarrow> time \<Rightarrow> tokenStore \<times> 'u \<Rightarrow> (tokenStore \<times> 'u) \<times> (token_err + http_response)" where
  "RoundTrip tp initialToken now now' s =
     (case Load tp initialToken now now' s of
        (s1, Inl e) \<Rightarrow> (s1, Inl e)
      | ((t, u), Inr token) \<Rightarrow>
          (case tp_roundTrip tp u token of
             (Inl e, u') \<Rightarrow> ((t, u'), Inl (TransportErr e))
           | (Inr resp, u') \<Rightarrow>
               ((if hr_status resp = StatusUnauthorized then Invalidate token t else t, u'), Inr resp)))"

definition RoundTripper_Labels ::
  "'u transport \<Rightarrow> string \<Rightarrow> time \<Rightarrow> time \<Rightarrow> tokenStore \<times> 'u \<Rightarrow>
   (tokenStore \<times> 'u) \<times> (token_err + (string \<times> string) list)" where
  "RoundTripper_Labels tp initialToken now now' s =
     (case Load tp initialToken now now' s of
        (s1, Inl e) \<Rightarrow> (s1, Inl e)
      | ((t, u), Inr token) \<Rightarrow>
          (case Labels t of
             (Some ls, True) \<Rightarrow> ((t, u), Inr ls)
           | _ \<Rightarrow> ((t, u), Inl LabelsExpired)))"

section \<open>The store as a state machine\<close>

text \<open>
  Concurrent requests share one store: between the \<^verbatim>\<open>Load\<close> of a request and its
  \<^verbatim>\<open>Invalidate\<close> any other operations may happen.  A state of the machine is the store,
  the state of the server side and, for the statement of the invariant, the tokens that have
  been invalidated since the last time a token was fetched.
\<close>

inductive store_step ::
  "'u transport \<Rightarrow> string \<Rightarrow> (tokenStore \<times> 'u) \<times> string set \<Rightarrow> (tokenStore \<times> 'u) \<times> string set \<Rightarrow> bool"
  for tp initialToken where
  hit: "cached now t \<Longrightarrow> store_step tp initialToken ((t, u), R) ((t, u), R)"
| fetch: "\<not> cached now t \<Longrightarrow> Load tp initialToken now now' (t, u) = (s', Inr token) \<Longrightarrow>
    store_step tp initialToken ((t, u), R) (s', {})"
| fail: "Load tp initialToken now now' (t, u) = (s', Inl e) \<Longrightarrow>
    store_step tp initialToken ((t, u), R) (s', R)"
| invalidate: "store_step tp initialToken ((t, u), R) ((Invalidate token t, u), insert token R)"

inductive store_reachable :: "'u transport \<Rightarrow> string \<Rightarrow> 'u \<Rightarrow> (tokenStore \<times> 'u) \<times> string set \<Rightarrow> bool"
  for tp initialToken u0 where
  init: "store_reachable tp initialToken u0 ((empty_store, u0), {})"
| step: "store_reachable tp initialToken u0 s \<Longrightarrow> store_step tp initialToken s s' \<Longrightarrow>
    store_reachable tp initialToken u0 s'"

section \<open>Lemmas\<close>

lemma Load_cached: "cached now t \<Longrightarrow> Load tp tok now now' (t, u) = ((t, u), Inr (ts_value t))"
  by (simp add: Load_def)

lemma Load_error_keeps: "Load tp tok now now' (t, u) = ((t', u'), Inl e) \<Longrightarrow> t' = t"
  by (auto simp: Load_def Let_def split: if_splits option.splits sum.splits prod.splits)

lemma Load_value: "Load tp tok now now' (t, u) = ((t', u'), Inr v) \<Longrightarrow> ts_value t' = v"
  by (auto simp: Load_def Let_def split: if_splits option.splits sum.splits prod.splits)

lemma Load_fetches:
  assumes "\<not> cached now t" and "tp_newRequest tp = None" and "tp_exchange tp u tok = (Inr resp, u')"
    and "hr_status resp = 200 \<or> hr_status resp = 201"
    and "parseTokenFromBody tp (hr_body resp) 16384 = Inr response"
  shows "Load tp tok now now' (t, u) =
    ((\<lparr>ts_value = tr_Token response, ts_expires = expiry now' (tr_ExpiresInSeconds response),
       ts_labels = Some (tr_Labels response)\<rparr>, u'), Inr (tr_Token response))"
  using assms by (cases t) (simp add: Load_def status_defs)

lemma Invalidate_not_cached: "\<not> cached now (Invalidate (ts_value t) t)"
  by (simp add: Invalidate_def cached_def)

text \<open>The invariant: the store is empty or holds a token nobody has rejected since it was fetched.\<close>

lemma store_invariant:
  "store_reachable tp tok u0 s \<Longrightarrow> ts_value (fst (fst s)) = [] \<or> ts_value (fst (fst s)) \<notin> snd s"
proof (induction rule: store_reachable.induct)
  case init
  then show ?case by (simp add: empty_store_def)
next
  case (step s s')
  from step.hyps(2) show ?case
  proof (cases rule: store_step.cases)
    case (fail now now' t u s1 e R)
    with step.IH show ?thesis using Load_error_keeps by (cases s1) fastforce
  next
    case (invalidate t u R token)
    with step.IH show ?thesis by (auto simp: Invalidate_def)
  qed (use step.IH in auto)
qed

lemma expiry_exact:
  assumes "60 \<le> e" and "e \<le> 9000000000"
  shows "expiry now e = Some (now + (e - 15) * 1000000000)"
proof -
  have "wrap64 (e - 15) = e - 15" using assms by (intro wrap64_id) (simp add: is_int64_def)
  moreover have "wrap64 ((e - 15) * 1000000000) = (e - 15) * 1000000000"
    using assms by (intro wrap64_id) (simp add: is_int64_def)
  ultimately show ?thesis using assms(1) by (simp add: expiry_def Second_def)
qed

subsection \<open>An example transport\<close>

text \<open>It hands out the token \<open>new\<close> for a minute and rejects every request made with it.\<close>

definition example_body :: body where
  "example_body = Stream \<lparr>st_chunks = [''x''], st_end = EOF, st_eager = True\<rparr>"

definition example_transport :: "unit transport" where
  "example_transport = \<lparr>tp_room = (\<lambda>_. 512), tp_newRequest = None,
     tp_exchange = (\<lambda>u tok. (Inr \<lparr>hr_status = 200, hr_contentType = [], hr_body = example_body\<rparr>, u)),
     tp_roundTrip = (\<lambda>u tok. (Inr \<lparr>hr_status = 401, hr_contentType = [], hr_body = example_body\<rparr>, u)),
     tp_json = (\<lambda>_. Inr \<lparr>tr_Version = 1, tr_Token = ''new'', tr_ExpiresInSeconds = 60, tr_Labels = []\<rparr>)\<rparr>"

lemma example_read: "ReadAll (\<lambda>_. 512) [] (io_LimitedReader example_body 16384) = (''x'', None)"
  by (subst ReadAll.simps) (simp add: stream_Read.simps example_body_def)

lemma example_load:
  "Load example_transport ''i'' 0 0 (empty_store, ()) =
     ((\<lparr>ts_value = ''new'', ts_expires = Some 45000000000, ts_labels = Some []\<rparr>, ()), Inr ''new'')"
  using example_read
  by (simp add: Load_def cached_def empty_store_def parseTokenFromBody_def example_transport_def status_defs Let_def
      expiry_def Second_def wrap64_def)

section \<open>Properties\<close>

text \<open>
  C38: however loads, failures and invalidations of concurrent requests interleave, a token that
  the server has rejected is not handed out again from the cache: the value in the store is
  empty or has not been invalidated since it was fetched.
\<close>

theorem token_never_reused_after_rejection:
  assumes "store_reachable tp tok u0 ((t, u), R)" and "Load tp tok now now' (t, u) = ((t', u), Inr v)"
    and "cached now t"
  shows "v \<notin> R"
  using store_invariant [OF assms(1)] Load_cached [OF assms(3), of tp tok now' u] assms(2,3)
  by (auto simp: cached_def)

theorem token_never_reused_after_rejection_witness:
  "\<exists>s. store_reachable example_transport ''i'' () ((s, ()), {''old''}) \<and> cached 0 s \<and>
     Load example_transport ''i'' 0 0 (s, ()) = ((s, ()), Inr ''new'') \<and> ''new'' \<notin> {''old''}"
proof -
  let ?s = "\<lparr>ts_value = ''new'', ts_expires = Some 45000000000, ts_labels = Some []\<rparr>"
  have nc: "\<not> cached 0 empty_store" by (simp add: cached_def empty_store_def)
  have "store_reachable example_transport ''i'' () ((?s, ()), {})"
    by (rule store_reachable.step [OF store_reachable.init store_step.fetch [OF nc example_load]])
  then have "store_reachable example_transport ''i'' () ((Invalidate ''old'' ?s, ()), {''old''})"
    by (rule store_reachable.step) (rule store_step.invalidate)
  then have reach: "store_reachable example_transport ''i'' () ((?s, ()), {''old''})" by (simp add: Invalidate_def)
  have c: "cached 0 ?s" by (simp add: cached_def)
  have hit: "Load example_transport ''i'' 0 0 (?s, ()) = ((?s, ()), Inr ''new'')" using Load_cached [OF c] by simp
  from token_never_reused_after_rejection [OF reach hit c] reach c hit show ?thesis by blast
qed

text \<open>
  a token fetched with a life of \<open>e\<close> seconds, at least 60, is served from the store
  without a request exactly until 15 seconds before the end of its life (lives up to 285 years do
  not overflow); one with a shorter life is served for ever, until it is rejected.
\<close>

theorem token_served_until:
  assumes "\<not> cached now t" and "tp_newRequest tp = None" and "tp_exchange tp u tok = (Inr resp, u')"
    and "hr_status resp = 200 \<or> hr_status resp = 201"
    and "parseTokenFromBody tp (hr_body resp) 16384 = Inr response"
    and "tr_Token response \<noteq> []" and "tr_ExpiresInSeconds response \<le> 9000000000"
  shows "\<exists>t'. Load tp tok now now' (t, u) = ((t', u'), Inr (tr_Token response)) \<and>
    cached at t' = (tr_ExpiresInSeconds response < 60 \<or>
      at < now' + (tr_ExpiresInSeconds response - 15) * 1000000000)"
proof (cases "tr_ExpiresInSeconds response < 60")
  case True
  with Load_fetches [OF assms(1-5)] assms(6) show ?thesis by (simp add: cached_def expiry_def)
next
  case False
  with Load_fetches [OF assms(1-5)] expiry_exact [of "tr_ExpiresInSeconds response" now'] assms(6,7)
  show ?thesis by (simp add: cached_def)
qed

theorem token_served_until_witness:
  "\<exists>t'. Load example_transport ''i'' 0 0 (empty_store, ()) = ((t', ()), Inr ''new'') \<and> \<not> cached 45000000000 t'"
proof -
  let ?resp = "\<lparr>hr_status = 200, hr_contentType = [], hr_body = example_body\<rparr>"
  have rd: "parseTokenFromBody example_transport (hr_body ?resp) 16384 =
      Inr \<lparr>tr_Version = 1, tr_Token = ''new'', tr_ExpiresInSeconds = 60, tr_Labels = []\<rparr>"
    using example_read by (simp add: parseTokenFromBody_def example_transport_def)
  have "\<not> cached 0 empty_store" by (simp add: cached_def empty_store_def)
  from token_served_until [OF this _ _ _ rd, of "()" "''i''" "()" 0 45000000000] show ?thesis
    by (simp add: example_transport_def)
qed

text \<open>
  a request that the server answers with 401 empties the store of the token it used, so the
  next load asks the server again; with any other answer the store is as the load left it.
\<close>

theorem RoundTrip_invalidates:
  assumes "Load tp tok now now' (t, u) = ((t1, u1), Inr token)"
    and "tp_roundTrip tp u1 token = (Inr resp, u')"
  shows "\<exists>t'. RoundTrip tp tok now now' (t, u) = ((t', u'), Inr resp) \<and>
    (if hr_status resp = 401 then Labels t' = (None, False) \<and> \<not> cached at t' else t' = t1)"
proof -
  have "ts_value t1 = token" using Load_value [OF assms(1)] .
  then show ?thesis using assms
    by (auto simp: RoundTrip_def status_defs Invalidate_def Labels_def cached_def)
qed

theorem RoundTrip_invalidates_witness:
  "\<exists>t'. RoundTrip example_transport ''i'' 0 0 (empty_store, ()) =
      ((t', ()), Inr \<lparr>hr_status = 401, hr_contentType = [], hr_body = example_body\<rparr>) \<and> \<not> cached 1 t'"
proof -
  from example_load have ld: "Load example_transport ''i'' 0 0 (empty_store, ()) =
      ((\<lparr>ts_value = ''new'', ts_expires = Some 45000000000, ts_labels = Some []\<rparr>, ()), Inr ''new'')" .
  have rt: "tp_roundTrip example_transport () ''new'' =
      (Inr \<lparr>hr_status = 401, hr_contentType = [], hr_body = example_body\<rparr>, ())"
    by (simp add: example_transport_def)
  from RoundTrip_invalidates [OF ld rt, of 1] show ?thesis by auto
qed

end
