(* ===== verification/Jwt.thy ===== *)
theory Jwt
  imports Authorize "HOL-Library.AList"
begin

text \<open>
  \<^verbatim>\<open>pkg/authorize/jwt\<close>: the claims of a token, the signer, the validator, the client
  authorizer and the handler of \<^verbatim>\<open>/authorize\<close>.  Signing, parsing and verifying are the
  JOSE library's; the checks on the registered claims are modelled from its source
  (\<^verbatim>\<open>jwt/claims.go\<close> and \<^verbatim>\<open>jwt/validation.go\<close>).
\<close>

section \<open>Claims\<close>

text \<open>The zero \<^verbatim>\<open>time.Time\<close>, the first of January of the year 1, in nanoseconds from the epoch.\<close>

definition zero_time :: time where
  "zero_time = - 62135596800 * Second"

record jwt_claims =
  jc_Issuer :: string
  jc_Subject :: string
  jc_Audience :: "string list"
  jc_Expiry :: "int option"
  jc_NotBefore :: "int option"
  jc_IssuedAt :: "int option"

definition no_claims :: jwt_claims where
  "no_claims = \<lparr>jc_Issuer = [], jc_Subject = [], jc_Audience = [], jc_Expiry = None, jc_NotBefore = None,
     jc_IssuedAt = None\<rparr>"

definition NewNumericDate :: "time \<Rightarrow> int option" where
  "NewNumericDate t = (if t = zero_time then None else Some (Unix t))"

text \<open>The private claims carry the labels; a nil map and an empty one read the same.\<close>

type_synonym labels = "(string \<times> string) list"

datatype claims_object = PrivateClaims labels | OtherObject

definition Claims :: "time \<Rightarrow> string \<Rightarrow> labels \<Rightarrow> int \<Rightarrow> string list \<Rightarrow> jwt_claims \<times> labels" where
  "Claims now subject lbls expirationSeconds audience =
     (no_claims\<lparr>jc_Subject := subject, jc_Audience := audience,
        jc_IssuedAt := NewNumericDate now, jc_NotBefore := NewNumericDate now,
        jc_Expiry := NewNumericDate (now + wrap64 (expirationSeconds * Second))\<rparr>,
      lbls)"

section \<open>Signing\<close>

text \<open>
  The JOSE library: \<open>jo_sign\<close> is \<^verbatim>\<open>NewSigner\<close> and \<^verbatim>\<open>CompactSerialize\<close> on a
  payload, \<open>jo_parse\<close> is \<^verbatim>\<open>ParseSigned\<close> and \<open>jo_claims\<close> the method
  \<^verbatim>\<open>Claims\<close> of the parsed token, which verifies the signature under one key and decodes
  the payload.
\<close>

datatype curve = P224 | P256 | P384 | P521
datatype 'k private_key = RSA 'k | ECDSA curve 'k | OtherKey string
datatype algorithm = RS256 | ES256 | ES384 | ES512

type_synonym payload = "jwt_claims \<times> labels"

record ('k, 'p, 't) jose =
  jo_sign :: "algorithm \<Rightarrow> 'k private_key \<Rightarrow> payload \<Rightarrow> string + string"
  jo_parse :: "string \<Rightarrow> string + 't"
  jo_claims :: "'t \<Rightarrow> 'p \<Rightarrow> string + payload"

datatype sign_err = UnknownCurve | UnknownKeyType string | SignErr string

fun signature_algorithm :: "'k private_key \<Rightarrow> sign_err + algorithm" where
  "signature_algorithm (RSA k) = Inr RS256"
| "signature_algorithm (ECDSA c k) =
     (case c of P256 \<Rightarrow> Inr ES256 | P384 \<Rightarrow> Inr ES384 | P521 \<Rightarrow> Inr ES512 | P224 \<Rightarrow> Inl UnknownCurve)"
| "signature_algorithm (OtherKey ty) = Inl (UnknownKeyType ty)"

text \<open>
  The builder merges the objects it is given key by key, the later ones winning; empty fields are
  omitted, so they override nothing.
\<close>

definition merge_claims :: "jwt_claims \<Rightarrow> jwt_claims \<Rightarrow> jwt_claims" where
  "merge_claims a b =
     \<lparr>jc_Issuer = (if jc_Issuer b = [] then jc_Issuer a else jc_Issuer b),
      jc_Subject = (if jc_Subject b = [] then jc_Subject a else jc_Subject b),
      jc_Audience = (if jc_Audience b = [] then jc_Audience a else jc_Audience b),
      jc_Expiry = (case jc_Expiry b of None \<Rightarrow> jc_Expiry a | Some e \<Rightarrow> Some e),
      jc_NotBefore = (case jc_NotBefore b of None \<Rightarrow> jc_NotBefore a | Some e \<Rightarrow> Some e),
      jc_IssuedAt = (case jc_IssuedAt b of None \<Rightarrow> jc_IssuedAt a | Some e \<Rightarrow> Some e)\<rparr>"

definition GenerateToken ::
  "('k, 'p, 't) jose \<Rightarrow> string \<Rightarrow> 'k private_key \<Rightarrow> jwt_claims \<Rightarrow> labels \<Rightarrow> sign_err + string" where
  "GenerateToken jo iss privateKey cl private =
     (case signature_algorithm privateKey of
        Inl e \<Rightarrow> Inl e
      | Inr alg \<Rightarrow>
          (case jo_sign jo alg privateKey
                  (merge_claims (merge_claims no_claims cl) (no_claims\<lparr>jc_Issuer := iss\<rparr>), private) of
             Inl e \<Rightarrow> Inl (SignErr e)
           | Inr tok \<Rightarrow> Inr tok))"

definition multipleErrors :: "string list \<Rightarrow> client_err option" where
  "multipleErrors errs =
     (if length errs > 1 then Some (MultipleErrors errs)
      else if length errs = 0 then None else Some (LibErr (errs ! 0)))"

section \<open>Validation\<close>

datatype jwt_err =
    ErrInvalidIssuer | ErrInvalidSubject | ErrInvalidAudience
  | ErrNotValidYet | ErrExpired | ErrIssuedInTheFuture

record expected =
  ex_Issuer :: string
  ex_Subject :: string
  ex_Audience :: "string list"
  ex_Time :: time

definition DefaultLeeway :: duration where "DefaultLeeway = 1 * Minute"

definition Audience_Contains :: "string list \<Rightarrow> string \<Rightarrow> bool" where
  "Audience_Contains s v = list_ex (\<lambda>a. a = v) s"

text \<open>\<open>now\<close> is read only when no time is expected.  The IDs of claims are not used here.\<close>

definition ValidateWithLeeway :: "time \<Rightarrow> jwt_claims \<Rightarrow> expected \<Rightarrow> duration \<Rightarrow> jwt_err option" where
  "ValidateWithLeeway now c e leeway =
     (if ex_Issuer e \<noteq> [] \<and> ex_Issuer e \<noteq> jc_Issuer c then Some ErrInvalidIssuer
      else if ex_Subject e \<noteq> [] \<and> ex_Subject e \<noteq> jc_Subject c then Some ErrInvalidSubject
      else if list_ex (\<lambda>v. \<not> Audience_Contains (jc_Audience c) v) (ex_Audience e) then Some ErrInvalidAudience
      else (let t = (if ex_Time e = zero_time then now else ex_Time e)
            in if (case jc_NotBefore c of None \<Rightarrow> False | Some n \<Rightarrow> t + leeway < n * Second) then Some ErrNotValidYet
               else if (case jc_Expiry c of None \<Rightarrow> False | Some n \<Rightarrow> t - leeway > n * Second) then Some ErrExpired
               else if (case jc_IssuedAt c of None \<Rightarrow> False | Some n \<Rightarrow> t + leeway < n * Second)
                    then Some ErrIssuedInTheFuture
               else None))"

definition NewPrivateClaims :: claims_object where
  "NewPrivateClaims = PrivateClaims []"

fun aud_loop :: "string list \<Rightarrow> string list \<Rightarrow> bool" where
  "aud_loop [] audience = False"
| "aud_loop (aud # auds) audience =
     (if Audience_Contains audience aud then True else aud_loop auds audience)"

definition validator_Validate ::
  "string list \<Rightarrow> time \<Rightarrow> jwt_claims \<Rightarrow> claims_object \<Rightarrow> client_err + auth_client option" where
  "validator_Validate auds now public privateObj =
     (case privateObj of
        OtherObject \<Rightarrow> Inl TokenNotValidated
      | PrivateClaims private \<Rightarrow>
          (case ValidateWithLeeway now public
                  \<lparr>ex_Issuer = [], ex_Subject = [], ex_Audience = [], ex_Time = now\<rparr> DefaultLeeway of
             Some ErrExpired \<Rightarrow> Inl TokenExpired
           | Some _ \<Rightarrow> Inl TokenNotValidated
           | None \<Rightarrow>
               if \<not> aud_loop auds (jc_Audience public) then Inl InvalidAudience
               else Inr (Some \<lparr>cl_ID = jc_Subject public, cl_Labels = private\<rparr>)))"

section \<open>The client authorizer\<close>

record 'p clientAuthorizer =
  ca_iss :: string
  ca_keys :: "'p list"
  ca_auds :: "string list"

text \<open>
  The loop over the keys: the payload under the first key that verifies, or the errors.  A failed
  \<^verbatim>\<open>Claims\<close> can leave parts of the claims decoded, but then no later key can succeed on
  the same payload.
\<close>

fun key_loop :: "('k, 'p, 't) jose \<Rightarrow> 't \<Rightarrow> string list \<Rightarrow> 'p list \<Rightarrow> string list + payload" where
  "key_loop jo tok errs [] = Inl errs"
| "key_loop jo tok errs (key # keys) =
     (case jo_claims jo tok key of
        Inl e \<Rightarrow> key_loop jo tok (errs @ [e]) keys
      | Inr p \<Rightarrow> Inr p)"

definition AuthorizeClient ::
  "('k, 'p, 't) jose \<Rightarrow> 'p clientAuthorizer \<Rightarrow> time \<Rightarrow> string \<Rightarrow> client_err + auth_client option" where
  "AuthorizeClient jo j now tokenData =
     (case jo_parse jo tokenData of
        Inl e \<Rightarrow> Inl (LibErr e)
      | Inr tok \<Rightarrow>
          (case key_loop jo tok [] (ca_keys j) of
             Inl errs \<Rightarrow> (case multipleErrors errs of None \<Rightarrow> Inr None | Some e \<Rightarrow> Inl e)
           | Inr (public, private) \<Rightarrow>
               if jc_Issuer public \<noteq> ca_iss j then Inl (InvalidIssuer (ca_iss j) (jc_Issuer public))
               else (case validator_Validate (ca_auds j) now public (PrivateClaims private) of
                       Inl e \<Rightarrow> Inl e
                     | Inr client \<Rightarrow> Inr client)))"

section \<open>The handler of /authorize\<close>

text \<open>
  The cluster authorizer is an interface over the state of whatever it asks.  \<open>uid\<close> is the
  random request number of the answer that hides an error.  Marshalling a token response cannot
  fail, and a failed write is only logged.
\<close>

record ('u, 'k) authorizeClusterHandler =
  ah_clusterIDKey :: string
  ah_labels :: labels
  ah_expireInSeconds :: int
  ah_iss :: string
  ah_privateKey :: "'k private_key"
  ah_clusterAuth :: "'u \<Rightarrow> string \<Rightarrow> string \<Rightarrow> (auth_err + string) \<times> 'u"

definition token_labels :: "('u, 'k) authorizeClusterHandler \<Rightarrow> string \<Rightarrow> labels" where
  "token_labels a clusterID =
     fold (\<lambda>(k, v). AList.update k v) (ah_labels a) [(ah_clusterIDKey a, clusterID)]"

definition auth_failure :: "int \<Rightarrow> auth_err \<Rightarrow> response" where
  "auth_failure uid err =
     (case err of
        ErrorWithCode msg code \<Rightarrow>
          \<lparr>rs_status = code, rs_retryAfter = (if code = StatusTooManyRequests then Some ''300'' else None),
           rs_content = Text msg\<rparr>
      | _ \<Rightarrow> http_Error (InternalError uid) StatusInternalServerError)"

definition sign_error_text :: "sign_err \<Rightarrow> content" where
  "sign_error_text e =
     (case e of
        UnknownCurve \<Rightarrow> Text ''unknown private key curve, must be 256, 384, or 521''
      | UnknownKeyType ty \<Rightarrow> Text (''unknown private key type '' @ ty @ '', must be *rsa.PrivateKey or *ecdsa.PrivateKey'')
      | SignErr msg \<Rightarrow> Text msg)"

definition authorize_ServeHTTP ::
  "('k, 'p, 't) jose \<Rightarrow> ('u, 'k) authorizeClusterHandler \<Rightarrow> time \<Rightarrow> int \<Rightarrow> 'u handler" where
  "authorize_ServeHTTP jo a now uid = (\<lambda>u req.
     if rq_method req \<noteq> ''POST''
     then Ret (u, http_Error (Text ''Only POST is allowed to this endpoint'') StatusMethodNotAllowed)
     else (case rq_form req (4 * 1024) of
        Inl e \<Rightarrow> Ret (u, http_Error (Text e) StatusBadRequest)
      | Inr form \<Rightarrow>
          (let clusterID = form ''id''
           in if length clusterID = 0
              then Ret (u, http_Error (Text (''The '' @ [CHR 0x27] @ ''id'' @ [CHR 0x27] @
                     '' parameter must be specified via URL or url-encoded form body'')) StatusBadRequest)
              else go_bind (bearer_auth (rq_header req ''Authorization'')) (\<lambda>auth.
                (case auth of
                   Inl msg \<Rightarrow> Ret (u, http_Error msg StatusUnauthorized)
                 | Inr clientToken \<Rightarrow>
                     (case ah_clusterAuth a u clientToken clusterID of
                        (Inl err, u') \<Rightarrow> Ret (u', auth_failure uid err)
                      | (Inr subject, u') \<Rightarrow>
                          (let lbls = token_labels a clusterID;
                               (public, private) = Claims now subject lbls (ah_expireInSeconds a) [''telemeter-client'']
                           in (case GenerateToken jo (ah_iss a) (ah_privateKey a) public private of
                                 Inl e \<Rightarrow> Ret (u', http_Error (sign_error_text e) StatusInternalServerError)
                               | Inr authToken \<Rightarrow>
                                   Ret (u', \<lparr>rs_status = StatusOK, rs_retryAfter = None,
                                     rs_content = Token \<lparr>tr_Version = 1, tr_Token = authToken,
                                       tr_ExpiresInSeconds = ah_expireInSeconds a, tr_Labels = lbls\<rparr>\<rparr>)))))))))"

section \<open>Vocabulary of the theorems\<close>

text \<open>
  What a payload needs to survive the JSON of a token: ASCII strings, seconds that a double
  holds exactly, and label names that occur once.
\<close>

definition ascii :: "string \<Rightarrow> bool" where
  "ascii s = list_all (\<lambda>c. of_char c < (128::nat)) s"

definition exact_date :: "int option \<Rightarrow> bool" where
  "exact_date d = (case d of None \<Rightarrow> True | Some n \<Rightarrow> \<bar>n\<bar> < 2 ^ 53)"

definition ascii_labels :: "labels \<Rightarrow> bool" where
  "ascii_labels ls = list_all (\<lambda>(k, v). ascii k \<and> ascii v) ls"

definition representable :: "payload \<Rightarrow> bool" where
  "representable p \<longleftrightarrow>
     ascii (jc_Issuer (fst p)) \<and> ascii (jc_Subject (fst p)) \<and> list_all ascii (jc_Audience (fst p)) \<and>
     exact_date (jc_Expiry (fst p)) \<and> exact_date (jc_NotBefore (fst p)) \<and> exact_date (jc_IssuedAt (fst p)) \<and>
     ascii_labels (snd p) \<and> distinct (map fst (snd p))"

text \<open>
  What the library promises for a pair of keys: a signed token parses, verifies under the public
  key and no other, and yields the claims it was made from, the labels as a map.
\<close>

definition jose_contract :: "('k, 'p, 't) jose \<Rightarrow> 'k private_key \<Rightarrow> 'p \<Rightarrow> bool" where
  "jose_contract jo private public \<longleftrightarrow>
     (\<forall>alg p tok. representable p \<and> jo_sign jo alg private p = Inr tok \<longrightarrow>
        (\<exists>t ls. jo_parse jo tok = Inr t \<and> jo_claims jo t public = Inr (fst p, ls) \<and> map_of ls = map_of (snd p) \<and>
           (\<forall>key. key \<noteq> public \<longrightarrow> (\<exists>e. jo_claims jo t key = Inl e))))"

text \<open>A request that names a cluster and brings a bearer token.\<close>

definition authorize_request :: "request \<Rightarrow> string \<Rightarrow> string \<Rightarrow> bool" where
  "authorize_request req clusterID token \<longleftrightarrow>
     rq_method req = ''POST'' \<and> clusterID \<noteq> [] \<and>
     (\<exists>form. rq_form req 4096 = Inr form \<and> form ''id'' = clusterID) \<and>
     bearer_auth (rq_header req ''Authorization'') = Ret (Inr token)"

text \<open>
  The payload under the first of the keys that verifies the token, and the times at which claims
  are taken, with a minute of leeway on both sides.
\<close>

definition verified :: "('k, 'p, 't) jose \<Rightarrow> 'p list \<Rightarrow> 't \<Rightarrow> payload \<Rightarrow> bool" where
  "verified jo keys t p \<longleftrightarrow>
     (\<exists>ks1 k ks2. keys = ks1 @ k # ks2 \<and> jo_claims jo t k = Inr p \<and>
        (\<forall>k' \<in> set ks1. \<exists>e. jo_claims jo t k' = Inl e))"

definition timely :: "time \<Rightarrow> jwt_claims \<Rightarrow> bool" where
  "timely now public \<longleftrightarrow>
     list_all (\<lambda>d. case d of None \<Rightarrow> True | Some n \<Rightarrow> n * Second \<le> now + Minute)
       [jc_NotBefore public, jc_IssuedAt public] \<and>
     (case jc_Expiry public of None \<Rightarrow> True | Some n \<Rightarrow> now \<le> n * Second + Minute)"

text \<open>The claims of a token issued at \<open>now\<close>, as the payload that is signed.\<close>

definition issued_claims :: "('u, 'k) authorizeClusterHandler \<Rightarrow> time \<Rightarrow> string \<Rightarrow> jwt_claims" where
  "issued_claims a now subject =
     \<lparr>jc_Issuer = ah_iss a, jc_Subject = subject, jc_Audience = [''telemeter-client''],
      jc_Expiry = NewNumericDate (now + wrap64 (ah_expireInSeconds a * Second)),
      jc_NotBefore = NewNumericDate now, jc_IssuedAt = NewNumericDate now\<rparr>"

text \<open>
  The answers to a request the cluster authorizer was asked about: coded errors keep their code,
  other errors are hidden, and a named subject gets a token if signing succeeds.
\<close>

definition authorize_answer ::
  "('k, 'p, 't) jose \<Rightarrow> ('u, 'k) authorizeClusterHandler \<Rightarrow> time \<Rightarrow> int \<Rightarrow> string \<Rightarrow> auth_err + string \<Rightarrow> response \<Rightarrow> bool" where
  "authorize_answer jo a now uid clusterID res resp =
     (case res of
        Inl err \<Rightarrow>
          (case HTTPStatusCode err of
             None \<Rightarrow> resp = http_Error (InternalError uid) 500
           | Some code \<Rightarrow> rs_status resp = code \<and> rs_retryAfter resp = (if code = 429 then Some ''300'' else None) \<and>
               (\<exists>msg. err = ErrorWithCode msg code \<and> rs_content resp = Text msg))
      | Inr subject \<Rightarrow>
          (case signature_algorithm (ah_privateKey a) of
             Inl e \<Rightarrow> resp = http_Error (sign_error_text e) 500
           | Inr alg \<Rightarrow>
               (case jo_sign jo alg (ah_privateKey a) (issued_claims a now subject, token_labels a clusterID) of
                  Inl e \<Rightarrow> resp = http_Error (Text e) 500
                | Inr tok \<Rightarrow> resp = \<lparr>rs_status = 200, rs_retryAfter = None, rs_content = Token
                    \<lparr>tr_Version = 1, tr_Token = tok, tr_ExpiresInSeconds = ah_expireInSeconds a,
                     tr_Labels = token_labels a clusterID\<rparr>\<rparr>)))"

section \<open>Lemmas\<close>

lemma GenerateToken_issued:
  "GenerateToken jo (ah_iss a) k (fst (Claims now subject ls (ah_expireInSeconds a) [''telemeter-client''])) ls =
     (case signature_algorithm k of
        Inl e \<Rightarrow> Inl e
      | Inr alg \<Rightarrow> (case jo_sign jo alg k (issued_claims a now subject, ls) of Inl e \<Rightarrow> Inl (SignErr e) | Inr tok \<Rightarrow> Inr tok))"
proof -
  have "merge_claims (merge_claims no_claims (fst (Claims now subject ls (ah_expireInSeconds a) [''telemeter-client''])))
      (no_claims\<lparr>jc_Issuer := ah_iss a\<rparr>) = issued_claims a now subject"
    by (simp add: merge_claims_def no_claims_def Claims_def issued_claims_def split: option.split)
  then show ?thesis by (simp only: GenerateToken_def)
qed

lemma authorize_request_unique:
  "authorize_request req c t \<Longrightarrow> authorize_request req c' t' \<Longrightarrow> c' = c \<and> t' = t"
  by (auto simp: authorize_request_def)

text \<open>The handler on the requests it passes to the cluster authorizer, and on all others.\<close>

lemma authorize_asks:
  assumes "authorize_request req clusterID token"
  shows "authorize_ServeHTTP jo a now uid u req =
    (case ah_clusterAuth a u token clusterID of
       (Inl err, u') \<Rightarrow> Ret (u', auth_failure uid err)
     | (Inr subject, u') \<Rightarrow>
         (case GenerateToken jo (ah_iss a) (ah_privateKey a)
                 (fst (Claims now subject (token_labels a clusterID) (ah_expireInSeconds a) [''telemeter-client'']))
                 (token_labels a clusterID) of
            Inl e \<Rightarrow> Ret (u', http_Error (sign_error_text e) StatusInternalServerError)
          | Inr tok \<Rightarrow> Ret (u', \<lparr>rs_status = StatusOK, rs_retryAfter = None,
                rs_content = Token \<lparr>tr_Version = 1, tr_Token = tok, tr_ExpiresInSeconds = ah_expireInSeconds a,
                  tr_Labels = token_labels a clusterID\<rparr>\<rparr>)))"
proof -
  have "snd (Claims now s ls e au) = ls" for s ls e au by (simp add: Claims_def)
  with assms show ?thesis
    by (cases "fst (ah_clusterAuth a u token clusterID)")
      (auto simp: authorize_ServeHTTP_def authorize_request_def Let_def case_prod_unfold)
qed

lemma authorize_answers:
  assumes "authorize_request req clusterID token" and "ah_clusterAuth a u token clusterID = (res, u')"
  shows "\<exists>resp. authorize_ServeHTTP jo a now uid u req = Ret (u', resp) \<and>
    authorize_answer jo a now uid clusterID res resp"
proof (cases res)
  case (Inl err)
  with authorize_asks [OF assms(1), of jo a now uid u] assms(2) show ?thesis
    by (cases err) (simp_all add: auth_failure_def authorize_answer_def status_defs)
next
  case (Inr subject)
  with authorize_asks [OF assms(1), of jo a now uid u] assms(2) show ?thesis
    by (cases "signature_algorithm (ah_privateKey a)")
      (auto simp: GenerateToken_issued authorize_answer_def sign_error_text_def status_defs split: sum.split)
qed

lemma authorize_refuses:
  assumes "\<nexists>clusterID token. authorize_request req clusterID token"
  shows "\<exists>msg code. authorize_ServeHTTP jo a now uid u req = Ret (u, http_Error msg code) \<and>
    (code = 400 \<or> code = 401 \<or> code = 405) \<and> (\<nexists>tr. msg = Token tr)"
proof -
  obtain res where res: "bearer_auth (rq_header req ''Authorization'') = Ret res"
    using bearer_auth_total by blast
  have "res = Inl msg \<Longrightarrow> \<exists>m. msg = Text m" for msg
    using res by (auto simp: bearer_auth_def SplitN2_def Let_def index_def split: option.splits if_splits)
  with assms res show ?thesis
    by (cases "rq_form req 4096"; cases res)
      (auto simp: authorize_ServeHTTP_def authorize_request_def Let_def status_defs)
qed

lemma aud_loop_iff: "aud_loop auds audience \<longleftrightarrow> (\<exists>a \<in> set auds. a \<in> set audience)"
  by (induction auds) (auto simp: Audience_Contains_def list_ex_iff)

lemma verified_Nil [simp]: "\<not> verified jo [] t p"
  by (simp add: verified_def)

lemma verified_Cons [simp]:
  "verified jo (key # keys) t p \<longleftrightarrow>
     (case jo_claims jo t key of Inl e \<Rightarrow> verified jo keys t p | Inr q \<Rightarrow> p = q)"
proof (cases "jo_claims jo t key")
  case (Inl e)
  have "verified jo (key # keys) t p \<longleftrightarrow> verified jo keys t p"
  proof
    assume "verified jo (key # keys) t p"
    then show "verified jo keys t p" using Inl by (fastforce simp: verified_def Cons_eq_append_conv)
  next
    assume "verified jo keys t p"
    then obtain ks1 k ks2 where "keys = ks1 @ k # ks2" "jo_claims jo t k = Inr p"
      "\<forall>k' \<in> set ks1. \<exists>e. jo_claims jo t k' = Inl e" by (auto simp: verified_def)
    then show "verified jo (key # keys) t p"
      unfolding verified_def by (intro exI [of _ "key # ks1"] exI [of _ k] exI [of _ ks2]) (simp add: Inl)
  qed
  with Inl show ?thesis by simp
next
  case (Inr q)
  then show ?thesis by (force simp: verified_def Cons_eq_append_conv)
qed

lemma key_loop_Inr: "key_loop jo t errs keys = Inr p \<longleftrightarrow> verified jo keys t p"
  by (induction keys arbitrary: errs) (auto split: sum.split)

lemma key_loop_Inl: "key_loop jo t errs keys = Inl es \<Longrightarrow> length es = length errs + length keys"
  by (induction keys arbitrary: errs) (auto split: sum.splits)

lemma multipleErrors_None: "multipleErrors errs = None \<longleftrightarrow> errs = []"
  by (auto simp: multipleErrors_def)

lemma validator_Validate_Inr:
  "validator_Validate auds now public (PrivateClaims private) = Inr c \<longleftrightarrow>
     (\<exists>a \<in> set auds. a \<in> set (jc_Audience public)) \<and>
     timely now public \<and> c = Some \<lparr>cl_ID = jc_Subject public, cl_Labels = private\<rparr>"
  by (auto simp: validator_Validate_def ValidateWithLeeway_def Let_def DefaultLeeway_def aud_loop_iff timely_def
      split: option.splits jwt_err.splits if_splits)

lemma map_of_fold_AList_update:
  "distinct (map fst new) \<Longrightarrow>
     map_of (fold (\<lambda>(k, v). AList.update k v) new kvs) = map_of kvs ++ map_of new"
proof (induction new arbitrary: kvs)
  case (Cons x new)
  then show ?case
    by (cases x) (force simp: fun_eq_iff update_conv' map_add_def image_iff split: option.split dest: map_of_SomeD)
qed simp

text \<open>Where a token in a response comes from.\<close>

lemma authorize_answer_token:
  assumes "authorize_answer jo a now uid clusterID res resp" and "rs_content resp = Token tr"
  shows "\<exists>subject alg. res = Inr subject \<and> tr_Labels tr = token_labels a clusterID \<and>
    jo_sign jo alg (ah_privateKey a) (issued_claims a now subject, token_labels a clusterID) = Inr (tr_Token tr)"
proof (cases res)
  case (Inl err)
  with assms show ?thesis by (cases err) (auto simp: authorize_answer_def)
next
  case (Inr subject)
  with assms show ?thesis
    by (cases "signature_algorithm (ah_privateKey a)")
      (auto simp: authorize_answer_def sign_error_text_def split: sum.splits sign_err.splits)
qed

lemma authorize_token:
  assumes "authorize_ServeHTTP jo a now uid u req = Ret (u', resp)" and "rs_content resp = Token tr"
  shows "\<exists>clusterID token subject alg. authorize_request req clusterID token \<and>
    ah_clusterAuth a u token clusterID = (Inr subject, u') \<and> tr_Labels tr = token_labels a clusterID \<and>
    jo_sign jo alg (ah_privateKey a) (issued_claims a now subject, token_labels a clusterID) = Inr (tr_Token tr)"
proof (cases "\<exists>clusterID token. authorize_request req clusterID token")
  case True
  then obtain clusterID token where rq: "authorize_request req clusterID token" by blast
  obtain res u1 where ca: "ah_clusterAuth a u token clusterID = (res, u1)" by (cases "ah_clusterAuth a u token clusterID")
  from authorize_answers [OF rq ca, of jo now uid] assms(1) have
    ans: "authorize_answer jo a now uid clusterID res resp" and u1: "u1 = u'" by auto
  from authorize_answer_token [OF ans assms(2)] rq ca u1 show ?thesis by blast
next
  case False
  with authorize_refuses [OF False, of jo a now uid u] assms show ?thesis by auto
qed

lemma token_labels_distinct: "distinct (map fst (token_labels a clusterID))"
proof -
  have "distinct (map fst kvs) \<Longrightarrow> distinct (map fst (fold (\<lambda>(k, v). AList.update k v) new kvs))"
    for new and kvs :: labels
    by (induction new arbitrary: kvs) (auto simp: distinct_update)
  then show ?thesis by (simp add: token_labels_def)
qed

lemma verified_matching:
  "key \<in> set keys \<Longrightarrow> jo_claims jo t key = Inr p \<Longrightarrow> \<forall>k. k \<noteq> key \<longrightarrow> (\<exists>e. jo_claims jo t k = Inl e) \<Longrightarrow>
     verified jo keys t p"
proof (induction keys)
  case (Cons k keys)
  then show ?case by (cases "k = key") (auto split: sum.split)
qed simp

text \<open>The dates of an issued token: whole seconds, far from every bound.\<close>

lemma issued_expiry:
  assumes "0 \<le> now" "now < 2 ^ 62" "0 \<le> e" "e \<le> 9000000000"
  shows "NewNumericDate (now + wrap64 (e * Second)) = Some (now div Second + e)"
    and "NewNumericDate now = Some (now div Second)"
proof -
  have "wrap64 (e * Second) = e * Second"
    using assms by (intro wrap64_id) (simp add: is_int64_def Second_def)
  then show "NewNumericDate (now + wrap64 (e * Second)) = Some (now div Second + e)"
    using assms by (simp add: NewNumericDate_def zero_time_def Unix_def Second_def)
  show "NewNumericDate now = Some (now div Second)"
    using assms by (simp add: NewNumericDate_def zero_time_def Unix_def Second_def)
qed

lemma issued_dates:
  assumes "0 \<le> now" "now < 2 ^ 62" "0 \<le> ah_expireInSeconds a" "ah_expireInSeconds a \<le> 9000000000"
  shows "exact_date (jc_Expiry (issued_claims a now subject))"
    and "exact_date (jc_NotBefore (issued_claims a now subject))"
    and "exact_date (jc_IssuedAt (issued_claims a now subject))"
proof -
  have "0 \<le> now div Second" and "now div Second < 2 ^ 33"
    using assms by (simp_all add: Second_def)
  then show "exact_date (jc_Expiry (issued_claims a now subject))"
    "exact_date (jc_NotBefore (issued_claims a now subject))"
    "exact_date (jc_IssuedAt (issued_claims a now subject))"
    using assms by (simp_all add: issued_claims_def issued_expiry exact_date_def)
qed

lemma validate_issued:
  assumes "0 \<le> now" "now < 2 ^ 62" "0 \<le> ah_expireInSeconds a" "ah_expireInSeconds a \<le> 9000000000"
    and "''telemeter-client'' \<in> set auds"
  shows "validator_Validate auds at (issued_claims a now subject) (PrivateClaims ls) =
    (if at + Minute < now div Second * Second then Inl TokenNotValidated
     else if at - Minute > (now div Second + ah_expireInSeconds a) * Second then Inl TokenExpired
     else Inr (Some \<lparr>cl_ID = subject, cl_Labels = ls\<rparr>))"
  using assms
  by (auto simp: validator_Validate_def ValidateWithLeeway_def issued_claims_def issued_expiry aud_loop_iff
      DefaultLeeway_def Let_def)

text \<open>The token of a response, followed through the authorizer.\<close>

lemma issued_token_client:
  assumes run: "authorize_ServeHTTP jo a now uid u req = Ret (u', resp)" and tr: "rs_content resp = Token tr"
    and contract: "jose_contract jo (ah_privateKey a) key" and keys: "key \<in> set (ca_keys j)"
    and conf: "ca_iss j = ah_iss a" "''telemeter-client'' \<in> set (ca_auds j)"
    and ascii: "ascii (ah_iss a)" "ascii_labels (tr_Labels tr)"
      "\<forall>token clusterID subject. ah_clusterAuth a u token clusterID = (Inr subject, u') \<longrightarrow> ascii subject"
    and times: "0 \<le> now" "now < 2 ^ 62" "0 \<le> ah_expireInSeconds a" "ah_expireInSeconds a \<le> 9000000000"
  shows "\<exists>token clusterID subject ls.
    authorize_request req clusterID token \<and> ah_clusterAuth a u token clusterID = (Inr subject, u') \<and>
    tr_Labels tr = token_labels a clusterID \<and> map_of ls = map_of (tr_Labels tr) \<and>
    AuthorizeClient jo j at (tr_Token tr) =
      (if at + Minute < now div Second * Second then Inl TokenNotValidated
       else if at - Minute > (now div Second + ah_expireInSeconds a) * Second then Inl TokenExpired
       else Inr (Some \<lparr>cl_ID = subject, cl_Labels = ls\<rparr>))"
proof -
  obtain clusterID token subject alg where
    rq: "authorize_request req clusterID token" and ca: "ah_clusterAuth a u token clusterID = (Inr subject, u')" and
    lbls: "tr_Labels tr = token_labels a clusterID" and
    sign: "jo_sign jo alg (ah_privateKey a) (issued_claims a now subject, token_labels a clusterID) = Inr (tr_Token tr)"
    using authorize_token [OF run tr] by blast
  have "representable (issued_claims a now subject, token_labels a clusterID)"
    using ascii(1,2) ascii(3) [rule_format, OF ca] issued_dates [OF times, of subject] lbls
    by (simp add: representable_def issued_claims_def exact_date_def ascii_def token_labels_distinct)
  with contract sign obtain t ls where
    parse: "jo_parse jo (tr_Token tr) = Inr t" and
    claims: "jo_claims jo t key = Inr (issued_claims a now subject, ls)" and
    ls: "map_of ls = map_of (token_labels a clusterID)" and
    others: "\<forall>k. k \<noteq> key \<longrightarrow> (\<exists>e. jo_claims jo t k = Inl e)"
    unfolding jose_contract_def by fastforce
  have "key_loop jo t [] (ca_keys j) = Inr (issued_claims a now subject, ls)"
    using verified_matching [OF keys claims others] by (simp add: key_loop_Inr)
  then have "AuthorizeClient jo j at (tr_Token tr) =
      validator_Validate (ca_auds j) at (issued_claims a now subject) (PrivateClaims ls)"
    using parse conf by (simp add: AuthorizeClient_def issued_claims_def split: sum.split)
  with rq ca lbls ls show ?thesis using validate_issued [OF times conf(2)] by auto
qed

section \<open>Properties\<close>

text \<open>
  the client authorizer returns a client exactly for a token that parses, whose signature the
  first key that accepts it verifies, that has the expected issuer and one of the expected
  audiences, and whose times admit the present up to a minute of leeway; the client is the subject
  and the labels of the token.
\<close>

theorem AuthorizeClient_exact:
  "AuthorizeClient jo j now tokenData = Inr (Some c) \<longleftrightarrow>
    (\<exists>t public private. jo_parse jo tokenData = Inr t \<and> verified jo (ca_keys j) t (public, private) \<and>
       jc_Issuer public = ca_iss j \<and> (\<exists>a \<in> set (ca_auds j). a \<in> set (jc_Audience public)) \<and>
       timely now public \<and> c = \<lparr>cl_ID = jc_Subject public, cl_Labels = private\<rparr>)"
proof (cases "jo_parse jo tokenData")
  case (Inl e)
  then show ?thesis by (simp add: AuthorizeClient_def)
next
  case (Inr t)
  have "AuthorizeClient jo j now tokenData = Inr (Some c) \<longleftrightarrow>
      (\<exists>public private. key_loop jo t [] (ca_keys j) = Inr (public, private) \<and> jc_Issuer public = ca_iss j \<and>
         validator_Validate (ca_auds j) now public (PrivateClaims private) = Inr (Some c))"
    using Inr by (auto simp: AuthorizeClient_def split: sum.splits option.splits prod.splits)
  with Inr show ?thesis unfolding key_loop_Inr validator_Validate_Inr by auto
qed

text \<open>
  the authorizer returns neither a client nor an error exactly when it has no keys and the
  token parses.
\<close>

theorem AuthorizeClient_nil:
  "AuthorizeClient jo j now tokenData = Inr None \<longleftrightarrow> ca_keys j = [] \<and> (\<exists>t. jo_parse jo tokenData = Inr t)"
proof (cases "jo_parse jo tokenData")
  case (Inr t)
  show ?thesis
  proof (cases "key_loop jo t [] (ca_keys j)")
    case (Inl errs)
    with Inr key_loop_Inl [OF Inl] show ?thesis
      by (auto simp: AuthorizeClient_def multipleErrors_None split: option.split)
         (metis multipleErrors_None option.distinct(1))
  next
    case (Inr p)
    then have "ca_keys j \<noteq> []" by auto
    with Inr \<open>jo_parse jo tokenData = Inr t\<close> show ?thesis
      using validator_Validate_Inr [of "ca_auds j" now "fst p" "snd p" None]
      by (cases p) (auto simp: AuthorizeClient_def split: sum.splits)
  qed
qed (simp add: AuthorizeClient_def)


text \<open>
  C35: a token that \<^verbatim>\<open>/authorize\<close> hands out is a valid proof of identity for its whole
  life.  An authorizer with the same issuer, the matching key among its keys (in any position, as
  under key rotation) and the audience of clients accepts it from a minute before it was issued
  until a minute after it expires, and refuses it at any other time; the client it yields is the
  subject the cluster authorizer named, with the labels of the response.
\<close>

theorem issued_token_accepted:
  assumes run: "authorize_ServeHTTP jo a now uid u req = Ret (u', resp)" and tr: "rs_content resp = Token tr"
    and contract: "jose_contract jo (ah_privateKey a) key" and keys: "key \<in> set (ca_keys j)"
    and conf: "ca_iss j = ah_iss a" "''telemeter-client'' \<in> set (ca_auds j)"
    and ascii: "ascii (ah_iss a)" "ascii_labels (tr_Labels tr)"
      "\<forall>token clusterID subject. ah_clusterAuth a u token clusterID = (Inr subject, u') \<longrightarrow> ascii subject"
    and times: "0 \<le> now" "now < 2 ^ 62" "0 \<le> ah_expireInSeconds a" "ah_expireInSeconds a \<le> 9000000000"
  shows "\<exists>token clusterID subject ls.
    authorize_request req clusterID token \<and> ah_clusterAuth a u token clusterID = (Inr subject, u') \<and>
    tr_Labels tr = token_labels a clusterID \<and> map_of ls = map_of (tr_Labels tr) \<and>
    AuthorizeClient jo j at (tr_Token tr) =
      (if at + Minute < now div Second * Second then Inl TokenNotValidated
       else if at - Minute > (now div Second + ah_expireInSeconds a) * Second then Inl TokenExpired
       else Inr (Some \<lparr>cl_ID = subject, cl_Labels = ls\<rparr>))"
  by (rule issued_token_client [OF assms])

text \<open>A library that can sign one payload, a server that uses it and a request to it.\<close>

definition example_authorizer :: "(unit, nat) authorizeClusterHandler" where
  "example_authorizer = \<lparr>ah_clusterIDKey = ''_id'', ah_labels = [], ah_expireInSeconds = 3600,
     ah_iss = ''telemeter.selfsigned'', ah_privateKey = ECDSA P256 0,
     ah_clusterAuth = (\<lambda>u token clusterID. (Inr ''account'', u))\<rparr>"

definition example_payload :: payload where
  "example_payload = (issued_claims example_authorizer 0 ''account'', [(''_id'', ''c1'')])"

definition example_jose :: "(nat, nat, unit) jose" where
  "example_jose = \<lparr>jo_sign = (\<lambda>alg k p. if p = example_payload then Inr ''token'' else Inl ''unsupported''),
     jo_parse = (\<lambda>s. if s = ''token'' then Inr () else Inl ''malformed''),
     jo_claims = (\<lambda>t key. if key = 7 then Inr example_payload else Inl ''bad signature'')\<rparr>"

definition example_authorize_request :: request where
  "example_authorize_request = \<lparr>rq_method = ''POST'', rq_header = (\<lambda>_. ''Bearer secret''),
     rq_form = (\<lambda>_. Inr (\<lambda>_. ''c1'')), rq_body = Stream \<lparr>st_chunks = [], st_end = EOF, st_eager = True\<rparr>,
     rq_client = None, rq_cluster = None, rq_tenant = None, rq_values = (\<lambda>_. None)\<rparr>"

definition example_clients :: "nat clientAuthorizer" where
  "example_clients = \<lparr>ca_iss = ''telemeter.selfsigned'', ca_keys = [3, 7], ca_auds = [''telemeter-client'']\<rparr>"

lemma example_asks: "authorize_request example_authorize_request ''c1'' ''secret''"
proof -
  have "ToLower ''Bearer'' = ''bearer''" by code_simp
  moreover have "TrimSpace ''secret'' \<noteq> []" by (simp add: TrimSpace_plain plain_char_def)
  ultimately have "bearer_auth ''Bearer secret'' = Ret (Inr ''secret'')"
    unfolding bearer_auth_Inr by (intro exI [of _ "''Bearer''"]) simp
  then show ?thesis by (simp add: authorize_request_def example_authorize_request_def)
qed

lemma example_issues:
  "authorize_ServeHTTP example_jose example_authorizer 0 0 () example_authorize_request =
     Ret ((), \<lparr>rs_status = 200, rs_retryAfter = None, rs_content = Token \<lparr>tr_Version = 1, tr_Token = ''token'',
       tr_ExpiresInSeconds = 3600, tr_Labels = [(''_id'', ''c1'')]\<rparr>\<rparr>)"
proof -
  have ca: "ah_clusterAuth example_authorizer () ''secret'' ''c1'' = (Inr ''account'', ())"
    by (simp add: example_authorizer_def)
  have tl: "token_labels example_authorizer ''c1'' = [(''_id'', ''c1'')]"
    by (simp add: token_labels_def example_authorizer_def)
  have sg: "jo_sign example_jose ES256 (ECDSA P256 0) (issued_claims example_authorizer 0 ''account'', [(''_id'', ''c1'')]) =
      Inr ''token''" by (simp add: example_jose_def example_payload_def)
  have "ah_privateKey example_authorizer = ECDSA P256 0" and "ah_expireInSeconds example_authorizer = 3600"
    by (simp_all add: example_authorizer_def)
  with authorize_answers [OF example_asks ca, of example_jose 0 0] show ?thesis
    by (auto simp: authorize_answer_def tl sg)
qed

lemma example_contract: "jose_contract example_jose (ah_privateKey example_authorizer) 7"
  by (auto simp: jose_contract_def example_jose_def split: if_splits) (metis snd_conv)

theorem issued_token_accepted_witness:
  "(\<exists>ls. map_of ls = map_of [(''_id'', ''c1'')] \<and>
     AuthorizeClient example_jose example_clients (100 * Second) ''token'' =
       Inr (Some \<lparr>cl_ID = ''account'', cl_Labels = ls\<rparr>)) \<and>
   AuthorizeClient example_jose example_clients (3661 * Second) ''token'' = Inl TokenExpired"
proof -
  let ?tr = "\<lparr>tr_Version = 1, tr_Token = ''token'', tr_ExpiresInSeconds = 3600, tr_Labels = [(''_id'', ''c1'')]\<rparr>"
  note accepted = issued_token_accepted [OF example_issues _ example_contract, where tr = ?tr and j = example_clients]
  have side: "7 \<in> set (ca_keys example_clients)" "ca_iss example_clients = ah_iss example_authorizer"
    "''telemeter-client'' \<in> set (ca_auds example_clients)" "ascii (ah_iss example_authorizer)"
    "ascii_labels (tr_Labels ?tr)" "0 \<le> ah_expireInSeconds example_authorizer"
    "ah_expireInSeconds example_authorizer \<le> 9000000000"
    by (simp_all add: example_clients_def example_authorizer_def ascii_def ascii_labels_def of_char_Char)
  have subject: "\<forall>token clusterID subject. ah_clusterAuth example_authorizer () token clusterID = (Inr subject, ()) \<longrightarrow>
      ascii subject" and exp: "ah_expireInSeconds example_authorizer = 3600"
    by (simp_all add: example_authorizer_def ascii_def of_char_Char)
  have "ah_clusterAuth example_authorizer () token clusterID = (Inr subject, ()) \<Longrightarrow> subject = ''account''"
    for token clusterID subject by (simp add: example_authorizer_def)
  then have account: "\<exists>ls. map_of ls = map_of [(''_id'', ''c1'')] \<and>
      AuthorizeClient example_jose example_clients at ''token'' =
      (if at + Minute < 0 div Second * Second then Inl TokenNotValidated
       else if at - Minute > (0 div Second + 3600) * Second then Inl TokenExpired
       else Inr (Some \<lparr>cl_ID = ''account'', cl_Labels = ls\<rparr>))" for at
    using accepted [OF _ side(1-5) subject _ _ side(6,7), where at = at] exp by auto
  from account [of "100 * Second"] account [of "3661 * Second"] show ?thesis
    by (simp add: Second_def Minute_def)
qed

end
