(* ===== verification/Receive.thy ===== *)
theory Receive
  imports Authorize Timeseries Whitelist
begin

text \<open>
  \<^verbatim>\<open>pkg/receive/handler.go\<close>: the remote-write path of the v2 server and of rhelemeter.  A
  request is cut at a size, decoded, its series are checked, filtered and cleaned in place, and
  what is left is encoded again and forwarded.
\<close>

section \<open>State and parameters\<close>

record write_request =
  wr_Timeseries :: "timeseries list"
  wr_Metadata :: "string list"

record receiver =
  rv_ForwardURL :: string
  rv_elide :: "string list"
  rv_matcherSets :: "matcher list list"
  rv_requiredValues :: "(string \<times> ctx_key) list"

text \<open>The Prometheus counters of the handler and the upstream.\<close>

record 'u receive_state =
  rc_forwardRequests :: "string \<Rightarrow> nat"
  rc_sizeLimited :: nat
  rc_missingLabels :: nat
  rc_incorrectValues :: nat
  rc_seriesProcessed :: nat
  rc_metadataRequests :: nat
  rc_upstream :: 'u

text \<open>Code outside the repository: snappy, protobuf, \<^verbatim>\<open>sort.Sort\<close> and the HTTP client.\<close>

record 'u receive_ext =
  re_room :: "nat \<Rightarrow> nat"
  re_snappyDecode :: "string \<Rightarrow> string + string"
  re_unmarshal :: "string \<Rightarrow> string + write_request"
  re_marshal :: "write_request \<Rightarrow> string + string"
  re_snappyEncode :: "string \<Rightarrow> string"
  re_sort :: label_sorter
  re_newRequest :: "string \<Rightarrow> string option"
  re_do :: "'u \<Rightarrow> string \<times> body \<Rightarrow> (string + http_response) \<times> 'u"

definition count_forward :: "string \<Rightarrow> 'u receive_state \<Rightarrow> 'u receive_state" where
  "count_forward result s =
     s\<lparr>rc_forwardRequests := (rc_forwardRequests s)(result := Suc (rc_forwardRequests s result))\<rparr>"

section \<open>NewHandler\<close>

fun rule_loop :: "(string \<Rightarrow> 'e + matcher list) \<Rightarrow> matcher list list \<Rightarrow> string list \<Rightarrow> 'e + matcher list list" where
  "rule_loop parse ms [] = Inr ms"
| "rule_loop parse ms (rule # rules) =
     (case parse rule of Inl e \<Rightarrow> Inl e | Inr matchers \<Rightarrow> rule_loop parse (ms @ [matchers]) rules)"

definition receive_NewHandler ::
  "(string \<Rightarrow> 'e + matcher list) \<Rightarrow> string \<Rightarrow> string list \<Rightarrow> string list \<Rightarrow> (string \<times> ctx_key) list \<Rightarrow> 'e + receiver" where
  "receive_NewHandler parse forwardURL whitelistRules elideLabels requiredLabelVals =
     (case rule_loop parse [] whitelistRules of
        Inl e \<Rightarrow> Inl e
      | Inr ms \<Rightarrow> Inr \<lparr>rv_ForwardURL = forwardURL, rv_elide = elideLabels, rv_matcherSets = ms,
                       rv_requiredValues = requiredLabelVals\<rparr>)"

section \<open>Receive\<close>

definition Receive_answer :: "'u receive_ext \<Rightarrow> http_response \<Rightarrow> 'u receive_state \<Rightarrow> 'u receive_state \<times> response" where
  "Receive_answer x resp s =
     (if trunc_div (hr_status resp) 100 \<noteq> 2
      then (let msg = (case ReadAll (re_room x) [] (hr_body resp) of
                         (b, None) \<Rightarrow> Text (''upstream response status is not 200 OK: '' @ b)
                       | (b, Some e) \<Rightarrow> UpstreamUnreadable e)
            in (count_forward ''error'' s, http_Error msg (hr_status resp)))
      else (count_forward ''success'' s, status_only (hr_status resp)))"

definition Receive :: "'u receive_ext \<Rightarrow> receiver \<Rightarrow> 'u receive_state handler" where
  "Receive x h = (\<lambda>s r.
     if rq_method r \<noteq> ''POST'' then Ret (s, status_only StatusMethodNotAllowed)
     else (case re_newRequest x (rv_ForwardURL h) of
             Some e \<Rightarrow> Ret (count_forward ''error'' s, http_Error (Text e) StatusInternalServerError)
           | None \<Rightarrow>
               (case re_do x (rc_upstream s) (rv_ForwardURL h, rq_body r) of
                  (Inl e, u) \<Rightarrow> Ret (count_forward ''error'' (s\<lparr>rc_upstream := u\<rparr>), http_Error (Text e) StatusBadGateway)
                | (Inr resp, u) \<Rightarrow> Ret (Receive_answer x resp (s\<lparr>rc_upstream := u\<rparr>)))))"

section \<open>LimitBodySize\<close>

definition LimitBodySize :: "'u receive_ext \<Rightarrow> int \<Rightarrow> 'u receive_state handler \<Rightarrow> 'u receive_state handler" where
  "LimitBodySize x limit nxt = (\<lambda>s r.
     (case ReadAll (re_room x) [] (rq_body r) of
        (_, Some e) \<Rightarrow> Ret (count_forward ''error'' s, http_Error (ReadError e) StatusInternalServerError)
      | (data, None) \<Rightarrow>
          if int (length data) \<ge> limit
          then Ret (s\<lparr>rc_sizeLimited := Suc (rc_sizeLimited s)\<rparr>,
                 http_Error (Text ''request too big'') StatusRequestEntityTooLarge)
          else nxt s (r\<lparr>rq_body := buffer data\<rparr>)))"

section \<open>The whitelist\<close>

fun lbl_matches :: "matcher \<Rightarrow> prom_label list \<Rightarrow> bool" where
  "lbl_matches m [] = False"
| "lbl_matches m (lbl # l) =
     (if pl_Name lbl \<noteq> mt_Name m \<or> \<not> mt_Matches m (pl_Value lbl) then lbl_matches m l else True)"

fun matches :: "prom_label list \<Rightarrow> matcher list \<Rightarrow> bool" where
  "matches l [] = True"
| "matches l (m # matchers) = (if lbl_matches m l then matches l matchers else False)"

fun whitelisted_loop :: "prom_label list \<Rightarrow> bool \<Rightarrow> matcher list list \<Rightarrow> bool" where
  "whitelisted_loop l ok [] = ok"
| "whitelisted_loop l ok (ms # sets) = whitelisted_loop l (if matches l ms then True else ok) sets"

definition isWhitelisted :: "receiver \<Rightarrow> prom_label list \<Rightarrow> bool" where
  "isWhitelisted h l =
     (if length (rv_matcherSets h) = 0 then True else whitelisted_loop l False (rv_matcherSets h))"

section \<open>TransformAndValidateWriteRequest\<close>

text \<open>
  The labels of a series are compacted in their own array: \<open>i\<close> is the label read and \<open>n\<close> the
  place the next label that stays is written to.
\<close>

function clean_loop :: "string list \<Rightarrow> prom_label list \<Rightarrow> nat \<Rightarrow> nat \<Rightarrow> string set \<Rightarrow> prom_label list" where
  "clean_loop elide ls i n dedup =
     (if i < length ls then
        (let l = ls ! i
         in if pl_Name l = [] \<or> pl_Value l = [] then clean_loop elide ls (Suc i) n dedup
            else if pl_Name l \<in> dedup then clean_loop elide ls (Suc i) n dedup
            else if pl_Name l \<in> set elide then clean_loop elide ls (Suc i) n dedup
            else clean_loop elide (ls[n := l]) (Suc i) (Suc n) (insert (pl_Name l) dedup))
      else take n ls)"
  by pat_completeness auto
termination
  by (relation "measure (\<lambda>(elide, ls, i, n, dedup). length ls - i)") auto

declare clean_loop.simps [simp del]

text \<open>How many of the labels have a required name.\<close>

fun found_loop :: "string list \<Rightarrow> nat \<Rightarrow> prom_label list \<Rightarrow> nat" where
  "found_loop labels found [] = found"
| "found_loop labels found (l # ls) =
     found_loop labels (if pl_Name l \<in> set labels then Suc found else found) ls"

definition missing_labels :: "string list \<Rightarrow> timeseries \<Rightarrow> bool" where
  "missing_labels labels ts \<longleftrightarrow>
     length (ts_Labels ts) < length labels \<or> length labels \<noteq> found_loop labels 0 (ts_Labels ts)"

text \<open>
  The loop over the series, in the array of the request: \<open>i\<close> is the series read and \<open>n\<close> the place
  the next series that stays is written to.  \<open>None\<close> is the early return for a missing label.
\<close>

function series_loop ::
  "receiver \<Rightarrow> label_sorter \<Rightarrow> string list \<Rightarrow> 'u receive_state \<Rightarrow> timeseries list \<Rightarrow> nat \<Rightarrow> nat \<Rightarrow>
   'u receive_state \<times> timeseries list option" where
  "series_loop h srt labels s tss i n =
     (if i < length tss then
        (let ts = tss ! i
         in if missing_labels labels ts then (s\<lparr>rc_missingLabels := Suc (rc_missingLabels s)\<rparr>, None)
            else if isWhitelisted h (ts_Labels ts)
            then (let lbls = clean_loop (rv_elide h) (ts_Labels ts) 0 0 {};
                      ts' = ts\<lparr>ts_Labels := sortLabels srt lbls\<rparr>
                  in series_loop h srt labels (s\<lparr>rc_seriesProcessed := Suc (rc_seriesProcessed s)\<rparr>)
                       (tss[n := ts']) (Suc i) (Suc n))
            else series_loop h srt labels s tss (Suc i) n)
      else (s, Some (take n tss)))"
  by pat_completeness auto
termination
  by (relation "measure (\<lambda>(h, srt, labels, s, tss, i, n). length tss - i)") auto

declare series_loop.simps [simp del]

text \<open>The check of label values against the context of the request.\<close>

fun values_ok :: "(string \<times> ctx_key) list \<Rightarrow> (ctx_key \<Rightarrow> string option) \<Rightarrow> prom_label list \<Rightarrow> bool" where
  "values_ok required ctx [] = True"
| "values_ok required ctx (l # ls) =
     (case map_of required (pl_Name l) of
        None \<Rightarrow> values_ok required ctx ls
      | Some key \<Rightarrow> (if ctx key = None \<or> ctx key \<noteq> Some (pl_Value l) then False else values_ok required ctx ls))"

fun series_values_ok :: "(string \<times> ctx_key) list \<Rightarrow> (ctx_key \<Rightarrow> string option) \<Rightarrow> timeseries list \<Rightarrow> bool" where
  "series_values_ok required ctx [] = True"
| "series_values_ok required ctx (ts # tss) =
     (if values_ok required ctx (ts_Labels ts) then series_values_ok required ctx tss else False)"

text \<open>From the filtered series on.\<close>

definition write_filtered ::
  "'u receive_ext \<Rightarrow> receiver \<Rightarrow> 'u receive_state handler \<Rightarrow> request \<Rightarrow> write_request \<Rightarrow> 'u receive_state \<Rightarrow>
   ('u receive_state \<times> response) go" where
  "write_filtered x h nxt r wreq s =
     (if length (wr_Timeseries wreq) = 0
      then Ret (s, http_Error (Text ''empty remote write request after telemeter processing'') StatusBadRequest)
      else if length (rv_requiredValues h) > 0 \<and>
        \<not> series_values_ok (rv_requiredValues h) (rq_values r) (wr_Timeseries wreq)
      then Ret (s\<lparr>rc_incorrectValues := Suc (rc_incorrectValues s)\<rparr>,
             http_Error (Text ''a required label value is incorrect'') StatusBadRequest)
      else (case re_marshal x wreq of
              Inl e \<Rightarrow> Ret (count_forward ''error'' s, http_Error (Text ''failed to marshal proto'') StatusInternalServerError)
            | Inr data \<Rightarrow> nxt s (r\<lparr>rq_body := buffer (re_snappyEncode x data)\<rparr>)))"

definition metadata_message :: string where
  "metadata_message = ''{'' @ [CHR 0x22] @ ''message'' @ [CHR 0x22] @ '':'' @ [CHR 0x22] @
     ''metadata requests are not supported yet, silently discarding'' @ [CHR 0x22] @ ''}'' @ [CHR 0x0A]"

definition TransformAndValidateWriteRequest ::
  "'u receive_ext \<Rightarrow> receiver \<Rightarrow> 'u receive_state handler \<Rightarrow> string list \<Rightarrow> 'u receive_state handler" where
  "TransformAndValidateWriteRequest x h nxt labels = (\<lambda>s r.
     (case ReadAll (re_room x) [] (rq_body r) of
        (_, Some e) \<Rightarrow> Ret (count_forward ''error'' s, http_Error (Text ''failed to read body'') StatusInternalServerError)
      | (data, None) \<Rightarrow>
          (case re_snappyDecode x data of
             Inl e \<Rightarrow> Ret (count_forward ''error'' s, http_Error (Text ''failed to decode request body'') StatusBadRequest)
           | Inr cont \<Rightarrow>
               (case re_unmarshal x cont of
                  Inl e \<Rightarrow> Ret (count_forward ''error'' s,
                            http_Error (Text ''failed to decode protobuf from body'') StatusBadRequest)
                | Inr wreq \<Rightarrow>
                    if length (wr_Timeseries wreq) = 0 \<and> length (wr_Metadata wreq) > 0
                    then Ret (s\<lparr>rc_metadataRequests := Suc (rc_metadataRequests s)\<rparr>,
                           \<lparr>rs_status = StatusOK, rs_retryAfter = None, rs_content = Text metadata_message\<rparr>)
                    else (case series_loop h (re_sort x) labels s (wr_Timeseries wreq) 0 0 of
                            (s1, None) \<Rightarrow> Ret (s1, http_Error (Text ''a required label is missing from the metric'')
                                             StatusBadRequest)
                          | (s1, Some tss) \<Rightarrow> write_filtered x h nxt r (wreq\<lparr>wr_Timeseries := tss\<rparr>) s1)))))"

section \<open>The route\<close>

text \<open>
  \<^verbatim>\<open>/metrics/v1/receive\<close> behind the authorization: the telemeter server requires the cluster ID
  label, rhelemeter requires none but compares the subject label with the client certificate.
\<close>

definition receive_route ::
  "'u receive_ext \<Rightarrow> receiver \<Rightarrow> int \<Rightarrow> string list \<Rightarrow> 'u receive_state handler" where
  "receive_route x h limit labels =
     LimitBodySize x limit (TransformAndValidateWriteRequest x h (Receive x h) labels)"

section \<open>What the loops compute\<close>

text \<open>The labels that stay: the first of each name that is not elided, with a name and a value.\<close>

fun keep_labels :: "string list \<Rightarrow> string set \<Rightarrow> prom_label list \<Rightarrow> prom_label list" where
  "keep_labels elide dedup [] = []"
| "keep_labels elide dedup (l # ls) =
     (if pl_Name l = [] \<or> pl_Value l = [] \<or> pl_Name l \<in> dedup \<or> pl_Name l \<in> set elide
      then keep_labels elide dedup ls
      else l # keep_labels elide (insert (pl_Name l) dedup) ls)"

definition sanitize :: "receiver \<Rightarrow> label_sorter \<Rightarrow> timeseries \<Rightarrow> timeseries" where
  "sanitize h srt ts = ts\<lparr>ts_Labels := srt (keep_labels (rv_elide h) {} (ts_Labels ts))\<rparr>"

text \<open>What a series must look like when it leaves.\<close>

definition sanitized :: "string list \<Rightarrow> timeseries \<Rightarrow> bool" where
  "sanitized elide ts \<longleftrightarrow>
     sorted_wrt label_less (ts_Labels ts) \<and>
     list_all (\<lambda>l. pl_Name l \<noteq> [] \<and> pl_Value l \<noteq> [] \<and> pl_Name l \<notin> set elide) (ts_Labels ts)"

definition labelled :: "string list \<Rightarrow> timeseries \<Rightarrow> bool" where
  "labelled labels ts \<longleftrightarrow> length (filter (\<lambda>l. pl_Name l \<in> set labels) (ts_Labels ts)) = length labels"

definition allowed :: "receiver \<Rightarrow> timeseries \<Rightarrow> bool" where
  "allowed h ts \<longleftrightarrow>
     rv_matcherSets h = [] \<or>
     (\<exists>rule \<in> set (rv_matcherSets h). \<forall>m \<in> set rule. \<exists>l \<in> set (ts_Labels ts).
        pl_Name l = mt_Name m \<and> mt_Matches m (pl_Value l))"

text \<open>The loop over the series as a filter, with its counters.\<close>

definition filter_series ::
  "receiver \<Rightarrow> label_sorter \<Rightarrow> string list \<Rightarrow> 'u receive_state \<Rightarrow> timeseries list \<Rightarrow>
   'u receive_state \<times> timeseries list option" where
  "filter_series h srt labels s tss =
     (let done = filter (allowed h) (takeWhile (labelled labels) tss);
          s' = s\<lparr>rc_seriesProcessed := rc_seriesProcessed s + length done\<rparr>
      in if list_all (labelled labels) tss then (s', Some (map (sanitize h srt) done))
         else (s'\<lparr>rc_missingLabels := Suc (rc_missingLabels s)\<rparr>, None))"

section \<open>Lemmas\<close>

lemma take_update_snoc: "n < length xs \<Longrightarrow> take (Suc n) (xs[n := x]) = take n xs @ [x]"
  by (simp add: take_Suc_conv_app_nth)

lemma clean_loop_keep:
  "n \<le> i \<Longrightarrow> clean_loop elide ls i n dedup = take n ls @ keep_labels elide dedup (drop i ls)"
proof (induction elide ls i n dedup rule: clean_loop.induct)
  case (1 elide ls i n dedup)
  show ?case
  proof (cases "i < length ls")
    case True
    with 1 have "n < length ls" by simp
    note 1(4) [OF True refl]
    with True 1 \<open>n < length ls\<close> show ?thesis
      by (subst clean_loop.simps) (auto simp: Let_def Cons_nth_drop_Suc [symmetric] take_update_snoc)
  next
    case False
    then show ?thesis by (subst clean_loop.simps) simp
  qed
qed

lemma clean_loop_filters: "clean_loop elide ls 0 0 {} = keep_labels elide {} ls"
  using clean_loop_keep [of 0 0 elide ls "{}"] by simp

lemma found_loop_count:
  "found_loop labels k ls = k + length (filter (\<lambda>l. pl_Name l \<in> set labels) ls)"
  by (induction ls arbitrary: k) auto

lemma missing_labels_iff: "missing_labels labels ts \<longleftrightarrow> \<not> labelled labels ts"
proof -
  have "length (filter (\<lambda>l. pl_Name l \<in> set labels) (ts_Labels ts)) \<le> length (ts_Labels ts)" by simp
  then show ?thesis unfolding missing_labels_def labelled_def found_loop_count by linarith
qed

lemma lbl_matches_iff:
  "lbl_matches m ls \<longleftrightarrow> (\<exists>l \<in> set ls. pl_Name l = mt_Name m \<and> mt_Matches m (pl_Value l))"
  by (induction ls) auto

lemma matches_iff: "matches ls ms \<longleftrightarrow> (\<forall>m \<in> set ms. lbl_matches m ls)"
  by (induction ms) auto

lemma whitelisted_loop_iff: "whitelisted_loop ls ok mss \<longleftrightarrow> ok \<or> (\<exists>ms \<in> set mss. matches ls ms)"
  by (induction mss arbitrary: ok) auto

lemma isWhitelisted_iff: "isWhitelisted h (ts_Labels ts) \<longleftrightarrow> allowed h ts"
  by (simp add: isWhitelisted_def allowed_def whitelisted_loop_iff matches_iff lbl_matches_iff)

lemma series_loop_filter:
  "n \<le> i \<Longrightarrow> series_loop h srt labels s tss i n =
     (let (s', r) = filter_series h srt labels s (drop i tss) in (s', map_option (\<lambda>out. take n tss @ out) r))"
proof (induction h srt labels s tss i n rule: series_loop.induct)
  case (1 h srt labels s tss i n)
  show ?case
  proof (cases "i < length tss")
    case True
    then have d: "drop i tss = tss ! i # drop (Suc i) tss" by (simp add: Cons_nth_drop_Suc)
    have n: "n < length tss" using True 1 by simp
    let ?ts = "tss ! i"
    consider "\<not> labelled labels ?ts" | "labelled labels ?ts" "\<not> allowed h ?ts"
      | "labelled labels ?ts" "allowed h ?ts" by blast
    then show ?thesis
    proof cases
      case 1
      then show ?thesis using True d
        by (subst series_loop.simps) (simp add: missing_labels_iff filter_series_def)
    next
      case 2
      with 1 True d show ?thesis
        by (subst series_loop.simps) (simp add: missing_labels_iff isWhitelisted_iff filter_series_def Let_def)
    next
      case 3
      with 1 True d n show ?thesis
        by (subst series_loop.simps)
          (simp add: missing_labels_iff isWhitelisted_iff filter_series_def Let_def take_update_snoc
            clean_loop_filters sanitize_def sortLabels_def)
    qed
  next
    case False
    then show ?thesis by (subst series_loop.simps) (simp add: filter_series_def)
  qed
qed

lemma series_loop_is_filter: "series_loop h srt labels s tss 0 0 = filter_series h srt labels s tss"
  using series_loop_filter [of 0 0 h srt labels s tss] by (simp add: option.map_id0 [simplified id_def] case_prod_unfold)

lemma keep_labels_set:
  "l \<in> set (keep_labels elide dedup ls) \<Longrightarrow>
     l \<in> set ls \<and> pl_Name l \<noteq> [] \<and> pl_Value l \<noteq> [] \<and> pl_Name l \<notin> dedup \<and> pl_Name l \<notin> set elide"
  by (induction elide dedup ls rule: keep_labels.induct) (auto split: if_splits)

lemma keep_labels_distinct: "distinct (map pl_Name (keep_labels elide dedup ls))"
  by (induction elide dedup ls rule: keep_labels.induct) (auto dest: keep_labels_set)

lemma values_ok_iff:
  "values_ok required ctx ls \<longleftrightarrow>
     (\<forall>l \<in> set ls. \<forall>key. map_of required (pl_Name l) = Some key \<longrightarrow> ctx key = Some (pl_Value l))"
  by (induction ls) (auto split: option.split)

lemma series_values_ok_iff:
  "series_values_ok required ctx tss \<longleftrightarrow> (\<forall>ts \<in> set tss. values_ok required ctx (ts_Labels ts))"
  by (induction tss) auto

lemma sorted_by_label_less:
  "sorted_by label_less ls \<Longrightarrow> distinct (map pl_Name ls) \<Longrightarrow> sorted_wrt label_less ls"
  by (induction ls) (auto simp: sorted_by_def label_less_def image_iff not_less le_less)

lemma sanitize_sanitized:
  assumes "sort_contract label_less srt"
  shows "sanitized (rv_elide h) (sanitize h srt ts)"
proof -
  let ?ls = "keep_labels (rv_elide h) {} (ts_Labels ts)"
  have same: "mset (srt ?ls) = mset ?ls" using assms by (rule label_order.sort_contract_mset)
  then have "distinct (map pl_Name (srt ?ls))"
    using keep_labels_distinct [of "rv_elide h" "{}" "ts_Labels ts"] by (metis mset_eq_imp_distinct_iff mset_map)
  with label_order.sort_contract_sorted [OF assms] have "sorted_wrt label_less (srt ?ls)"
    by (rule sorted_by_label_less)
  moreover have "set (srt ?ls) = set ?ls" using same by (rule mset_eq_setD)
  ultimately show ?thesis
    using keep_labels_set [of _ "rv_elide h" "{}" "ts_Labels ts"] by (auto simp: sanitized_def sanitize_def list_all_iff)
qed

lemma takeWhile_list_all: "list_all P xs \<Longrightarrow> takeWhile P xs = xs"
  by (induction xs) auto

lemma filter_series_upstream: "filter_series h srt labels s tss = (s', res) \<Longrightarrow> rc_upstream s' = rc_upstream s"
  by (auto simp: filter_series_def Let_def split: if_splits)

text \<open>The request \<open>wreq\<close> was sent.\<close>

definition forwarded :: "'u receive_ext \<Rightarrow> string \<Rightarrow> 'u \<Rightarrow> 'u \<Rightarrow> write_request \<Rightarrow> bool" where
  "forwarded x url u u' wreq \<longleftrightarrow>
     (\<exists>data res. re_marshal x wreq = Inr data \<and> re_do x u (url, buffer (re_snappyEncode x data)) = (res, u'))"

text \<open>The request the body of \<open>r\<close> encodes.\<close>

definition received :: "'u receive_ext \<Rightarrow> request \<Rightarrow> write_request \<Rightarrow> bool" where
  "received x r wreq \<longleftrightarrow>
     (\<exists>cont. re_snappyDecode x (body_left (rq_body r)) = Inr cont \<and> re_unmarshal x cont = Inr wreq)"

text \<open>The series that are forwarded for a request.\<close>

definition admitted :: "'u receive_ext \<Rightarrow> receiver \<Rightarrow> write_request \<Rightarrow> timeseries list" where
  "admitted x h wreq = map (sanitize h (re_sort x)) (filter (allowed h) (wr_Timeseries wreq))"

text \<open>The conditions under which a request gets past the checks.\<close>

definition admissible :: "'u receive_ext \<Rightarrow> receiver \<Rightarrow> string list \<Rightarrow> request \<Rightarrow> write_request \<Rightarrow> bool" where
  "admissible x h labels r wreq \<longleftrightarrow>
     list_all (labelled labels) (wr_Timeseries wreq) \<and> admitted x h wreq \<noteq> [] \<and>
     series_values_ok (rv_requiredValues h) (rq_values r) (admitted x h wreq)"

lemma count_forward_upstream [simp]: "rc_upstream (count_forward k s) = rc_upstream s"
  by (simp add: count_forward_def)

lemma Receive_upstream:
  assumes "Receive x h s r = Ret (s', resp)"
  shows "rc_upstream s' = rc_upstream s \<or> (\<exists>res. re_do x (rc_upstream s) (rv_ForwardURL h, rq_body r) = (res, rc_upstream s'))"
  using assms
  by (auto simp: Receive_def Receive_answer_def Let_def split: if_splits option.splits prod.splits sum.splits)

lemma series_values_ok_none [simp]: "series_values_ok [] ctx tss"
  by (simp add: series_values_ok_iff values_ok_iff)

lemma write_filtered_passes:
  assumes "write_filtered x h nxt r wreq s = Ret (s', resp)" and "rc_upstream s' \<noteq> rc_upstream s"
  shows "wr_Timeseries wreq \<noteq> [] \<and> series_values_ok (rv_requiredValues h) (rq_values r) (wr_Timeseries wreq) \<and>
    (\<exists>data. re_marshal x wreq = Inr data \<and> nxt s (r\<lparr>rq_body := buffer (re_snappyEncode x data)\<rparr>) = Ret (s', resp))"
  using assms by (cases "rv_requiredValues h = []") (auto simp: write_filtered_def split: if_splits sum.splits)

text \<open>What has happened when the upstream was called behind the transformation.\<close>

lemma Transform_passes:
  assumes "TransformAndValidateWriteRequest x h (Receive x h) labels s r = Ret (s', resp)"
    and "rc_upstream s' \<noteq> rc_upstream s"
  shows "\<exists>wreq. received x r wreq \<and> admissible x h labels r wreq \<and>
    forwarded x (rv_ForwardURL h) (rc_upstream s) (rc_upstream s') (wreq\<lparr>wr_Timeseries := admitted x h wreq\<rparr>)"
proof -
  obtain data err where rd: "ReadAll (re_room x) [] (rq_body r) = (data, err)" by force
  then have data: "data = body_left (rq_body r)" using ReadAll_data [of "re_room x" "[]" "rq_body r"] by simp
  from assms rd data obtain wreq where got: "received x r wreq"
    and run: "(case filter_series h (re_sort x) labels s (wr_Timeseries wreq) of
        (s1, None) \<Rightarrow> Ret (s1, http_Error (Text ''a required label is missing from the metric'') StatusBadRequest)
      | (s1, Some tss) \<Rightarrow> write_filtered x h (Receive x h) r (wreq\<lparr>wr_Timeseries := tss\<rparr>) s1) = Ret (s', resp)"
    by (fastforce simp: TransformAndValidateWriteRequest_def received_def series_loop_is_filter
        split: option.splits sum.splits if_splits)
  obtain s1 res where fs: "filter_series h (re_sort x) labels s (wr_Timeseries wreq) = (s1, res)" by force
  note up = filter_series_upstream [OF fs]
  from run fs up assms(2) have "res \<noteq> None" by (cases res) auto
  with fs have lab: "list_all (labelled labels) (wr_Timeseries wreq)" and res: "res = Some (admitted x h wreq)"
    by (auto simp: filter_series_def Let_def admitted_def takeWhile_list_all split: if_splits)
  let ?w = "wreq\<lparr>wr_Timeseries := admitted x h wreq\<rparr>"
  from run fs res have "write_filtered x h (Receive x h) r ?w s1 = Ret (s', resp)" by simp
  from write_filtered_passes [OF this] up assms(2) obtain enc where
    ok: "admitted x h wreq \<noteq> []" "series_values_ok (rv_requiredValues h) (rq_values r) (admitted x h wreq)" and
    sent: "re_marshal x ?w = Inr enc" "Receive x h s1 (r\<lparr>rq_body := buffer (re_snappyEncode x enc)\<rparr>) = Ret (s', resp)"
    by auto
  from Receive_upstream [OF sent(2)] sent(1) up assms(2) have
    "forwarded x (rv_ForwardURL h) (rc_upstream s) (rc_upstream s') ?w" by (auto simp: forwarded_def)
  with got lab ok show ?thesis by (auto simp: admissible_def)
qed

lemma route_passes:
  assumes "receive_route x h limit labels s r = Ret (s', resp)" and "rc_upstream s' \<noteq> rc_upstream s"
  shows "int (length (body_left (rq_body r))) < limit \<and>
    (\<exists>wreq. received x r wreq \<and> admissible x h labels r wreq \<and>
       forwarded x (rv_ForwardURL h) (rc_upstream s) (rc_upstream s') (wreq\<lparr>wr_Timeseries := admitted x h wreq\<rparr>))"
proof -
  obtain data err where rd: "ReadAll (re_room x) [] (rq_body r) = (data, err)" by force
  then have data: "data = body_left (rq_body r)" using ReadAll_data [of "re_room x" "[]" "rq_body r"] by simp
  from assms rd have lim: "int (length data) < limit" and
    run: "TransformAndValidateWriteRequest x h (Receive x h) labels s (r\<lparr>rq_body := buffer data\<rparr>) = Ret (s', resp)"
    by (auto simp: receive_route_def LimitBodySize_def split: option.splits if_splits)
  from Transform_passes [OF run assms(2)] obtain wreq where
    "received x (r\<lparr>rq_body := buffer data\<rparr>) wreq" "admissible x h labels (r\<lparr>rq_body := buffer data\<rparr>) wreq"
    "forwarded x (rv_ForwardURL h) (rc_upstream s) (rc_upstream s') (wreq\<lparr>wr_Timeseries := admitted x h wreq\<rparr>)" by blast
  with lim data show ?thesis by (auto simp: received_def admissible_def)
qed

section \<open>Properties\<close>

text \<open>
  the two in-place loops of the write path compute a filter.  If every series has as many labels
  of a required name as there are required names, the result is the whitelisted series, in
  order, each with the first label of every name that has a value and is not elided, sorted; the
  first series that has not ends the request, and the counters count what was done until then.
\<close>

theorem write_loops_are_filters:
  "clean_loop elide ls 0 0 {} = keep_labels elide {} ls \<and>
   series_loop h srt labels s tss 0 0 = filter_series h srt labels s tss"
  by (simp add: clean_loop_filters series_loop_is_filter)

text \<open>
  C39: what the receive route forwards.  The upstream is not called, or it is called with the
  request that was received, reduced to the admitted series: at least one, each of them
  whitelisted, its labels strictly sorted by name, none of them empty or elided, and the labels
  with a required value equal to the value in the context of the request.  The body was shorter
  than the limit.
\<close>

theorem receive_forwards_admitted:
  assumes "receive_route x h limit labels s r = Ret (s', resp)" and "sort_contract label_less (re_sort x)"
  shows "rc_upstream s' = rc_upstream s \<or>
    (\<exists>wreq. received x r wreq \<and> int (length (body_left (rq_body r))) < limit \<and>
       forwarded x (rv_ForwardURL h) (rc_upstream s) (rc_upstream s') (wreq\<lparr>wr_Timeseries := admitted x h wreq\<rparr>) \<and>
       admitted x h wreq \<noteq> [] \<and> list_all (labelled labels) (wr_Timeseries wreq) \<and>
       list_all (\<lambda>ts. sanitized (rv_elide h) ts \<and>
         list_all (\<lambda>l. case map_of (rv_requiredValues h) (pl_Name l) of
            None \<Rightarrow> True | Some key \<Rightarrow> rq_values r key = Some (pl_Value l)) (ts_Labels ts)) (admitted x h wreq))"
proof (cases "rc_upstream s' = rc_upstream s")
  case False
  from route_passes [OF assms(1) False] obtain wreq where lim: "int (length (body_left (rq_body r))) < limit"
    and w: "received x r wreq" "admissible x h labels r wreq"
    "forwarded x (rv_ForwardURL h) (rc_upstream s) (rc_upstream s') (wreq\<lparr>wr_Timeseries := admitted x h wreq\<rparr>)" by blast
  have "sanitized (rv_elide h) ts" if "ts \<in> set (admitted x h wreq)" for ts
    using that sanitize_sanitized [OF assms(2)] by (auto simp: admitted_def)
  with lim w show ?thesis
    by (intro disjI2 exI [of _ wreq])
      (auto simp: admissible_def list_all_iff series_values_ok_iff values_ok_iff split: option.split)
qed simp

text \<open>A request with one series, a codec that knows it, and an upstream that records.\<close>

definition example_series :: timeseries where
  "example_series = \<lparr>ts_Labels = [\<lparr>pl_Name = ''b'', pl_Value = ''1''\<rparr>, \<lparr>pl_Name = ''_id'', pl_Value = ''c1''\<rparr>],
     ts_Samples = []\<rparr>"

definition example_receive :: "(string \<times> body) list receive_ext" where
  "example_receive = \<lparr>re_room = (\<lambda>_. 512), re_snappyDecode = Inr,
     re_unmarshal = (\<lambda>_. Inr \<lparr>wr_Timeseries = [example_series], wr_Metadata = []\<rparr>), re_marshal = (\<lambda>_. Inr ''w''),
     re_snappyEncode = (\<lambda>d. d), re_sort = insertion_sort label_less, re_newRequest = (\<lambda>_. None),
     re_do = (\<lambda>u p. (Inr \<lparr>hr_status = 200, hr_contentType = [], hr_body = buffer []\<rparr>, u @ [p]))\<rparr>"

definition example_receiver :: receiver where
  "example_receiver = \<lparr>rv_ForwardURL = ''http://up'', rv_elide = [], rv_matcherSets = [],
     rv_requiredValues = [(''_id'', CommonNameContextKey)]\<rparr>"

definition fresh_state :: "(string \<times> body) list receive_state" where
  "fresh_state = \<lparr>rc_forwardRequests = (\<lambda>_. 0), rc_sizeLimited = 0, rc_missingLabels = 0, rc_incorrectValues = 0,
     rc_seriesProcessed = 0, rc_metadataRequests = 0, rc_upstream = []\<rparr>"

definition example_write :: request where
  "example_write = \<lparr>rq_method = ''POST'', rq_header = (\<lambda>_. []), rq_form = (\<lambda>_. Inl []), rq_body = buffer ''x'',
     rq_client = None, rq_cluster = None, rq_tenant = None, rq_values = (\<lambda>_. Some ''c1'')\<rparr>"

lemma example_write_run:
  assumes "rq_method r = ''POST''" and "rq_body r = buffer ''x''" and "rq_values r CommonNameContextKey = Some ''c1''"
    and "labels = [''_id''] \<or> labels = []"
  shows "\<exists>s'. receive_route example_receive example_receiver 10 labels fresh_state r = Ret (s', status_only 200) \<and>
     rc_upstream s' = [(''http://up'', buffer ''w'')]"
  using assms
  by (auto simp: receive_route_def LimitBodySize_def TransformAndValidateWriteRequest_def example_receive_def series_loop_is_filter filter_series_def labelled_def example_series_def write_filtered_def
      example_receiver_def sanitize_def label_less_def allowed_def Receive_def Receive_answer_def fresh_state_def
      trunc_div_def count_forward_def)

theorem receive_forwards_admitted_witness:
  "\<exists>s' wreq. receive_route example_receive example_receiver 10 [''_id''] fresh_state example_write = Ret (s', status_only 200) \<and>
     rc_upstream s' = [(''http://up'', buffer ''w'')] \<and> received example_receive example_write wreq \<and>
     list_all (\<lambda>ts. sanitized [] ts) (admitted example_receive example_receiver wreq)"
proof -
  obtain s' where run: "receive_route example_receive example_receiver 10 [''_id''] fresh_state example_write =
      Ret (s', status_only 200)" and up: "rc_upstream s' = [(''http://up'', buffer ''w'')]"
    using example_write_run [of example_write] by (auto simp: example_write_def)
  have "sort_contract label_less (re_sort example_receive)"
    by (simp add: example_receive_def label_order.insertion_sort_contract)
  with receive_forwards_admitted [OF run] up obtain wreq where "received example_receive example_write wreq"
    "list_all (\<lambda>ts. sanitized (rv_elide example_receiver) ts) (admitted example_receive example_receiver wreq)"
    by (auto simp: fresh_state_def list_all_iff)
  with run up show ?thesis by (auto simp: example_receiver_def)
qed

text \<open>
  the check for required labels counts labels before they are cleaned, so it does not secure
  that they are there afterwards: a required label without a value is counted and then dropped,
  and two labels of one required name make up for another that is missing.
\<close>

theorem required_labels_gaps:
  "series_loop \<lparr>rv_ForwardURL = url, rv_elide = [], rv_matcherSets = [], rv_requiredValues = vals\<rparr> srt [''_id''] s
     [\<lparr>ts_Labels = [\<lparr>pl_Name = ''a'', pl_Value = ''1''\<rparr>, \<lparr>pl_Name = ''_id'', pl_Value = ''''\<rparr>], ts_Samples = smp\<rparr>] 0 0 =
   (s\<lparr>rc_seriesProcessed := Suc (rc_seriesProcessed s)\<rparr>,
    Some [\<lparr>ts_Labels = srt [\<lparr>pl_Name = ''a'', pl_Value = ''1''\<rparr>], ts_Samples = smp\<rparr>]) \<and>
   series_loop \<lparr>rv_ForwardURL = url, rv_elide = [], rv_matcherSets = [], rv_requiredValues = vals\<rparr> srt [''a'', ''b''] s
     [\<lparr>ts_Labels = [\<lparr>pl_Name = ''a'', pl_Value = ''1''\<rparr>, \<lparr>pl_Name = ''a'', pl_Value = ''2''\<rparr>], ts_Samples = smp\<rparr>] 0 0 =
   (s\<lparr>rc_seriesProcessed := Suc (rc_seriesProcessed s)\<rparr>,
    Some [\<lparr>ts_Labels = srt [\<lparr>pl_Name = ''a'', pl_Value = ''1''\<rparr>], ts_Samples = smp\<rparr>])"
  by (simp add: series_loop_is_filter filter_series_def labelled_def allowed_def sanitize_def)

end
