(* ===== verification/Client_Cert.thy ===== *)
theory Client_Cert
  imports Receive
begin

text \<open>
  \<^verbatim>\<open>pkg/authorize/ssl/ssl.go\<close>: a proxy in front of rhelemeter terminates TLS and passes the
  subject of the client certificate in a header, next to a shared secret.  The middleware checks
  the secret and puts the names of the subject into the context; the receive route compares them
  with the labels of the series.
\<close>

section \<open>Configuration\<close>

record ClientCertInfo =
  ci_SecretHeader :: string
  ci_CommonNameHeader :: string
  ci_IssuerHeader :: string

record ClientCertConfig =
  cc_Secret :: string
  cc_Config :: ClientCertInfo

definition ClientCertConfig_Validate :: "ClientCertConfig \<Rightarrow> string option" where
  "ClientCertConfig_Validate conf =
     (if ci_SecretHeader (cc_Config conf) = [] then Some ''secret_header must be set''
      else if cc_Secret conf = [] then Some ''secret must be set''
      else if ci_CommonNameHeader (cc_Config conf) = [] then Some ''common_name_header must be set''
      else None)"

section \<open>The two regular expressions\<close>

text \<open>
  \<open>name_char\<close> is the class \<^verbatim>\<open>[a-zA-Z0-9-]\<close>.  \<open>commonNameRE\<close> and
  \<open>organisationRE\<close> yield the group of the leftmost match of \<^verbatim>\<open>/CN=([a-zA-Z0-9-]*$)\<close> and
  \<^verbatim>\<open>/O=([a-zA-Z0-9-]*)\<close>; the first one must reach the end of the text.
\<close>

definition name_char :: "char \<Rightarrow> bool" where
  "name_char c \<longleftrightarrow>
     (let n = of_char c :: nat in n = 45 \<or> 48 \<le> n \<and> n \<le> 57 \<or> 65 \<le> n \<and> n \<le> 90 \<or> 97 \<le> n \<and> n \<le> 122)"

fun commonNameRE :: "string \<Rightarrow> string option" where
  "commonNameRE [] = None"
| "commonNameRE (c # s) =
     (if starts_with ''/CN='' (c # s) \<and> list_all name_char (drop 4 (c # s)) then Some (drop 4 (c # s))
      else commonNameRE s)"

fun organisationRE :: "string \<Rightarrow> string option" where
  "organisationRE [] = None"
| "organisationRE (c # s) =
     (if starts_with ''/O='' (c # s) then Some (takeWhile name_char (drop 3 (c # s))) else organisationRE s)"

section \<open>The middleware\<close>

definition with_value :: "ctx_key \<Rightarrow> string \<Rightarrow> request \<Rightarrow> request" where
  "with_value key v r = r\<lparr>rq_values := (rq_values r)(key \<mapsto> v)\<rparr>"

definition ClientCertInfoAsHeaders :: "ClientCertConfig \<Rightarrow> 's handler \<Rightarrow> 's handler" where
  "ClientCertInfoAsHeaders config nxt = (\<lambda>s r.
     let secret = rq_header r (ci_SecretHeader (cc_Config config));
         cnInfo = rq_header r (ci_CommonNameHeader (cc_Config config))
     in if secret = []
        then Ret (s, http_Error (Text (''secret must be sent in request header '' @ ci_SecretHeader (cc_Config config)))
               StatusForbidden)
        else if secret \<noteq> cc_Secret config then Ret (s, http_Error (Text ''invalid secret'') StatusForbidden)
        else if cnInfo = []
        then Ret (s, http_Error (Text (''subject is empty. Organisation and Common Name name must be sent in request header '' @
               ci_CommonNameHeader (cc_Config config))) StatusForbidden)
        else (case commonNameRE cnInfo of
                None \<Rightarrow> Ret (s, http_Error (Text (''invalid format for Common Name in http header '' @
                         ci_CommonNameHeader (cc_Config config))) StatusForbidden)
              | Some cn \<Rightarrow>
                  (let r1 = with_value CommonNameContextKey (TrimSpace cn) r;
                       r2 = (case organisationRE cnInfo of
                               None \<Rightarrow> r1
                             | Some org \<Rightarrow> with_value OrganizationContextKey (TrimSpace org) r1)
                   in nxt s r2)))"

text \<open>
  The route of \<^verbatim>\<open>cmd/rhelemeter-server/main.go\<close>: no label is required to be there, but the
  subject label has to agree with the common name.
\<close>

definition labelValidator :: "string \<Rightarrow> (string \<times> ctx_key) list" where
  "labelValidator subjectLabel = (if subjectLabel \<noteq> [] then [(subjectLabel, CommonNameContextKey)] else [])"

definition rhelemeter_route ::
  "'u receive_ext \<Rightarrow> receiver \<Rightarrow> ClientCertConfig option \<Rightarrow> int \<Rightarrow> 'u receive_state handler" where
  "rhelemeter_route x h conf limit =
     (case conf of
        None \<Rightarrow> receive_route x h limit []
      | Some config \<Rightarrow> ClientCertInfoAsHeaders config (receive_route x h limit []))"

section \<open>Lemmas\<close>

text \<open>A subject header: some text, the last \<^verbatim>\<open>/CN=\<close>, and the common name.\<close>

lemma commonNameRE_Some:
  "commonNameRE s = Some cn \<Longrightarrow> \<exists>pre. s = pre @ ''/CN='' @ cn \<and> list_all name_char cn"
proof (induction s rule: commonNameRE.induct)
  case (2 c s)
  show ?case
  proof (cases "starts_with ''/CN='' (c # s) \<and> list_all name_char (drop 4 (c # s))")
    case True
    with 2 have cn: "drop 4 (c # s) = cn" "list_all name_char cn" by auto
    from True have "take 4 (c # s) = ''/CN=''" by (simp add: starts_with_def eval_nat_numeral)
    with cn(1) have "c # s = ''/CN='' @ cn" by (metis append_take_drop_id)
    with cn(2) show ?thesis by (intro exI [of _ "[]"]) simp
  next
    case False
    with 2 obtain pre where "s = pre @ ''/CN='' @ cn" "list_all name_char cn" by auto
    then show ?thesis by (intro exI [of _ "c # pre"]) simp
  qed
qed simp

lemma commonNameRE_complete: "list_all name_char cn \<Longrightarrow> commonNameRE (pre @ ''/CN='' @ cn) \<noteq> None"
proof (induction pre)
  case Nil
  then show ?case by (simp add: starts_with_def)
next
  case (Cons c pre)
  then show ?case by simp
qed

text \<open>Names have no white space at their ends.\<close>

lemma TrimSpace_name: "list_all name_char s \<Longrightarrow> TrimSpace s = s"
  by (rule TrimSpace_plain) (auto simp: list_all_iff name_char_def plain_char_def Let_def)

text \<open>What the middleware lets through.\<close>

lemma ClientCert_passes:
  assumes "ClientCertInfoAsHeaders config nxt s r = Ret (s', resp)"
  shows "s' = s \<or>
    (\<exists>cn pre r'. rq_header r (ci_SecretHeader (cc_Config config)) = cc_Secret config \<and> cc_Secret config \<noteq> [] \<and>
       rq_header r (ci_CommonNameHeader (cc_Config config)) = pre @ ''/CN='' @ cn \<and> list_all name_char cn \<and>
       rq_values r' CommonNameContextKey = Some cn \<and> rq_body r' = rq_body r \<and> nxt s r' = Ret (s', resp))"
proof (cases "s' = s")
  case False
  let ?cnInfo = "rq_header r (ci_CommonNameHeader (cc_Config config))"
  from False assms obtain cn where
    ok: "rq_header r (ci_SecretHeader (cc_Config config)) = cc_Secret config" "cc_Secret config \<noteq> []"
    and cn: "commonNameRE ?cnInfo = Some cn"
    by (auto simp: ClientCertInfoAsHeaders_def Let_def split: if_splits option.splits)
  let ?r = "case organisationRE ?cnInfo of
      None \<Rightarrow> with_value CommonNameContextKey (TrimSpace cn) r
    | Some org \<Rightarrow> with_value OrganizationContextKey (TrimSpace org) (with_value CommonNameContextKey (TrimSpace cn) r)"
  from False assms ok cn have "nxt s ?r = Ret (s', resp)"
    by (auto simp: ClientCertInfoAsHeaders_def Let_def split: if_splits)
  moreover have "rq_values ?r CommonNameContextKey = Some (TrimSpace cn)" and "rq_body ?r = rq_body r"
    by (auto simp: with_value_def split: option.split)
  ultimately show ?thesis using ok commonNameRE_Some [OF cn] TrimSpace_name by metis
qed simp

section \<open>Identity behind a proxy\<close>

text \<open>
  The upstream is called only for a request that carries the shared secret and a subject that ends in a
  common name, and every label with the name of the subject label, in every series that is
  forwarded, has that common name as its value.
\<close>

lemma rhelemeter_identity:
  assumes "rhelemeter_route x h (Some config) limit s r = Ret (s', resp)"
    and "rv_requiredValues h = labelValidator key" and "key \<noteq> []" and "sort_contract label_less (re_sort x)"
  shows "rc_upstream s' = rc_upstream s \<or>
    (\<exists>cn pre wreq. rq_header r (ci_SecretHeader (cc_Config config)) = cc_Secret config \<and> cc_Secret config \<noteq> [] \<and>
       rq_header r (ci_CommonNameHeader (cc_Config config)) = pre @ ''/CN='' @ cn \<and> list_all name_char cn \<and>
       received x r wreq \<and>
       forwarded x (rv_ForwardURL h) (rc_upstream s) (rc_upstream s') (wreq\<lparr>wr_Timeseries := admitted x h wreq\<rparr>) \<and>
       list_all (\<lambda>ts. list_all (\<lambda>l. pl_Value l = cn) (filter (\<lambda>l. pl_Name l = key) (ts_Labels ts))) (admitted x h wreq))"
proof (cases "rc_upstream s' = rc_upstream s")
  case False
  then have "s' \<noteq> s" by auto
  with assms(1) obtain cn pre r' where
    hdr: "rq_header r (ci_SecretHeader (cc_Config config)) = cc_Secret config" "cc_Secret config \<noteq> []"
      "rq_header r (ci_CommonNameHeader (cc_Config config)) = pre @ ''/CN='' @ cn" "list_all name_char cn"
    and ctx: "rq_values r' CommonNameContextKey = Some cn" "rq_body r' = rq_body r"
    and run: "receive_route x h limit [] s r' = Ret (s', resp)"
    using ClientCert_passes [of config "receive_route x h limit []" s r] by (auto simp: rhelemeter_route_def)
  from route_passes [OF run False] obtain wreq where
    w: "received x r' wreq" "admissible x h [] r' wreq"
      "forwarded x (rv_ForwardURL h) (rc_upstream s) (rc_upstream s') (wreq\<lparr>wr_Timeseries := admitted x h wreq\<rparr>)"
    by blast
  have "list_all (\<lambda>l. pl_Value l = cn) (filter (\<lambda>l. pl_Name l = key) (ts_Labels ts))"
    if "ts \<in> set (admitted x h wreq)" for ts
    using that w(2) assms(2,3) ctx(1)
    by (auto simp: admissible_def series_values_ok_iff values_ok_iff labelValidator_def list_all_iff)
  with hdr w ctx(2) show ?thesis by (intro disjI2 exI [of _ cn] exI [of _ pre] exI [of _ wreq]) (auto simp: received_def list_all_iff)
qed simp

definition example_config :: ClientCertConfig where
  "example_config = \<lparr>cc_Secret = ''s'', cc_Config = \<lparr>ci_SecretHeader = ''x-secret'', ci_CommonNameHeader = ''x-cn'',
     ci_IssuerHeader = []\<rparr>\<rparr>"

definition example_proxied :: request where
  "example_proxied = example_write\<lparr>rq_header := (\<lambda>k. if k = ''x-secret'' then ''s'' else ''/O=1/CN=c1''),
     rq_values := (\<lambda>_. None)\<rparr>"

lemma example_subject:
  "commonNameRE ''/O=1/CN=c1'' = Some ''c1''" "organisationRE ''/O=1/CN=c1'' = Some ''1''"
  "TrimSpace ''c1'' = ''c1''" "TrimSpace ''1'' = ''1''"
  by (simp_all add: starts_with_def name_char_def TrimSpace_name)

lemma example_proxied_passes:
  "ClientCertInfoAsHeaders example_config nxt s example_proxied =
     nxt s (with_value OrganizationContextKey ''1'' (with_value CommonNameContextKey ''c1'' example_proxied))"
  by (simp add: ClientCertInfoAsHeaders_def example_config_def example_proxied_def example_subject
      del: commonNameRE.simps organisationRE.simps)

lemma example_proxied_run:
  "\<exists>s'. ClientCertInfoAsHeaders example_config (receive_route example_receive example_receiver 10 []) fresh_state example_proxied =
     Ret (s', status_only 200) \<and> rc_upstream s' = [(''http://up'', buffer ''w'')]"
  unfolding example_proxied_passes
  by (rule example_write_run) (simp_all add: with_value_def example_proxied_def example_write_def)

section \<open>Properties\<close>

text \<open>
  the subject label is checked only where it is present: a series without it passes under every
  certificate, because the route requires no label.
\<close>

theorem rhelemeter_unlabelled_passes:
  "write_filtered x \<lparr>rv_ForwardURL = url, rv_elide = el, rv_matcherSets = ms, rv_requiredValues = labelValidator ''_id''\<rparr> nxt r
     \<lparr>wr_Timeseries = [\<lparr>ts_Labels = [\<lparr>pl_Name = ''__name__'', pl_Value = ''up''\<rparr>], ts_Samples = smp\<rparr>], wr_Metadata = []\<rparr> s =
   (case re_marshal x \<lparr>wr_Timeseries = [\<lparr>ts_Labels = [\<lparr>pl_Name = ''__name__'', pl_Value = ''up''\<rparr>], ts_Samples = smp\<rparr>],
       wr_Metadata = []\<rparr> of
      Inl e \<Rightarrow> Ret (count_forward ''error'' s, http_Error (Text ''failed to marshal proto'') StatusInternalServerError)
    | Inr data \<Rightarrow> nxt s (r\<lparr>rq_body := buffer (re_snappyEncode x data)\<rparr>))"
  by (simp add: write_filtered_def labelValidator_def)

end
