(* ===== verification/Tollbooth.thy ===== *)
theory Tollbooth
  imports Authorize Fnv
begin

text \<open>
  The cluster authorizers: \<^verbatim>\<open>pkg/authorize/tollbooth\<close>, which registers a cluster with an
  upstream, the mock of that upstream in the same package (the authorization server of the
  repository is this mock on a port), and \<^verbatim>\<open>pkg/authorize/stub\<close>.
\<close>

section \<open>Data\<close>

record clusterRegistration =
  cr_ClusterID :: string
  cr_AuthorizationToken :: string
  cr_AccountID :: string

record registrationError =
  ge_Name :: string
  ge_Reason :: string

text \<open>
  Parameters of the authorizer: \<^verbatim>\<open>encoding/json\<close> on registrations in both directions and the
  media type \<^verbatim>\<open>mime.ParseMediaType\<close> finds in a header.
\<close>

record tollbooth_codec =
  tb_marshal :: "clusterRegistration \<Rightarrow> string + string"
  tb_unmarshal :: "string \<Rightarrow> string + clusterRegistration"
  tb_mediaType :: "string \<Rightarrow> string option"

section \<open>The authorizer\<close>

definition validate_contentType :: "tollbooth_codec \<Rightarrow> http_response \<Rightarrow> auth_err option" where
  "validate_contentType cd res =
     (if tb_mediaType cd (hr_contentType res) \<noteq> Some ''application/json''
      then Some (PlainErr ''unrecognized token response content-type'') else None)"

definition AuthorizeCluster ::
  "tollbooth_codec \<Rightarrow> 'u endpoint \<Rightarrow> 'u \<Rightarrow> string \<Rightarrow> string \<Rightarrow> (auth_err + string) \<times> 'u" where
  "AuthorizeCluster cd ep u token cluster =
     (let regReq = \<lparr>cr_ClusterID = cluster, cr_AuthorizationToken = token, cr_AccountID = []\<rparr>
      in (case tb_marshal cd regReq of
            Inl e \<Rightarrow> (Inl (PlainErr e), u)
          | Inr data \<Rightarrow>
              (case AgainstEndpoint ep (Some (validate_contentType cd)) u data of
                 ((_, Some err), u') \<Rightarrow> (Inl err, u')
               | ((bd, None), u') \<Rightarrow>
                   (case tb_unmarshal cd bd of
                      Inl e \<Rightarrow> (Inl (PlainErr (''unable to parse response body: '' @ e)), u')
                    | Inr resp \<Rightarrow>
                        if length (cr_AccountID resp) = 0
                        then (Inl (PlainErr ''server responded with an empty user string''), u')
                        else (Inr (cr_AccountID resp), u')))))"

text \<open>
  \<^verbatim>\<open>ExtractToken\<close> reads the body of a request and puts it back; closing may fail.
\<close>

datatype extract_err = CloseErr string | ReadErr io_err

definition ExtractToken :: "(nat \<Rightarrow> nat) \<Rightarrow> string option \<Rightarrow> body \<Rightarrow> body \<times> string \<times> extract_err option" where
  "ExtractToken room closed b =
     (case ReadAll room [] b of
        (data, err) \<Rightarrow>
          (case closed of
             Some e \<Rightarrow> (b, [], Some (CloseErr e))
           | None \<Rightarrow> (buffer data, data, map_option ReadErr err)))"

section \<open>The stub\<close>

definition AuthorizeFn :: "string \<Rightarrow> string \<Rightarrow> auth_err + string" where
  "AuthorizeFn token cluster = Inr (Hash token)"

section \<open>The mock\<close>

text \<open>The mutex makes a request one step; the map of responses is keyed by token and cluster.\<close>

record mock =
  mk_Tokens :: "string set"
  mk_Responses :: "(string \<times> string) \<Rightarrow> clusterRegistration option"

datatype reply = Registered clusterRegistration | Refused registrationError

text \<open>\<open>decode\<close> is \<^verbatim>\<open>json.NewDecoder(req.Body).Decode\<close>; the answer is a status and what is written.\<close>

definition mock_ServeHTTP ::
  "(string \<Rightarrow> string + clusterRegistration) \<Rightarrow> mock \<Rightarrow> request \<Rightarrow> mock \<times> int \<times> reply" where
  "mock_ServeHTTP decode s req =
     (if rq_method req \<noteq> ''POST'' then (s, StatusMethodNotAllowed,
        Refused \<lparr>ge_Name = ''MethodNotAllowed'', ge_Reason = ''Only requests of type '' @ [CHR 0x27] @ ''POST'' @ [CHR 0x27] @ '' are accepted.''\<rparr>)
      else if rq_header req ''Content-Type'' \<noteq> ''application/json'' then (s, StatusBadRequest,
        Refused \<lparr>ge_Name = ''InvalidContentType'', ge_Reason = ''Only requests with Content-Type application/json are accepted.''\<rparr>)
      else (case decode (body_left (rq_body req)) of
        Inl e \<Rightarrow> (s, StatusBadRequest, Refused \<lparr>ge_Name = ''InvalidBody'', ge_Reason = ''Unable to parse body as JSON: '' @ e\<rparr>)
      | Inr rr \<Rightarrow>
          if cr_ClusterID rr = [] then (s, StatusBadRequest,
            Refused \<lparr>ge_Name = ''BadRequest'', ge_Reason = ''No cluster ID provided.''\<rparr>)
          else if cr_AuthorizationToken rr \<notin> mk_Tokens s then (s, StatusUnauthorized,
            Refused \<lparr>ge_Name = ''NotAuthorized'', ge_Reason = ''The provided token is not recognized.''\<rparr>)
          else (let key = (cr_AuthorizationToken rr, cr_ClusterID rr)
                in (case mk_Responses s key of
                      Some resp \<Rightarrow> (s, StatusOK, Registered resp)
                    | None \<Rightarrow>
                        (let resp = \<lparr>cr_ClusterID = cr_ClusterID rr, cr_AuthorizationToken = cr_AuthorizationToken rr,
                                     cr_AccountID = Hash (cr_ClusterID rr)\<rparr>
                         in (s\<lparr>mk_Responses := (mk_Responses s)(key \<mapsto> resp)\<rparr>, StatusCreated, Registered resp))))))"

text \<open>
  The invariant of its state: a stored registration is the one of its key, with the account made
  from the cluster.
\<close>

definition mock_ok :: "mock \<Rightarrow> bool" where
  "mock_ok s \<longleftrightarrow>
     (\<forall>tok cl resp. mk_Responses s (tok, cl) = Some resp \<longrightarrow>
        resp = \<lparr>cr_ClusterID = cl, cr_AuthorizationToken = tok, cr_AccountID = Hash cl\<rparr>)"

text \<open>The mock behind an HTTP client: what \<^verbatim>\<open>AgainstEndpoint\<close> sends and gets back.\<close>

definition mock_endpoint ::
  "(string \<Rightarrow> string + clusterRegistration) \<Rightarrow> (reply \<Rightarrow> string) \<Rightarrow> mock endpoint" where
  "mock_endpoint decode render = \<lparr>ep_room = (\<lambda>_. 512), ep_newRequest = None,
     ep_do = (\<lambda>s data.
       (case mock_ServeHTTP decode s \<lparr>rq_method = ''POST'', rq_header = (\<lambda>_. ''application/json''),
               rq_form = (\<lambda>_. Inl []), rq_body = buffer data, rq_client = None, rq_cluster = None, rq_tenant = None,
               rq_values = (\<lambda>_. None)\<rparr> of
          (s', code, rep) \<Rightarrow>
            (Inr \<lparr>hr_status = code, hr_contentType = ''application/json'', hr_body = buffer (render rep)\<rparr>, s')))\<rparr>"

section \<open>Lemmas\<close>

lemma Hash_nonempty: "Hash t \<noteq> []"
proof -
  have "format_rev n \<noteq> []" for n by (subst format_rev.simps) simp
  then show ?thesis by (simp add: Hash_def hashText_def FormatUint32_def)
qed

lemma mock_step_ok: "mock_ok s \<Longrightarrow> mock_ServeHTTP decode s req = (s', code, rep) \<Longrightarrow> mock_ok s'"
  by (auto simp: mock_ServeHTTP_def Let_def mock_ok_def split: if_splits sum.splits option.splits)

text \<open>The mock on a registration that reached it.\<close>

lemma mock_answers:
  assumes "mock_ok s" and "rq_method req = ''POST''" and "rq_header req ''Content-Type'' = ''application/json''"
    and "decode (body_left (rq_body req)) = Inr \<lparr>cr_ClusterID = cluster, cr_AuthorizationToken = token, cr_AccountID = acc\<rparr>"
    and "cluster \<noteq> []"
  shows "mock_ServeHTTP decode s req =
    (let reg = \<lparr>cr_ClusterID = cluster, cr_AuthorizationToken = token, cr_AccountID = Hash cluster\<rparr>
     in if token \<notin> mk_Tokens s then (s, 401, Refused \<lparr>ge_Name = ''NotAuthorized'', ge_Reason = ''The provided token is not recognized.''\<rparr>)
        else if mk_Responses s (token, cluster) = None
        then (s\<lparr>mk_Responses := (mk_Responses s)((token, cluster) \<mapsto> reg)\<rparr>, 201, Registered reg)
        else (s, 200, Registered reg))"
  using assms by (cases "mk_Responses s (token, cluster)") (auto simp: mock_ServeHTTP_def mock_ok_def status_defs Let_def)

lemma ReadAll_io_buffer:
  "int (length data) \<le> N \<Longrightarrow> ReadAll room [] (io_LimitedReader (buffer data) N) = (data, None)"
  using ReadAll_eof [of "io_LimitedReader (buffer data) N" room "[]"] by (simp add: buffer_def)

section \<open>Properties\<close>

text \<open>
  client and server of a registration agree.  Against the mock, with a JSON codec that decodes
  what it encodes and a reply within the size limit, registering a cluster under a known token
  yields the account of the cluster, whether it was registered before or not, and remembers it;
  an unknown token is refused with 401 and changes nothing.
\<close>

theorem tollbooth_registers:
  assumes "mock_ok s" and "cluster \<noteq> []"
    and "tb_marshal cd \<lparr>cr_ClusterID = cluster, cr_AuthorizationToken = token, cr_AccountID = []\<rparr> = Inr data"
    and "decode data = Inr \<lparr>cr_ClusterID = cluster, cr_AuthorizationToken = token, cr_AccountID = []\<rparr>"
    and "tb_unmarshal cd (render (Registered
       \<lparr>cr_ClusterID = cluster, cr_AuthorizationToken = token, cr_AccountID = Hash cluster\<rparr>)) =
       Inr \<lparr>cr_ClusterID = cluster, cr_AuthorizationToken = token, cr_AccountID = Hash cluster\<rparr>"
    and "tb_mediaType cd ''application/json'' = Some ''application/json''"
    and "length (render (Registered
       \<lparr>cr_ClusterID = cluster, cr_AuthorizationToken = token, cr_AccountID = Hash cluster\<rparr>)) \<le> 32768"
  shows "AuthorizeCluster cd (mock_endpoint decode render) s token cluster =
    (if token \<in> mk_Tokens s
     then (Inr (Hash cluster), s\<lparr>mk_Responses := (mk_Responses s)((token, cluster) \<mapsto>
        \<lparr>cr_ClusterID = cluster, cr_AuthorizationToken = token, cr_AccountID = Hash cluster\<rparr>)\<rparr>)
     else (Inl (ErrorWithCode ''unauthorized'' 401), s))"
proof -
  let ?reg = "\<lparr>cr_ClusterID = cluster, cr_AuthorizationToken = token, cr_AccountID = Hash cluster\<rparr>"
  let ?req = "\<lparr>rq_method = ''POST'', rq_header = (\<lambda>_. ''application/json''), rq_form = (\<lambda>_. Inl []),
      rq_body = buffer data, rq_client = None, rq_cluster = None, rq_tenant = None, rq_values = (\<lambda>_. None)\<rparr> :: request"
  have ans: "mock_ServeHTTP decode s ?req =
      (if token \<notin> mk_Tokens s then (s, 401, Refused \<lparr>ge_Name = ''NotAuthorized'', ge_Reason = ''The provided token is not recognized.''\<rparr>)
       else if mk_Responses s (token, cluster) = None
       then (s\<lparr>mk_Responses := (mk_Responses s)((token, cluster) \<mapsto> ?reg)\<rparr>, 201, Registered ?reg)
       else (s, 200, Registered ?reg))"
    using mock_answers [OF assms(1), of ?req decode cluster token "[]"] assms(2,4) by (simp add: Let_def)
  have rd: "ReadAll room [] (io_LimitedReader (buffer (render (Registered ?reg))) requestBodyLimit) =
      (render (Registered ?reg), None)" for room
    using assms(7) by (intro ReadAll_io_buffer) (simp add: requestBodyLimit_def)
  have rd': "\<exists>bd. ReadAll room [] (io_LimitedReader (buffer (render rep)) requestBodyLimit) = (bd, None)" for room rep
    using ReadAll_eof [of "io_LimitedReader (buffer (render rep)) requestBodyLimit" room "[]"]
    by (simp add: buffer_def)
  have created: "status_error 201 bd = None" "status_error 200 bd = None" for bd by (simp_all add: status_error_None)
  have known: "mk_Responses s (token, cluster) \<noteq> None \<Longrightarrow>
      s\<lparr>mk_Responses := (mk_Responses s)((token, cluster) \<mapsto> ?reg)\<rparr> = s"
    using assms(1) by (auto simp: mock_ok_def fun_upd_idem)
  show ?thesis
  proof (cases "token \<in> mk_Tokens s")
    case True
    with ans known assms(3,5,6) show ?thesis
      by (auto simp: AuthorizeCluster_def AgainstEndpoint_def mock_endpoint_def validate_contentType_def rd
          created Hash_nonempty)
  next
    case False
    obtain bd where "ReadAll (\<lambda>_. 512) [] (io_LimitedReader (buffer (render
        (Refused \<lparr>ge_Name = ''NotAuthorized'', ge_Reason = ''The provided token is not recognized.''\<rparr>))) requestBodyLimit) =
        (bd, None)" using rd' by blast
    with False ans assms(3,6) show ?thesis
      by (simp add: AuthorizeCluster_def AgainstEndpoint_def mock_endpoint_def validate_contentType_def
          status_error_def status_defs NewErrorWithCode_def)
  qed
qed

text \<open>A codec for one cluster and one token, by which the hypotheses can be met.\<close>

definition example_reg :: "string \<Rightarrow> clusterRegistration" where
  "example_reg acc = \<lparr>cr_ClusterID = ''c1'', cr_AuthorizationToken = ''t'', cr_AccountID = acc\<rparr>"

definition example_tollbooth :: tollbooth_codec where
  "example_tollbooth = \<lparr>tb_marshal = (\<lambda>r. if r = example_reg [] then Inr ''q'' else Inl ''unsupported''),
     tb_unmarshal = (\<lambda>s. if s = ''r'' then Inr (example_reg (Hash ''c1'')) else Inl ''malformed''),
     tb_mediaType = Some\<rparr>"

definition example_mock :: mock where
  "example_mock = \<lparr>mk_Tokens = {''t''}, mk_Responses = (\<lambda>_. None)\<rparr>"

theorem tollbooth_registers_witness:
  "fst (AuthorizeCluster example_tollbooth (mock_endpoint (\<lambda>_. Inr (example_reg [])) (\<lambda>_. ''r'')) example_mock ''t'' ''c1'') =
     Inr (Hash ''c1'')"
  using tollbooth_registers [of example_mock "''c1''" example_tollbooth "''t''" "''q''"
      "\<lambda>_. Inr (example_reg [])" "\<lambda>_. ''r''"]
  by (simp add: example_mock_def example_tollbooth_def example_reg_def mock_ok_def)

text \<open>
  registering is idempotent: after a first request that is answered 201, every further request
  for the same token and cluster is answered 200 with the same registration and changes nothing,
  and whatever requests come in between, the stored registrations stay as they are.
\<close>

theorem mock_idempotent:
  assumes "mock_ServeHTTP decode s req = (s1, 201, rep)"
  shows "mock_ServeHTTP decode s1 req = (s1, 200, rep) \<and>
    (\<forall>req' s2 code rep'. mock_ServeHTTP decode s1 req' = (s2, code, rep') \<longrightarrow>
       mock_ServeHTTP decode s2 req = (s2, 200, rep))"
  using assms
  by (auto simp: mock_ServeHTTP_def Let_def status_defs split: if_splits sum.splits option.splits)

theorem mock_idempotent_witness:
  "\<exists>s1 rep. mock_ServeHTTP (\<lambda>_. Inr (example_reg [])) example_mock
      \<lparr>rq_method = ''POST'', rq_header = (\<lambda>_. ''application/json''), rq_form = (\<lambda>_. Inl []), rq_body = buffer [],
       rq_client = None, rq_cluster = None, rq_tenant = None, rq_values = (\<lambda>_. None)\<rparr> = (s1, 201, rep) \<and>
     mock_ServeHTTP (\<lambda>_. Inr (example_reg [])) s1
      \<lparr>rq_method = ''POST'', rq_header = (\<lambda>_. ''application/json''), rq_form = (\<lambda>_. Inl []), rq_body = buffer [],
       rq_client = None, rq_cluster = None, rq_tenant = None, rq_values = (\<lambda>_. None)\<rparr> = (s1, 200, rep)"
proof -
  let ?req = "\<lparr>rq_method = ''POST'', rq_header = (\<lambda>_. ''application/json''), rq_form = (\<lambda>_. Inl []),
      rq_body = buffer [], rq_client = None, rq_cluster = None, rq_tenant = None, rq_values = (\<lambda>_. None)\<rparr> :: request"
  obtain s1 rep where run: "mock_ServeHTTP (\<lambda>_. Inr (example_reg [])) example_mock ?req = (s1, 201, rep)"
    by (auto simp: mock_ServeHTTP_def example_reg_def example_mock_def Let_def status_defs)
  from mock_idempotent [OF run] run show ?thesis by blast
qed

end
