(* ===== verification/Response_Cache.thy ===== *)
theory Response_Cache
  imports Tollbooth
begin

text \<open>
  \<^verbatim>\<open>pkg/cache\<close>: the round tripper that keeps the answers of the authorization service, and
  the cache in memcached.  In the v2 server the key of an answer is the token of the client
  (\<^verbatim>\<open>tollbooth.ExtractToken\<close>).
\<close>

section \<open>memcached\<close>

text \<open>
  The client library: a value or an error, of which a miss is one.  SHA-256 is a parameter.
\<close>

datatype mc_err = ErrCacheMiss | McErr string

record mc_item =
  it_Key :: string
  it_Value :: string
  it_Expiration :: int

record 'c mc_client =
  mc_get :: "'c \<Rightarrow> string \<Rightarrow> (mc_err + string) \<times> 'c"
  mc_set :: "'c \<Rightarrow> mc_item \<Rightarrow> string option \<times> 'c"

text \<open>\<^verbatim>\<open>%x\<close> on bytes: two lower-case digits each.\<close>

definition hex_digit :: "nat \<Rightarrow> char" where
  "hex_digit n = ''0123456789abcdef'' ! n"

definition hex :: "string \<Rightarrow> string" where
  "hex s = concat (map (\<lambda>c. let n = of_char c :: nat in [hex_digit (n div 16), hex_digit (n mod 16)]) s)"

definition mc_hash :: "(string \<Rightarrow> string) \<Rightarrow> string \<Rightarrow> string" where
  "mc_hash sha256 key = hex (sha256 key)"

definition memcached_Get ::
  "(string \<Rightarrow> string) \<Rightarrow> 'c mc_client \<Rightarrow> 'c \<Rightarrow> string \<Rightarrow> (string + string option) \<times> 'c" where
  "memcached_Get sha256 cl c key =
     (case mc_get cl c (mc_hash sha256 key) of
        (Inl ErrCacheMiss, c') \<Rightarrow> (Inr None, c')
      | (Inl (McErr e), c') \<Rightarrow> (Inl e, c')
      | (Inr v, c') \<Rightarrow> (Inr (Some v), c'))"

definition memcached_Set ::
  "(string \<Rightarrow> string) \<Rightarrow> int \<Rightarrow> 'c mc_client \<Rightarrow> 'c \<Rightarrow> string \<Rightarrow> string \<Rightarrow> string option \<times> 'c" where
  "memcached_Set sha256 expiration cl c key v =
     mc_set cl c \<lparr>it_Key = mc_hash sha256 key, it_Value = v, it_Expiration = expiration\<rparr>"

text \<open>
  \<^verbatim>\<open>New\<close> and its goroutine: \<open>fresh c\<close> is \<^verbatim>\<open>memcache.New\<close> for the same servers, which replaces
  the client at every tick until the context is done.
\<close>

datatype renew_event = RenewTick | RenewDone

fun renewals :: "('c \<Rightarrow> 'c) \<Rightarrow> renew_event list \<Rightarrow> 'c \<Rightarrow> 'c" where
  "renewals fresh [] c = c"
| "renewals fresh (RenewTick # evs) c = renewals fresh evs (fresh c)"
| "renewals fresh (RenewDone # evs) c = c"

definition memcached_New :: "('c \<Rightarrow> 'c) \<Rightarrow> int \<Rightarrow> renew_event list \<Rightarrow> 'c \<Rightarrow> 'c" where
  "memcached_New fresh interval evs c = (let c0 = fresh c in if interval > 0 then renewals fresh evs c0 else c0)"

section \<open>The round tripper\<close>

text \<open>
  \<open>cx_dump\<close> is \<^verbatim>\<open>httputil.DumpResponse\<close>, which also replaces the body of the response it is
  given, \<open>cx_read\<close> is \<^verbatim>\<open>http.ReadResponse\<close>, \<open>cx_next\<close> the round tripper below.
\<close>

record ('c, 'u) cache_ext =
  cx_get :: "'c \<Rightarrow> string \<Rightarrow> (string + string option) \<times> 'c"
  cx_set :: "'c \<Rightarrow> string \<Rightarrow> string \<Rightarrow> string option \<times> 'c"
  cx_key :: "body \<Rightarrow> body \<times> string \<times> extract_err option"
  cx_next :: "'u \<Rightarrow> body \<Rightarrow> (string + http_response) \<times> 'u"
  cx_dump :: "http_response \<Rightarrow> (string + string) \<times> http_response"
  cx_read :: "string \<Rightarrow> string + http_response"

record ('c, 'u) cache_state =
  cs_cache :: 'c
  cs_upstream :: 'u
  cs_reads :: "string \<Rightarrow> nat"
  cs_writes :: "string \<Rightarrow> nat"

datatype cache_err = KeyErr extract_err | GetErr string | ReadRespErr string | NextErr string

definition count_read :: "string \<Rightarrow> ('c, 'u) cache_state \<Rightarrow> ('c, 'u) cache_state" where
  "count_read k s = s\<lparr>cs_reads := (cs_reads s)(k := Suc (cs_reads s k))\<rparr>"

definition count_write :: "string \<Rightarrow> ('c, 'u) cache_state \<Rightarrow> ('c, 'u) cache_state" where
  "count_write k s = s\<lparr>cs_writes := (cs_writes s)(k := Suc (cs_writes s k))\<rparr>"

text \<open>The deferred function: it runs before the caller gets the response.\<close>

definition cache_store ::
  "('c, 'u) cache_ext \<Rightarrow> string \<Rightarrow> http_response \<Rightarrow> ('c, 'u) cache_state \<Rightarrow> ('c, 'u) cache_state \<times> http_response" where
  "cache_store x key resp s =
     (case cx_dump x resp of
        (Inl e, resp') \<Rightarrow> (s, resp')
      | (Inr raw, resp') \<Rightarrow>
          (case cx_set x (cs_cache s) key raw of
             (Some e, c) \<Rightarrow> (count_write ''error'' (s\<lparr>cs_cache := c\<rparr>), resp')
           | (None, c) \<Rightarrow> (count_write ''success'' (s\<lparr>cs_cache := c\<rparr>), resp')))"

definition cache_RoundTrip ::
  "('c, 'u) cache_ext \<Rightarrow> ('c, 'u) cache_state \<Rightarrow> body \<Rightarrow> ('c, 'u) cache_state \<times> (cache_err + http_response)" where
  "cache_RoundTrip x s b =
     (case cx_key x b of
        (_, _, Some e) \<Rightarrow> (s, Inl (KeyErr e))
      | (b', key, None) \<Rightarrow>
          (case cx_get x (cs_cache s) key of
             (Inl e, c) \<Rightarrow> (count_read ''error'' (s\<lparr>cs_cache := c\<rparr>), Inl (GetErr e))
           | (Inr (Some raw), c) \<Rightarrow>
               (count_read ''hit'' (s\<lparr>cs_cache := c\<rparr>),
                (case cx_read x raw of Inl e \<Rightarrow> Inl (ReadRespErr e) | Inr resp \<Rightarrow> Inr resp))
           | (Inr None, c) \<Rightarrow>
               (let s1 = count_read ''miss'' (s\<lparr>cs_cache := c\<rparr>)
                in (case cx_next x (cs_upstream s1) b' of
                      (Inl e, u) \<Rightarrow> (s1\<lparr>cs_upstream := u\<rparr>, Inl (NextErr e))
                    | (Inr resp, u) \<Rightarrow>
                        if hr_status resp \<ge> 200 \<and> hr_status resp < 300
                        then (case cache_store x key resp (s1\<lparr>cs_upstream := u\<rparr>) of (s2, resp') \<Rightarrow> (s2, Inr resp'))
                        else (s1\<lparr>cs_upstream := u\<rparr>, Inr resp)))))"

text \<open>The round tripper of the v2 server: tokens as keys, memcached below.\<close>

definition v2_cache ::
  "(string \<Rightarrow> string) \<Rightarrow> int \<Rightarrow> 'c mc_client \<Rightarrow> (nat \<Rightarrow> nat) \<Rightarrow> ('u \<Rightarrow> body \<Rightarrow> (string + http_response) \<times> 'u) \<Rightarrow>
   (http_response \<Rightarrow> (string + string) \<times> http_response) \<Rightarrow> (string \<Rightarrow> string + http_response) \<Rightarrow> ('c, 'u) cache_ext" where
  "v2_cache sha256 expiration cl room nxt dump readResponse =
     \<lparr>cx_get = memcached_Get sha256 cl, cx_set = memcached_Set sha256 expiration cl,
      cx_key = ExtractToken room None, cx_next = nxt, cx_dump = dump, cx_read = readResponse\<rparr>"

section \<open>The cache as a state machine\<close>

text \<open>
  What the memcached client promises: a value it returns is the stored one, and the stored values
  change only by \<^verbatim>\<open>Set\<close> or by going away.
\<close>

definition client_contract :: "'c mc_client \<Rightarrow> ('c \<Rightarrow> string \<Rightarrow> string option) \<Rightarrow> bool" where
  "client_contract cl stored \<longleftrightarrow>
     (\<forall>c k res c'. mc_get cl c k = (res, c') \<longrightarrow>
        (\<forall>v. res = Inr v \<longrightarrow> stored c k = Some v) \<and> (\<forall>k' v. stored c' k' = Some v \<longrightarrow> stored c k' = Some v)) \<and>
     (\<forall>c it err c'. mc_set cl c it = (err, c') \<longrightarrow>
        (\<forall>k v. stored c' k = Some v \<longrightarrow> stored c k = Some v \<or> k = it_Key it \<and> v = it_Value it))"

text \<open>The successful answers the upstream gives to a request, by its token.\<close>

definition approved :: "('c, 'u) cache_ext \<Rightarrow> 'u \<Rightarrow> body \<Rightarrow> (string \<times> string) set" where
  "approved x u b =
     {(key, raw). \<exists>b' resp u' resp'. cx_key x b = (b', key, None) \<and> cx_next x u b' = (Inr resp, u') \<and>
        200 \<le> hr_status resp \<and> hr_status resp < 300 \<and> cx_dump x resp = (Inr raw, resp')}"

text \<open>
  A state of the machine: the round tripper and the history of answers the upstream approved.
  Entries of the cache may vanish at any time, and the upstream is also asked past the cache.
\<close>

inductive cache_reachable ::
  "('c, 'u) cache_ext \<Rightarrow> ('c \<Rightarrow> string \<Rightarrow> string option) \<Rightarrow> ('c, 'u) cache_state \<Rightarrow>
   ('c, 'u) cache_state \<Rightarrow> (string \<times> string) set \<Rightarrow> bool"
  for x stored s0 where
  start: "cache_reachable x stored s0 s0 {}"
| trip: "cache_reachable x stored s0 s H \<Longrightarrow> cache_RoundTrip x s b = (s', res) \<Longrightarrow>
    cache_reachable x stored s0 s' (H \<union> approved x (cs_upstream s) b)"
| evict: "cache_reachable x stored s0 s H \<Longrightarrow> (\<And>k v. stored c k = Some v \<Longrightarrow> stored (cs_cache s) k = Some v) \<Longrightarrow>
    cache_reachable x stored s0 (s\<lparr>cs_cache := c\<rparr>) H"
| elsewhere: "cache_reachable x stored s0 s H \<Longrightarrow> cache_reachable x stored s0 (s\<lparr>cs_upstream := u\<rparr>) H"

section \<open>Lemmas\<close>

lemma hex_length: "length (hex s) = 2 * length s"
  by (induction s) (auto simp: hex_def Let_def)

lemma count_simps [simp]:
  "cs_cache (count_read k s) = cs_cache s" "cs_upstream (count_read k s) = cs_upstream s"
  "cs_cache (count_write k s) = cs_cache s" "cs_upstream (count_write k s) = cs_upstream s"
  by (simp_all add: count_read_def count_write_def)

text \<open>A renewal of the client of memcached is a step of the machine, as entries can only get lost by it.\<close>

lemma renewals_stored:
  assumes "\<And>c v. stored (fresh c) k = Some v \<Longrightarrow> stored c k = Some v"
  shows "stored (renewals fresh evs c) k = Some v \<Longrightarrow> stored c k = Some v"
proof (induction evs arbitrary: c)
  case (Cons ev evs)
  show ?case
  proof (cases ev)
    case RenewTick
    with Cons.prems Cons.IH [of "fresh c"] have "stored (fresh c) k = Some v" by simp
    then show ?thesis by (rule assms)
  qed (use Cons.prems in simp)
qed simp

lemma renewed_reachable:
  assumes "cache_reachable x stored s0 s H" and "\<And>c k v. stored (fresh c) k = Some v \<Longrightarrow> stored c k = Some v"
  shows "cache_reachable x stored s0 (s\<lparr>cs_cache := memcached_New fresh interval evs (cs_cache s)\<rparr>) H"
proof (rule cache_reachable.evict [OF assms(1)])
  fix k v assume new: "stored (memcached_New fresh interval evs (cs_cache s)) k = Some v"
  have "stored (fresh (cs_cache s)) k = Some v"
  proof (cases "interval > 0")
    case True
    with new have "stored (renewals fresh evs (fresh (cs_cache s))) k = Some v" by (simp add: memcached_New_def)
    then show ?thesis
      by (rule renewals_stored [of stored fresh k, rotated]) (rule assms(2))
  next
    case False
    with new show ?thesis by (simp add: memcached_New_def)
  qed
  then show "stored (cs_cache s) k = Some v" by (rule assms(2))
qed

lemma memcached_Get_stored:
  assumes "client_contract cl stored" and "memcached_Get sha256 cl c key = (res, c')"
  shows "stored c' k = Some v \<Longrightarrow> stored c k = Some v"
    and "res = Inr (Some raw) \<Longrightarrow> stored c (mc_hash sha256 key) = Some raw"
proof -
  obtain r where get: "mc_get cl c (mc_hash sha256 key) = (r, c')" and
    res: "res = Inr (Some raw) \<longleftrightarrow> r = Inr raw" for raw
    using assms(2) by (cases "mc_get cl c (mc_hash sha256 key)")
      (auto simp: memcached_Get_def split: sum.splits mc_err.splits)
  show "stored c' k = Some v \<Longrightarrow> stored c k = Some v"
    using assms(1) get unfolding client_contract_def by metis
  show "res = Inr (Some raw) \<Longrightarrow> stored c (mc_hash sha256 key) = Some raw"
    using assms(1) get res unfolding client_contract_def by metis
qed

text \<open>A trip adds at most the approved answer to the cache.\<close>

lemma trip_stored:
  assumes contract: "client_contract cl stored" and x: "x = v2_cache sha256 ex cl room nxt dump rr"
    and run: "cache_RoundTrip x s b = (s', res)" and st: "stored (cs_cache s') k = Some raw"
  shows "stored (cs_cache s) k = Some raw \<or>
    (\<exists>key. (key, raw) \<in> approved x (cs_upstream s) b \<and> mc_hash sha256 key = k \<and> fst (cx_get x (cs_cache s) key) = Inr None)"
proof -
  obtain b' key err where key: "cx_key x b = (b', key, err)" by (metis prod_cases3)
  show ?thesis
  proof (cases err)
    case (Some e)
    with run key st show ?thesis by (simp add: cache_RoundTrip_def)
  next
    case None
    obtain got c where get: "memcached_Get sha256 cl (cs_cache s) key = (got, c)" by force
    note keeps = memcached_Get_stored(1) [OF contract get]
    show ?thesis
    proof (cases "got = Inr None")
      case False
      with run key None get x st keeps show ?thesis
        by (auto simp: cache_RoundTrip_def v2_cache_def split: sum.splits option.splits)
    next
      case True
      obtain ans u where nxt: "nxt (cs_upstream s) b' = (ans, u)" by force
      show ?thesis
      proof (cases "\<exists>resp rw resp'. ans = Inr resp \<and> 200 \<le> hr_status resp \<and> hr_status resp < 300 \<and>
          dump resp = (Inr rw, resp')")
        case False
        with run key None get True nxt x st keeps show ?thesis
          by (auto simp: cache_RoundTrip_def v2_cache_def cache_store_def Let_def
              split: sum.splits if_splits prod.splits)
      next
        case True2: True
        then obtain resp rw resp' where ans: "ans = Inr resp" "200 \<le> hr_status resp" "hr_status resp < 300"
          "dump resp = (Inr rw, resp')" by blast
        obtain e c' where set: "mc_set cl c \<lparr>it_Key = mc_hash sha256 key, it_Value = rw, it_Expiration = ex\<rparr> = (e, c')"
          by force
        have "cs_cache s' = c'"
          using run key None get True nxt x ans set
          by (auto simp: cache_RoundTrip_def v2_cache_def cache_store_def Let_def memcached_Set_def split: option.splits)
        with st have "stored c' k = Some raw" by simp
        with contract set have "stored c k = Some raw \<or> k = mc_hash sha256 key \<and> raw = rw"
          unfolding client_contract_def by fastforce
        moreover have "(key, rw) \<in> approved x (cs_upstream s) b"
          using key None nxt ans x by (auto simp: approved_def v2_cache_def)
        moreover have "fst (cx_get x (cs_cache s) key) = Inr None" using get True x by (simp add: v2_cache_def)
        ultimately show ?thesis using keeps by blast
      qed
    qed
  qed
qed

text \<open>The invariant: what the cache holds was approved for a token with that hash.\<close>

lemma cache_invariant:
  assumes "client_contract cl stored" and "x = v2_cache sha256 ex cl room nxt dump rr"
    and "\<forall>k. stored (cs_cache s0) k = None" and "cache_reachable x stored s0 s H"
  shows "stored (cs_cache s) k = Some raw \<Longrightarrow> \<exists>key. (key, raw) \<in> H \<and> mc_hash sha256 key = k"
  using assms(4)
proof (induction arbitrary: k raw rule: cache_reachable.induct)
  case start
  with assms(3) show ?case by simp
next
  case (trip s H b s' res)
  from trip_stored [OF assms(1,2) trip.hyps(2) trip.prems] trip.IH show ?case by blast
next
  case (evict s H c)
  then show ?case by simp
next
  case (elsewhere s H u)
  then show ?case by simp
qed

text \<open>Keys of any length become keys memcached can hold.\<close>

lemma mc_hash_short: "length (sha256 key) = 32 \<Longrightarrow> length (mc_hash sha256 key) = 64"
  by (simp add: mc_hash_def hex_length)

section \<open>Properties\<close>

text \<open>
  C11: the cache never vouches for a client on its own.  However requests and losses of entries
  follow each other, a request that is answered from the cache gets an answer that the upstream
  gave, with a 2xx status, to an earlier request whose token has the same hash, and the upstream is
  not asked.
\<close>

theorem cache_serves_approved:
  assumes "client_contract cl stored" and "x = v2_cache sha256 ex cl room nxt dump rr"
    and "\<forall>k. stored (cs_cache s0) k = None" and "cache_reachable x stored s0 s H"
    and "cache_RoundTrip x s b = (s', Inr resp)" and "cs_reads s' ''hit'' = Suc (cs_reads s ''hit'')"
  shows "cs_upstream s' = cs_upstream s \<and>
    (\<exists>token raw. (token, raw) \<in> H \<and> mc_hash sha256 token = mc_hash sha256 (body_left b) \<and> rr raw = Inr resp)"
proof -
  obtain got c where get: "memcached_Get sha256 cl (cs_cache s) (body_left b) = (got, c)" by force
  obtain data err where rd: "ReadAll room [] b = (data, err)" by force
  then have data: "data = body_left b" using ReadAll_data [of room "[]" b] by simp
  have key: "cx_key x b = (buffer (body_left b), body_left b, map_option ReadErr err)"
    using rd data assms(2) by (simp add: v2_cache_def ExtractToken_def)
  have err: "err = None"
    using assms(5,6) key by (cases err) (simp_all add: cache_RoundTrip_def)
  have "got \<noteq> Inr None"
    using assms(5,6) key err get assms(2)
    by (auto simp: cache_RoundTrip_def v2_cache_def Let_def count_read_def count_write_def cache_store_def
        split: sum.splits if_splits prod.splits option.splits)
  then obtain raw where raw: "got = Inr (Some raw)" "rr raw = Inr resp" and up: "cs_upstream s' = cs_upstream s"
    using assms(5) key err get assms(2)
    by (auto simp: cache_RoundTrip_def v2_cache_def split: sum.splits option.splits)
  from memcached_Get_stored(2) [OF assms(1) get raw(1)]
  have "stored (cs_cache s) (mc_hash sha256 (body_left b)) = Some raw" .
  with cache_invariant [OF assms(1-4)] raw(2) up show ?thesis by blast
qed

text \<open>A cache that keeps what it is given, and an upstream that approves every token.\<close>

definition example_client :: "(string \<Rightarrow> string option) mc_client" where
  "example_client = \<lparr>mc_get = (\<lambda>c k. (case c k of None \<Rightarrow> Inl ErrCacheMiss | Some v \<Rightarrow> Inr v, c)),
     mc_set = (\<lambda>c it. (None, c(it_Key it \<mapsto> it_Value it)))\<rparr>"

definition example_answer :: http_response where
  "example_answer = \<lparr>hr_status = 200, hr_contentType = [], hr_body = buffer ''ok''\<rparr>"

definition example_cache :: "(string \<Rightarrow> string option, unit) cache_ext" where
  "example_cache = v2_cache (\<lambda>s. s) 60 example_client (\<lambda>_. 512) (\<lambda>u b. (Inr example_answer, u))
     (\<lambda>resp. (Inr ''raw'', resp)) (\<lambda>raw. Inr example_answer)"

definition cold_state :: "(string \<Rightarrow> string option, unit) cache_state" where
  "cold_state = \<lparr>cs_cache = Map.empty, cs_upstream = (), cs_reads = (\<lambda>_. 0), cs_writes = (\<lambda>_. 0)\<rparr>"

lemma example_client_contract: "client_contract example_client (\<lambda>c. c)"
  by (auto simp: client_contract_def example_client_def split: option.splits if_splits)

theorem cache_serves_approved_witness:
  "\<exists>s H s'. cache_reachable example_cache (\<lambda>c. c) cold_state s H \<and>
     cache_RoundTrip example_cache s (buffer ''t'') = (s', Inr example_answer) \<and>
     (\<exists>token raw. (token, raw) \<in> H \<and> mc_hash (\<lambda>s. s) token = mc_hash (\<lambda>s. s) ''t'')"
proof -
  obtain s1 where one: "cache_RoundTrip example_cache cold_state (buffer ''t'') = (s1, Inr example_answer)"
    and c1: "cs_cache s1 = Map.empty(mc_hash (\<lambda>s. s) ''t'' \<mapsto> ''raw'')"
    by (simp add: cache_RoundTrip_def example_cache_def v2_cache_def ExtractToken_def memcached_Get_def example_client_def
        cold_state_def cache_store_def memcached_Set_def example_answer_def Let_def count_read_def count_write_def)
  have reach: "cache_reachable example_cache (\<lambda>c. c) cold_state s1 ({} \<union> approved example_cache (cs_upstream cold_state) (buffer ''t''))"
    by (rule cache_reachable.trip [OF cache_reachable.start one])
  obtain s2 where two: "cache_RoundTrip example_cache s1 (buffer ''t'') = (s2, Inr example_answer)"
    and hit: "cs_reads s2 ''hit'' = Suc (cs_reads s1 ''hit'')"
    using c1 by (simp add: cache_RoundTrip_def example_cache_def v2_cache_def ExtractToken_def memcached_Get_def
        example_client_def count_read_def)
  have cold: "\<forall>k. cs_cache cold_state k = None" by (simp add: cold_state_def)
  from cache_serves_approved [OF example_client_contract example_cache_def cold reach two hit] reach two
  show ?thesis by auto
qed

end
