(* ===== verification/Options.thy ===== *)
theory Options
  imports Transformers
begin

text \<open>
  The options the commands share (\<^verbatim>\<open>Options.Run\<close> in \<^verbatim>\<open>cmd/telemeter-server\<close>,
  \<^verbatim>\<open>cmd/rhelemeter-server\<close> and \<^verbatim>\<open>cmd/telemeter-client\<close>): labels and renames in
  key=value form, lists of rules with blank entries, the filter in front of the error log, the
  choice of a private key, and the URLs and transformers of the client.
\<close>

section \<open>Key=value flags\<close>

text \<open>The loop over \<^verbatim>\<open>--label\<close> and \<^verbatim>\<open>--required-label\<close>; the error carries the flag.\<close>

fun label_flags :: "(string \<times> string) list \<Rightarrow> string list \<Rightarrow> string + (string \<times> string) list" where
  "label_flags labels [] = Inr labels"
| "label_flags labels (flag # flags) =
     (case SplitN2 (CHR ''='') flag of
        [k, v] \<Rightarrow> label_flags (AList.update k v labels) flags
      | _ \<Rightarrow> Inl flag)"

text \<open>The loop over \<^verbatim>\<open>--rename\<close> skips empty flags.\<close>

fun rename_loop :: "(string \<times> string) list \<Rightarrow> string list \<Rightarrow> string + (string \<times> string) list" where
  "rename_loop renames [] = Inr renames"
| "rename_loop renames (flag # flags) =
     (if length flag = 0 then rename_loop renames flags
      else (case SplitN2 (CHR ''='') flag of
              [k, v] \<Rightarrow> rename_loop (AList.update k v renames) flags
            | _ \<Rightarrow> Inl flag))"

definition rename_flags :: "string list \<Rightarrow> string + (string \<times> string) list" where
  "rename_flags flags = rename_loop [] (if length flags = 0 then [''ALERTS=alerts''] else flags)"

section \<open>Lists of rules\<close>

text \<open>
  The loop that trims rules and removes blank ones.  It works in the backing array: a slice is
  the array and a length, and \<^verbatim>\<open>append(rules[:i], rules[i+1:]...)\<close> moves the tail of the
  slice one place down and leaves the rest of the array as it is.
\<close>

definition remove_at :: "'a list \<Rightarrow> nat \<Rightarrow> nat \<Rightarrow> 'a list" where
  "remove_at arr n i = take i arr @ drop (Suc i) (take n arr) @ drop (n - 1) arr"

function rules_loop :: "string list \<Rightarrow> nat \<Rightarrow> nat \<Rightarrow> string list \<times> nat" where
  "rules_loop arr n i =
     (if i < n then
        (let s = TrimSpace (arr ! i)
         in if length s = 0 then rules_loop (remove_at arr n i) (n - 1) i
            else rules_loop (arr[i := s]) n (Suc i))
      else (arr, n))"
  by pat_completeness auto
termination
  by (relation "measure (\<lambda>(arr, n, i). n - i)") auto

declare rules_loop.simps [simp del]

text \<open>The rules a list of flags yields, and what the array of the flags holds afterwards.\<close>

definition normalize_rules :: "string list \<Rightarrow> string list" where
  "normalize_rules rules = (case rules_loop rules (length rules) 0 of (arr, n) \<Rightarrow> take n arr)"

definition rules_array :: "string list \<Rightarrow> string list" where
  "rules_array rules = fst (rules_loop rules (length rules) 0)"

text \<open>The rules of a file are its lines.\<close>

definition with_file :: "string list \<Rightarrow> string option \<Rightarrow> string list" where
  "with_file rules contents =
     (case contents of None \<Rightarrow> rules | Some data \<Rightarrow> rules @ Split (char_of (10::nat)) data)"

section \<open>The filter of the error log\<close>

fun Contains :: "string \<Rightarrow> string \<Rightarrow> bool" where
  "Contains [] p = (p = [])"
| "Contains (c # s) p = (starts_with p (c # s) \<or> Contains s p)"

fun all_match :: "string \<Rightarrow> string list \<Rightarrow> bool" where
  "all_match log [] = True"
| "all_match log (m # ms) = (if \<not> Contains log m then False else all_match log ms)"

text \<open>\<open>Inl\<close>: the text went to the debug log; \<open>Inr\<close>: it is written out.\<close>

fun filtered_Write :: "string list list \<Rightarrow> string \<Rightarrow> nat + string" where
  "filtered_Write [] p = Inr p"
| "filtered_Write (flt # filters) p =
     (if all_match p flt then Inl (length p) else filtered_Write filters p)"

definition logFilter :: "string list list" where
  "logFilter = [[''http2: server: error reading preface from client'', ''read: connection reset by peer'']]"

section \<open>Private keys\<close>

text \<open>The parsers of \<^verbatim>\<open>crypto/x509\<close> are parameters; they are tried in this order.\<close>

definition loadPrivateKey ::
  "(string \<Rightarrow> string option) \<Rightarrow> (string \<Rightarrow> 'e + 'k) \<Rightarrow> (string \<Rightarrow> 'e + 'k) \<Rightarrow> (string \<Rightarrow> 'e + 'k) \<Rightarrow> string \<Rightarrow>
   ('e \<times> 'e \<times> 'e) + 'k" where
  "loadPrivateKey pem pkcs1 pkcs8 ec data =
     (let input = (case pem data of None \<Rightarrow> data | Some blk \<Rightarrow> blk)
      in (case pkcs1 input of
            Inr k \<Rightarrow> Inr k
          | Inl e0 \<Rightarrow>
              (case pkcs8 input of
                 Inr k \<Rightarrow> Inr k
               | Inl e1 \<Rightarrow> (case ec input of Inr k \<Rightarrow> Inr k | Inl e2 \<Rightarrow> Inl (e0, e1, e2)))))"

section \<open>Paths and URLs of the client\<close>

text \<open>
  \<^verbatim>\<open>path.Clean\<close> and \<^verbatim>\<open>path.Join\<close>: the elements of a path without the empty ones and the
  dots, a double dot taking back the element before it.
\<close>

fun clean_elems :: "bool \<Rightarrow> string list \<Rightarrow> string list \<Rightarrow> string list" where
  "clean_elems rooted out [] = out"
| "clean_elems rooted out (e # es) =
     (if e = [] \<or> e = ''.'' then clean_elems rooted out es
      else if e = ''..'' then
        (if out \<noteq> [] \<and> last out \<noteq> ''..'' then clean_elems rooted (butlast out) es
         else if rooted then clean_elems rooted out es
         else clean_elems rooted (out @ [''..'']) es)
      else clean_elems rooted (out @ [e]) es)"

fun join_slash :: "string list \<Rightarrow> string" where
  "join_slash [] = []"
| "join_slash [e] = e"
| "join_slash (e # es) = e @ CHR ''/'' # join_slash es"

definition Clean :: "string \<Rightarrow> string" where
  "Clean p =
     (let rooted = starts_with ''/'' p;
          q = join_slash (clean_elems rooted [] (Split (CHR ''/'') p))
      in if rooted then CHR ''/'' # q else if q = [] then ''.'' else q)"

definition path_Join :: "string \<Rightarrow> string \<Rightarrow> string" where
  "path_Join a b =
     (if a = [] \<and> b = [] then [] else Clean (join_slash (filter (\<lambda>e. e \<noteq> []) [a, b])))"

definition TrimRight :: "char \<Rightarrow> string \<Rightarrow> string" where
  "TrimRight c s = rev (dropWhile (\<lambda>x. x = c) (rev s))"

text \<open>A URL: scheme and host, path and query.  \<^verbatim>\<open>url.Parse\<close> is a parameter.\<close>

record url =
  ur_Host :: string
  ur_Path :: string
  ur_Query :: "(string \<times> string) list"

record client_options =
  co_From :: string
  co_To :: string
  co_ToUpload :: string
  co_ToAuthorize :: string
  co_Identifier :: string
  co_LabelFlag :: "string list"
  co_RenameFlag :: "string list"

datatype options_err =
    NoFrom | BadLabel string | BadRename string | BadFrom string | BadToUpload string | BadToAuthorize string
  | BadTo string | NoDestination

text \<open>\<^verbatim>\<open>q.Add\<close> appends a value; the query is encoded again in the order of the keys.\<close>

definition from_url :: "url \<Rightarrow> url" where
  "from_url u =
     (let u1 = u\<lparr>ur_Path := TrimRight (CHR ''/'') (ur_Path u)\<rparr>
      in if length (ur_Path u1) = 0 then u1\<lparr>ur_Path := ''/federate''\<rparr> else u1)"

definition to_urls :: "string \<Rightarrow> url option \<Rightarrow> url \<Rightarrow> url \<times> url" where
  "to_urls identifier toAuthorize to =
     (let to1 = (if length (ur_Path to) = 0 then to\<lparr>ur_Path := ''/''\<rparr> else to);
          auth = (case toAuthorize of
                    Some u \<Rightarrow> u
                  | None \<Rightarrow>
                      (let u = to1\<lparr>ur_Path := path_Join (ur_Path to1) ''authorize''\<rparr>
                       in if length identifier > 0 then u\<lparr>ur_Query := ur_Query to1 @ [(''id'', identifier)]\<rparr> else u))
      in (auth, to1\<lparr>ur_Path := path_Join (ur_Path to1) ''upload''\<rparr>))"

definition parse_optional :: "(string \<Rightarrow> string + url) \<Rightarrow> string \<Rightarrow> string + url option" where
  "parse_optional parse s =
     (if length s > 0 then (case parse s of Inl e \<Rightarrow> Inl e | Inr u \<Rightarrow> Inr (Some u)) else Inr None)"

definition destinations :: "(string \<Rightarrow> string + url) \<Rightarrow> client_options \<Rightarrow> options_err + url \<times> url" where
  "destinations parse o' =
     (case parse_optional parse (co_ToUpload o') of
        Inl e \<Rightarrow> Inl (BadToUpload e)
      | Inr toUpload \<Rightarrow>
          (case parse_optional parse (co_ToAuthorize o') of
             Inl e \<Rightarrow> Inl (BadToAuthorize e)
           | Inr toAuthorize \<Rightarrow>
               if length (co_To o') > 0
               then (case parse (co_To o') of
                       Inl e \<Rightarrow> Inl (BadTo e)
                     | Inr to \<Rightarrow> Inr (to_urls (co_Identifier o') toAuthorize to))
               else (case (toAuthorize, toUpload) of
                       (Some a, Some u) \<Rightarrow> Inr (a, u)
                     | _ \<Rightarrow> Inl NoDestination)))"

text \<open>
  The transformers of the client.  The fresh ones are built for every family; the drop of invalid
  samples reads the clock each time.
\<close>

definition client_transforms :: "(string \<times> string) list \<Rightarrow> (string \<times> string) list \<Rightarrow> transformer" where
  "client_transforms labels renames =
     (let m0 = Multi [] [];
          m1 = (if length labels > 0 then WithFunc (\<lambda>w. (T_Label (NewLabel labels False), w)) m0 else m0);
          m2 = (if length renames > 0 then WithFunc (\<lambda>w. (T_Rename (map_of renames), w)) m1 else m1);
          m3 = WithFunc (\<lambda>w. let (t, w') = read_now w in (T_DropInvalid (min_ms (t - 24 * Hour)), w')) m2;
          m4 = With (Some (Basic T_PackMetrics)) m3
      in With (Some (Basic T_SortMetrics)) m4)"

definition client_Run ::
  "(string \<Rightarrow> string + url) \<Rightarrow> client_options \<Rightarrow> options_err + url \<times> url \<times> url \<times> transformer" where
  "client_Run parse o' =
     (if length (co_From o') = 0 then Inl NoFrom
      else (case label_flags [] (co_LabelFlag o') of
              Inl flag \<Rightarrow> Inl (BadLabel flag)
            | Inr labels \<Rightarrow>
                (case rename_flags (co_RenameFlag o') of
                   Inl flag \<Rightarrow> Inl (BadRename flag)
                 | Inr renames \<Rightarrow>
                     (case parse (co_From o') of
                        Inl e \<Rightarrow> Inl (BadFrom e)
                      | Inr from \<Rightarrow>
                          (case destinations parse o' of
                             Inl e \<Rightarrow> Inl e
                           | Inr (auth, upload) \<Rightarrow>
                               Inr (from_url from, auth, upload, client_transforms labels renames))))))"

section \<open>Lemmas\<close>

lemma remove_at_slice:
  assumes "i < n" and "n \<le> length arr"
  shows "length (remove_at arr n i) = length arr" and "take i (remove_at arr n i) = take i arr"
    and "drop i (take (n - 1) (remove_at arr n i)) = drop (Suc i) (take n arr)"
proof -
  show "length (remove_at arr n i) = length arr" and "take i (remove_at arr n i) = take i arr"
    using assms by (simp_all add: remove_at_def)
  have "n - 1 \<le> i \<Longrightarrow> n - 1 = i" using assms by simp
  then have "take (n - 1) (remove_at arr n i) = take i arr @ drop (Suc i) (take n arr)"
    using assms by (auto simp: remove_at_def min_def)
  then show "drop i (take (n - 1) (remove_at arr n i)) = drop (Suc i) (take n arr)"
    using assms by (simp add: min_def)
qed

lemma rules_loop_filter:
  assumes "i \<le> n" and "n \<le> length arr"
  shows "(case rules_loop arr n i of (arr', n') \<Rightarrow> take n' arr') =
    take i arr @ filter (\<lambda>s. s \<noteq> []) (map TrimSpace (drop i (take n arr)))"
  using assms
proof (induction arr n i rule: rules_loop.induct)
  case (1 arr n i)
  show ?case
  proof (cases "i < n")
    case True
    then have d: "drop i (take n arr) = arr ! i # drop (Suc i) (take n arr)"
      using 1 by (simp add: Cons_nth_drop_Suc [symmetric])
    show ?thesis
    proof (cases "TrimSpace (arr ! i) = []")
      case blank: True
      with 1 True remove_at_slice [OF True 1(4)] d show ?thesis
        by (subst rules_loop.simps) (simp add: Let_def)
    next
      case False
      with 1 True d show ?thesis
        by (subst rules_loop.simps) (simp add: Let_def take_Suc_conv_app_nth take_update_swap drop_update_cancel list_update_append)
    qed
  next
    case False
    with 1 show ?thesis by (subst rules_loop.simps) simp
  qed
qed

lemma normalize_rules_exact: "normalize_rules rules = filter (\<lambda>s. s \<noteq> []) (map TrimSpace rules)"
  using rules_loop_filter [of 0 "length rules" rules] by (simp add: normalize_rules_def)

section \<open>Properties\<close>

text \<open>
  the loop that cleans a list of rules in place ends and leaves exactly the rules that are not
  blank, trimmed and in order.  It writes to the array the caller still holds, though: in the
  configuration a blank rule turns into a second copy of the last one, so reading the same
  configuration again, as a reload does, yields that rule twice.
\<close>

theorem rules_normalized:
  "normalize_rules rules = filter (\<lambda>s. s \<noteq> []) (map TrimSpace rules) \<and>
   rules_array [''a'', [], ''b''] = [''a'', ''b'', ''b''] \<and>
   normalize_rules (rules_array [''a'', [], ''b'']) = [''a'', ''b'', ''b'']"
proof -
  have "rules_array [''a'', [], ''b''] = [''a'', ''b'', ''b'']"
    by (simp add: rules_array_def rules_loop.simps trim_examples remove_at_def Let_def)
  with trim_examples show ?thesis by (simp add: normalize_rules_exact)
qed

end
