(* ===== verification/Metrics_Client.thy ===== *)
theory Metrics_Client
  imports Authorize Client_Model Options
begin

text \<open>
  \<^verbatim>\<open>pkg/metricsclient/metricsclient.go\<close>: scraping a Prometheus and sending families to a
  server, with the counters by status code and the race between a request and its deadline.
\<close>

section \<open>Parameters and state\<close>

text \<open>
  \<open>me_do\<close> is \<^verbatim>\<open>client.Do\<close> on method, URL and body.  \<open>me_decode\<close> is the loop over
  \<^verbatim>\<open>expfmt.NewDecoder\<close> on a body of the given content type: the families its calls deliver and
  the error that ends them unless it is \<^verbatim>\<open>io.EOF\<close>.  \<open>me_compress\<close> is the snappy writer
  and \<open>me_flush\<close> the error of its \<^verbatim>\<open>Flush\<close>.
\<close>

record 'u metrics_ext =
  me_room :: "nat \<Rightarrow> nat"
  me_do :: "'u \<Rightarrow> string \<times> url \<times> string \<Rightarrow> (string + http_response) \<times> 'u"
  me_decode :: "string \<Rightarrow> body \<Rightarrow> family list \<times> string option"
  me_encode :: "family \<Rightarrow> string + string"
  me_compress :: "string \<Rightarrow> string"
  me_flush :: "string option"

text \<open>The Prometheus metrics of the package, by client and status code.\<close>

record metrics_counts =
  mt_requests :: "string \<times> string \<Rightarrow> nat"
  mt_retrieve :: "string \<times> string \<Rightarrow> nat"
  mt_send :: "string \<times> string \<Rightarrow> nat"

record metrics_client =
  cl_maxBytes :: int
  cl_metricsName :: string

datatype fetch_err =
    DoErr string
  | RequiresAuthentication url
  | ForbiddenErr url
  | BadRequestErr url
  | UnexpectedCode int
  | UnexpectedAnswer int string
  | DecodeErr string
  | EncodeErr string
  | FlushErr string
  | CloseBodyErr string
  | CtxErr string

text \<open>
  The deadline of a request: whether it passes before the answer is handled, what the handling can
  still read of the body then, and the errors of closing the body and of the context.
\<close>

record deadline =
  dl_done :: bool
  dl_cut :: "body \<Rightarrow> body"
  dl_closeErr :: "string option"
  dl_ctxErr :: string

definition in_time :: deadline where
  "in_time = \<lparr>dl_done = False, dl_cut = (\<lambda>b. b), dl_closeErr = None, dl_ctxErr = []\<rparr>"

section \<open>withCancel\<close>

text \<open>
  The goroutine always runs to its end; its error wins, then that of closing, then that of the
  context.
\<close>

definition withCancel :: "deadline \<Rightarrow> (http_response \<Rightarrow> 'c \<Rightarrow> 'c \<times> fetch_err option) \<Rightarrow> http_response \<Rightarrow> 'c \<Rightarrow> 'c \<times> fetch_err option" where
  "withCancel d fn resp c =
     (let (c', err) = fn (if dl_done d then resp\<lparr>hr_body := dl_cut d (hr_body resp)\<rparr> else resp) c
      in if dl_done d then
           (c', (case err of
                   Some e \<Rightarrow> Some e
                 | None \<Rightarrow> (case dl_closeErr d of
                       Some e \<Rightarrow> Some (CloseBodyErr e)
                     | None \<Rightarrow> Some (CtxErr (dl_ctxErr d)))))
         else (c', err))"

section \<open>Retrieve\<close>

definition bump :: "string \<times> string \<Rightarrow> (string \<times> string \<Rightarrow> nat) \<Rightarrow> (string \<times> string \<Rightarrow> nat)" where
  "bump k m = m(k := Suc (m k))"

definition zero_family :: family where
  "zero_family = \<lparr>f_Name = None, f_Help = None, f_Type = None, f_Metric = []\<rparr>"

text \<open>
  The family that receives the next message is appended before it is decoded, so the one that was
  waiting when the body ended stays in the slice.
\<close>

definition Retrieve_fn ::
  "'u metrics_ext \<Rightarrow> metrics_client \<Rightarrow> url \<Rightarrow> http_response \<Rightarrow> metrics_counts \<times> family option list \<Rightarrow>
   (metrics_counts \<times> family option list) \<times> fetch_err option" where
  "Retrieve_fn x c u resp = (\<lambda>(m, families).
     (let code = hr_status resp;
          m1 = m\<lparr>mt_requests := bump (cl_metricsName c, decimal code) (mt_requests m)\<rparr>;
          m2 = m1\<lparr>mt_retrieve := bump (cl_metricsName c, decimal code) (mt_retrieve m1)\<rparr>
      in if code = StatusOK then
           (case me_decode x (hr_contentType resp) (LimitReader (hr_body resp) (cl_maxBytes c)) of
              (fams, err) \<Rightarrow>
                ((m2, families @ map Some fams @ [Some zero_family]), map_option DecodeErr err))
         else if code = StatusUnauthorized then ((m2, families), Some (RequiresAuthentication u))
         else if code = StatusForbidden then ((m2, families), Some (ForbiddenErr u))
         else if code = StatusBadRequest then ((m2, families), Some (BadRequestErr u))
         else ((m2, families), Some (UnexpectedCode code))))"

definition Retrieve ::
  "'u metrics_ext \<Rightarrow> metrics_client \<Rightarrow> deadline \<Rightarrow> url \<Rightarrow> metrics_counts \<times> 'u \<Rightarrow>
   (metrics_counts \<times> 'u) \<times> (fetch_err + family option list)" where
  "Retrieve x c d u = (\<lambda>(m, up).
     (case me_do x up (''GET'', u, []) of
        (Inl e, up') \<Rightarrow> ((m, up'), Inl (DoErr e))
      | (Inr resp, up') \<Rightarrow>
          (case withCancel d (Retrieve_fn x c u) resp (m, []) of
             ((m', families), Some e) \<Rightarrow> ((m', up'), Inl e)
           | ((m', families), None) \<Rightarrow> ((m', up'), Inr families))))"

section \<open>Read and Write\<close>

fun encode_loop :: "(family \<Rightarrow> string + string) \<Rightarrow> string \<Rightarrow> family option list \<Rightarrow> string + string" where
  "encode_loop enc buf [] = Inr buf"
| "encode_loop enc buf (None # fs) = encode_loop enc buf fs"
| "encode_loop enc buf (Some f # fs) =
     (case enc f of Inl e \<Rightarrow> Inl e | Inr out \<Rightarrow> encode_loop enc (buf @ out) fs)"

definition Write :: "'u metrics_ext \<Rightarrow> family option list \<Rightarrow> fetch_err + string" where
  "Write x families =
     (case encode_loop (me_encode x) [] families of
        Inl e \<Rightarrow> Inl (EncodeErr e)
      | Inr buf \<Rightarrow> (case me_flush x of Some e \<Rightarrow> Inl (FlushErr e) | None \<Rightarrow> Inr (me_compress x buf)))"

definition Read :: "(string \<Rightarrow> body \<Rightarrow> family list \<times> string option) \<Rightarrow> (body \<Rightarrow> body) \<Rightarrow> string \<Rightarrow> body \<Rightarrow> string + family option list" where
  "Read decode snappyReader format r =
     (case decode format (snappyReader r) of
        (fams, None) \<Rightarrow> Inr (map Some fams)
      | (fams, Some e) \<Rightarrow> Inl e)"

section \<open>Send\<close>

definition Send_fn ::
  "'u metrics_ext \<Rightarrow> metrics_client \<Rightarrow> url \<Rightarrow> http_response \<Rightarrow> metrics_counts \<Rightarrow> metrics_counts \<times> fetch_err option" where
  "Send_fn x c u resp m =
     (let code = hr_status resp;
          m1 = m\<lparr>mt_requests := bump (cl_metricsName c, decimal code) (mt_requests m)\<rparr>;
          m2 = m1\<lparr>mt_send := bump (cl_metricsName c, decimal code) (mt_send m1)\<rparr>
      in if code = StatusOK then (m2, None)
         else if code = StatusUnauthorized then (m2, Some (RequiresAuthentication u))
         else if code = StatusForbidden then (m2, Some (ForbiddenErr u))
         else if code = StatusBadRequest then (m2, Some (BadRequestErr u))
         else (m2, Some (UnexpectedAnswer code (take 1024 (fst (ReadAll (me_room x) [] (hr_body resp)))))))"

definition Send ::
  "'u metrics_ext \<Rightarrow> metrics_client \<Rightarrow> deadline \<Rightarrow> url \<Rightarrow> family option list \<Rightarrow> metrics_counts \<times> 'u \<Rightarrow>
   (metrics_counts \<times> 'u) \<times> fetch_err option" where
  "Send x c d u families = (\<lambda>(m, up).
     (case Write x families of
        Inl e \<Rightarrow> ((m, up), Some e)
      | Inr data \<Rightarrow>
          (case me_do x up (''POST'', u, data) of
             (Inl e, up') \<Rightarrow> ((m, up'), Some (DoErr e))
           | (Inr resp, up') \<Rightarrow>
               (case withCancel d (Send_fn x c u) resp m of (m', err) \<Rightarrow> ((m', up'), err)))))"

section \<open>Lemmas\<close>

lemma withCancel_None: "withCancel d fn resp c = (c', None) \<longleftrightarrow> \<not> dl_done d \<and> fn resp c = (c', None)"
  by (auto simp: withCancel_def case_prod_unfold Let_def prod_eq_iff split: option.splits)

text \<open>A successful retrieval: status 200, before the deadline, and a body within the limit.\<close>

lemma Retrieve_ok:
  "Retrieve x c d u (m, up) = ((m', up'), Inr families) \<longleftrightarrow>
     (\<exists>resp fams. me_do x up (''GET'', u, []) = (Inr resp, up') \<and> \<not> dl_done d \<and> hr_status resp = 200 \<and>
        me_decode x (hr_contentType resp) (LimitReader (hr_body resp) (cl_maxBytes c)) = (fams, None) \<and>
        families = map Some fams @ [Some zero_family] \<and>
        m' = m\<lparr>mt_requests := bump (cl_metricsName c, decimal 200) (mt_requests m),
               mt_retrieve := bump (cl_metricsName c, decimal 200) (mt_retrieve m)\<rparr>)"
proof (cases "fst (me_do x up (''GET'', u, []))")
  case (Inl e)
  then show ?thesis by (auto simp: Retrieve_def case_prod_unfold)
next
  case (Inr resp)
  then obtain up1 where do: "me_do x up (''GET'', u, []) = (Inr resp, up1)"
    by (cases "me_do x up (''GET'', u, [])") auto
  have "Retrieve x c d u (m, up) = ((m', up'), Inr families) \<longleftrightarrow>
      up' = up1 \<and> withCancel d (Retrieve_fn x c u) resp (m, []) = ((m', families), None)"
    using do by (auto simp: Retrieve_def case_prod_unfold prod_eq_iff split: option.splits)
  also have "\<dots> \<longleftrightarrow> up' = up1 \<and> \<not> dl_done d \<and> Retrieve_fn x c u resp (m, []) = ((m', families), None)"
    by (simp add: withCancel_None)
  also have "\<dots> \<longleftrightarrow> up' = up1 \<and> \<not> dl_done d \<and> hr_status resp = 200 \<and>
      (\<exists>fams. me_decode x (hr_contentType resp) (LimitReader (hr_body resp) (cl_maxBytes c)) = (fams, None) \<and>
        families = map Some fams @ [Some zero_family]) \<and>
      m' = m\<lparr>mt_requests := bump (cl_metricsName c, decimal 200) (mt_requests m),
               mt_retrieve := bump (cl_metricsName c, decimal 200) (mt_retrieve m)\<rparr>"
    by (cases "me_decode x (hr_contentType resp) (LimitReader (hr_body resp) (cl_maxBytes c))")
      (auto simp: Retrieve_fn_def Let_def status_defs)
  finally show ?thesis using do by auto
qed

lemma encode_loop_somes: "encode_loop enc buf fs = encode_loop enc buf (map Some (somes fs))"
  by (induction enc buf fs rule: encode_loop.induct) (auto split: sum.split)

lemma Retrieve_remote: "fst (Retrieve x c d u (m, up)) = (m', up') \<Longrightarrow> up' = snd (me_do x up (''GET'', u, []))"
  by (auto simp: Retrieve_def split: prod.splits sum.splits option.splits)

lemma Send_remote:
  assumes "Send x c d u families (m, up) = ((m', up'), err)"
  obtains (unwritten) e where "Write x families = Inl e" and "up' = up" and "err = Some e"
  | (posted) data where "Write x families = Inr data" and "up' = snd (me_do x up (''POST'', u, data))"
      and "err = None \<Longrightarrow> \<exists>resp. fst (me_do x up (''POST'', u, data)) = Inr resp \<and> hr_status resp = 200"
proof (cases "Write x families")
  case (Inl e)
  with assms unwritten show ?thesis by (simp add: Send_def)
next
  case (Inr data)
  obtain r up1 where do: "me_do x up (''POST'', u, data) = (r, up1)" by fastforce
  show ?thesis
  proof (rule posted [OF Inr])
    show "up' = snd (me_do x up (''POST'', u, data))"
      using assms Inr do by (auto simp: Send_def split: sum.splits prod.splits)
    show "\<exists>resp. fst (me_do x up (''POST'', u, data)) = Inr resp \<and> hr_status resp = 200" if none: "err = None"
    proof (cases r)
      case (Inl e)
      with assms Inr do none show ?thesis by (simp add: Send_def)
    next
      case (Inr resp)
      with assms \<open>Write x families = Inr data\<close> do none have "snd (Send_fn x c u resp m) = None"
        by (auto simp: Send_def withCancel_None split: prod.splits)
      then have "hr_status resp = 200" by (auto simp: Send_fn_def Let_def status_defs split: if_splits)
      with do Inr show ?thesis by simp
    qed
  qed
qed

end
