(* ===== verification/Client_Chain.thy ===== *)
theory Client_Chain
  imports Options
begin

text \<open>
  The chain of transformers of the client: it does not panic on families as a decoder produces them,
  and what it lets through is valid, packed and sorted.
\<close>

section \<open>Families without nil pointers\<close>

definition clean :: "family \<Rightarrow> bool" where
  "clean f \<longleftrightarrow> None \<notin> set (f_Metric f) \<and> labels_present f"

text \<open>The transformers that keep a clean family clean.\<close>

fun keeps_clean :: "basic \<Rightarrow> bool" where
  "keeps_clean T_SortMetrics = True"
| "keeps_clean (T_Rename n) = True"
| "keeps_clean (T_Label t) = True"
| "keeps_clean (T_Anonymize a) = True"
| "keeps_clean _ = False"

text \<open>The transformers a worker of the client command has, whatever the flags.\<close>

definition client_shape :: "transformer \<Rightarrow> bool" where
  "client_shape t \<longleftrightarrow>
     (\<exists>labels renames bs. t = Multi [] (client_transforms labels renames # map Basic bs) \<and> list_all keeps_clean bs)"

section \<open>Lemmas\<close>

lemma clean_label_loop:
  "clean f \<Longrightarrow> \<exists>ms. label_loop kvs (f_Metric f) = Ret ms \<and> clean (f\<lparr>f_Metric := ms\<rparr>)"
  by (auto simp: label_loop_Ret clean_def labels_present_def list_all_iff set_somes appendLabels_eq
      map_option_case split: option.splits)

lemma clean_label:
  assumes "clean f"
  shows "\<exists>w' t' g ok err. label_Transform t w (Some f) = Ret (w', t', Some g, ok, err) \<and> clean g"
proof -
  have "\<exists>g. go_bind (label_loop kvs (f_Metric f)) (\<lambda>ms. Ret (w1, t1, Some (f\<lparr>f_Metric := ms\<rparr>), True, None)) =
      Ret (w1, t1, Some g, True, None) \<and> clean g" for kvs and w1 :: world and t1 :: label_state
    using clean_label_loop [OF assms, of kvs] by auto
  with assms show ?thesis by (auto simp: label_Transform_def Let_def split: sum.split simp del: go_bind_eq_Ret) blast+
qed

lemma clean_anonymize:
  assumes "clean f"
  shows "\<exists>g. AnonymizeMetrics_Transform h a (Some f) = Ret (Some g, True, None) \<and> clean g"
  using assms
  by (auto simp: AnonymizeMetrics_Transform_def Let_def transformMetricLabelValues_Ret clean_def labels_present_def
      list_all_iff)

lemma clean_rename:
  "clean f \<Longrightarrow> \<exists>g. RenameMetrics_Transform n (Some f) = Ret (Some g, True, None) \<and> clean g"
  by (auto simp: RenameMetrics_Transform_def clean_def labels_present_def split: option.split)

lemma clean_sort:
  assumes "sort_contract metric_less srt" and "clean f"
  shows "clean (f\<lparr>f_Metric := srt (f_Metric f)\<rparr>)"
  using assms(2) by_timestamp.sort_contract_set [OF assms(1), of "f_Metric f"]
  by (simp add: clean_def labels_present_def list_all_iff set_somes)

lemma keeps_clean_step:
  assumes "sort_contract metric_less (e_sortMetrics e)" and "keeps_clean b" and "clean f"
  shows "\<exists>w' b' g ok err. basic_Transform e (w, b) (Some f) = Ret ((w', b'), Some g, ok, err) \<and>
    keeps_clean b' \<and> clean g"
  using assms(2)
proof (cases b rule: keeps_clean.cases)
  case 1
  with clean_sort [OF assms(1,3)] show ?thesis by (auto simp: stateless_def SortMetrics_def)
next
  case (2 n)
  with clean_rename [OF assms(3), of n] show ?thesis by (auto simp: stateless_def)
next
  case (3 t)
  with clean_label [OF assms(3), of t w] show ?thesis by fastforce
next
  case (4 a)
  with clean_anonymize [OF assms(3), of "e_sum256 e" a] show ?thesis by (auto simp: stateless_def)
qed simp_all

lemma Transform_all_clean:
  assumes "sort_contract metric_less (e_sortMetrics e)" and "list_all keeps_clean bs" and "clean f"
  shows "\<exists>w' bs' g ok err. Transform_all e w (map Basic bs) (Some f) = Ret ((w', map Basic bs'), Some g, ok, err) \<and>
    list_all keeps_clean bs' \<and> clean g"
  using assms(2,3)
proof (induction bs arbitrary: w f)
  case Nil
  then show ?case by (auto intro: exI [of _ "[]"])
next
  case (Cons b bs)
  from keeps_clean_step [OF assms(1), of b f w] Cons.prems obtain w1 b1 f1 ok err where
    st: "basic_Transform e (w, b) (Some f) = Ret ((w1, b1), Some f1, ok, err)" "keeps_clean b1" "clean f1" by auto
  from Cons.IH [of f1 w1] Cons.prems(1) st(3) obtain w2 bs' g ok' err' where
    "Transform_all e w1 (map Basic bs) (Some f1) = Ret ((w2, map Basic bs'), Some g, ok', err')"
    "list_all keeps_clean bs'" "clean g" by auto
  then show ?case
    using st Cons.prems by (auto intro: exI [of _ "b1 # bs'"] exI [of _ "b1 # bs"])
qed

lemma run_built_append:
  "run_built e w (xs @ ys) f =
     go_bind (run_built e w xs f) (\<lambda>(w1, f1, ok, err).
       if err \<noteq> None \<or> \<not> ok then Ret (w1, f1, False, err) else run_built e w1 ys f1)"
proof (induction xs arbitrary: w f)
  case (Cons b xs)
  show ?case
  proof (cases "basic_Transform e (w, b) f")
    case (Ret r)
    obtain w1 b1 f1 ok err where "r = ((w1, b1), f1, ok, err)" by (metis prod.exhaust)
    with Ret Cons show ?thesis by simp
  qed simp
qed simp

lemma run_built_clean:
  assumes "sort_contract metric_less (e_sortMetrics e)" and "list_all keeps_clean bs" and "clean f"
  shows "\<exists>w' g ok err. run_built e w bs (Some f) = Ret (w', Some g, ok, err) \<and> clean g"
  using assms(2,3)
proof (induction bs arbitrary: w f)
  case (Cons b bs)
  from keeps_clean_step [OF assms(1), of b f w] Cons.prems obtain w1 b1 f1 ok err where
    st: "basic_Transform e (w, b) (Some f) = Ret ((w1, b1), Some f1, ok, err)" "clean f1" by auto
  from Cons.IH [of f1 w1] Cons.prems(1) st(2) obtain w2 g ok' err' where
    "run_built e w1 bs (Some f1) = Ret (w2, Some g, ok', err')" "clean g" by auto
  with st show ?case by auto
qed auto

lemma dropInvalid_clean:
  assumes "clean f"
  shows "\<exists>g ok. dropInvalid_Transform mn (Some f) = Ret (Some g, ok, None) \<and> labels_present g"
proof -
  have lp: "labels_present f" using assms by (simp add: clean_def)
  have "\<exists>out. drop_invalid_loop mn ty (f_Metric f) = Ret out \<and> labels_present (f\<lparr>f_Metric := out\<rparr>)" for ty
    using drop_invalid_loop_total [of "f_Metric f" mn ty] drop_invalid_loop_Ret [of mn ty "f_Metric f"] lp
    by (fastforce simp: labels_present_def list_all_iff)
  with lp show ?thesis
    by (fastforce simp: dropInvalid_Transform_def Let_def split: option.split)
qed

lemma pack_clean:
  "labels_present f \<Longrightarrow> \<exists>g ok. PackMetrics (Some f) = Ret (Some g, ok, None) \<and> clean g \<and>
     f_Metric g = filter (\<lambda>m. m \<noteq> None) (f_Metric f)"
  by (auto simp: PackMetrics_filter clean_def labels_present_def list_all_iff set_somes)

text \<open>The chain is fresh transformers, of which the last drops invalid samples, then the two that stay.\<close>

lemma client_transforms_eq:
  "\<exists>front. list_all keeps_clean front \<and> list_all (\<lambda>b. b = T_Rename (map_of renames) \<or> b = T_Label (NewLabel labels False)) front \<and>
     (\<forall>w. build bs w = (front @ [T_DropInvalid (min_ms (w_now w (w_ticks w) - 24 * Hour))], w\<lparr>w_ticks := Suc (w_ticks w)\<rparr>))"
  if "client_transforms labels renames = Multi bs ts"
  using that
  by (intro exI [of _ "(if length labels > 0 then [T_Label (NewLabel labels False)] else []) @
        (if length renames > 0 then [T_Rename (map_of renames)] else [])"])
    (auto simp: client_transforms_def Let_def read_now_def)

lemma client_transforms_Multi:
  "\<exists>bs. client_transforms labels renames = Multi bs [Basic T_PackMetrics, Basic T_SortMetrics]"
  by (simp add: client_transforms_def Let_def)

lemma client_transforms_total:
  assumes "sort_contract metric_less (e_sortMetrics e)" and "clean f"
  shows "\<exists>w' g ok err. Transform e w (client_transforms labels renames) (Some f) =
      Ret ((w', client_transforms labels renames), Some g, ok, err) \<and> (ok \<longrightarrow> clean g)"
proof -
  obtain bs where bs: "client_transforms labels renames = Multi bs [Basic T_PackMetrics, Basic T_SortMetrics]"
    using client_transforms_Multi by blast
  let ?mn = "min_ms (w_now w (w_ticks w) - 24 * Hour)" and ?w = "w\<lparr>w_ticks := Suc (w_ticks w)\<rparr>"
  obtain front where front: "list_all keeps_clean front" "build bs w = (front @ [T_DropInvalid ?mn], ?w)"
    using client_transforms_eq [OF bs] by blast
  obtain w1 f1 ok1 err1 where r1: "run_built e ?w front (Some f) = Ret (w1, Some f1, ok1, err1)" "clean f1"
    using run_built_clean [OF assms(1) front(1) assms(2)] by blast
  obtain f2 ok2 where r2: "dropInvalid_Transform ?mn (Some f1) = Ret (Some f2, ok2, None)" "labels_present f2"
    using dropInvalid_clean [OF r1(2)] by blast
  obtain f3 ok3 where r3: "PackMetrics (Some f2) = Ret (Some f3, ok3, None)" "clean f3"
    using pack_clean [OF r2(2)] by blast
  show ?thesis
  proof (cases "ok1 \<and> err1 = None")
    case True
    with clean_sort [OF assms(1) r3(2)] r1 r2 r3 show ?thesis
      by (cases ok2; cases ok3) (auto simp: bs front(2) run_built_append stateless_def SortMetrics_def simp del: go_bind_eq_Ret)
  next
    case False
    with r1 have "run_built e ?w (front @ [T_DropInvalid ?mn]) (Some f) = Ret (w1, Some f1, False, err1)"
      by (auto simp: run_built_append simp del: go_bind_eq_Ret)
    then show ?thesis by (auto simp: bs front(2) simp del: go_bind_eq_Ret)
  qed
qed

lemma client_shape_total:
  assumes "sort_contract metric_less (e_sortMetrics e)" and "client_shape t" and "clean f"
  shows "\<exists>w' t' g ok err. Transform e w t (Some f) = Ret ((w', t'), Some g, ok, err) \<and> client_shape t' \<and> (ok \<longrightarrow> clean g)"
proof -
  from assms(2) obtain labels renames bs where t: "t = Multi [] (client_transforms labels renames # map Basic bs)"
    and bs: "list_all keeps_clean bs" by (auto simp: client_shape_def)
  obtain w1 f1 ok err where st: "Transform e w (client_transforms labels renames) (Some f) =
      Ret ((w1, client_transforms labels renames), Some f1, ok, err)" "ok \<longrightarrow> clean f1"
    using client_transforms_total [OF assms(1,3)] by blast
  show ?thesis
  proof (cases "ok \<and> err = None")
    case True
    with Transform_all_clean [OF assms(1) bs, of f1 w1] st obtain w2 bs' g ok' err' where
      "Transform_all e w1 (map Basic bs) (Some f1) = Ret ((w2, map Basic bs'), Some g, ok', err')"
      "list_all keeps_clean bs'" "clean g" by auto
    with st True show ?thesis by (auto simp: t client_shape_def)
  next
    case False
    with st bs show ?thesis by (cases err) (auto simp: t client_shape_def)
  qed
qed

section \<open>What the chain lets through\<close>

text \<open>The fresh transformers before the last neither call the retriever nor move the clock.\<close>

lemma run_built_world:
  assumes "list_all (\<lambda>b. b = T_Rename n \<or> b = T_Label (NewLabel labels False)) bs"
    and "run_built e w bs f = Ret (w', f', ok, err)"
  shows "w' = w"
  using assms
proof (induction bs arbitrary: f)
  case (Cons b bs)
  have same: "w1 = w" if "basic_Transform e (w, b) f = Ret ((w1, b1), r)" for w1 b1 r
    using Cons.prems(1) that by (auto simp: stateless_def NewLabel_def label_Transform_def Let_def)
  from Cons.prems(2) obtain w1 b1 f1 ok1 err1 where
    st: "basic_Transform e (w, b) f = Ret ((w1, b1), f1, ok1, err1)" by auto
  with Cons same show ?case by (auto split: if_splits)
qed simp

text \<open>
  An accepted family is valid for the clock the chain read, packed, not empty and sorted, and the
  chain is unchanged.
\<close>

lemma client_transforms_accepts:
  assumes "sort_contract metric_less (e_sortMetrics e)"
    and "Transform e w (client_transforms labels renames) f = Ret ((w', t'), f', True, None)"
  shows "\<exists>g. f' = Some g \<and> valid_family (min_ms (w_now w (w_ticks w) - 24 * Hour)) g \<and> None \<notin> set (f_Metric g) \<and>
    f_Metric g \<noteq> [] \<and> sorted_by metric_less (f_Metric g) \<and> t' = client_transforms labels renames \<and>
    w' = w\<lparr>w_ticks := Suc (w_ticks w)\<rparr>"
proof -
  obtain bs where bs: "client_transforms labels renames = Multi bs [Basic T_PackMetrics, Basic T_SortMetrics]"
    using client_transforms_Multi by blast
  let ?mn = "min_ms (w_now w (w_ticks w) - 24 * Hour)" and ?w = "w\<lparr>w_ticks := Suc (w_ticks w)\<rparr>"
  obtain front where front: "list_all (\<lambda>b. b = T_Rename (map_of renames) \<or> b = T_Label (NewLabel labels False)) front"
    "build bs w = (front @ [T_DropInvalid ?mn], ?w)"
    using client_transforms_eq [OF bs] by blast
  from assms(2) obtain f1 f2 f3 where r1: "run_built e ?w front f = Ret (w', f1, True, None)"
    and r2: "dropInvalid_Transform ?mn f1 = Ret (f2, True, None)"
    and r3: "PackMetrics f2 = Ret (f3, True, None)" "SortMetrics (e_sortMetrics e) f3 = Ret (f', True, None)"
    and t': "t' = client_transforms labels renames"
    by (auto simp: bs front(2) run_built_append stateless_def split: if_splits)
  obtain h where h: "f1 = Some h"
    using r2 by (cases f1) (auto simp: dropInvalid_Transform_def Let_def)
  from dropInvalid_Ret [OF r2 [unfolded h]] obtain g2 where g2: "f2 = Some g2" "valid_family ?mn g2" by blast
  let ?ms = "filter (\<lambda>m. m \<noteq> None) (f_Metric g2)"
  from r3 g2 have ms: "f' = Some (g2\<lparr>f_Metric := e_sortMetrics e ?ms\<rparr>)" "\<exists>m. Some m \<in> set (f_Metric g2)"
    by (auto simp: PackMetrics_filter SortMetrics_def simp del: not_None_eq)
  have set: "set (e_sortMetrics e ?ms) = set ?ms" by (rule by_timestamp.sort_contract_set [OF assms(1)])
  have "valid_family ?mn (g2\<lparr>f_Metric := e_sortMetrics e ?ms\<rparr>)"
    using g2(2) set by (auto simp: valid_family_def valid_header_def list_all_iff set_somes)
  moreover have "sorted_by metric_less (e_sortMetrics e ?ms)" by (rule by_timestamp.sort_contract_sorted [OF assms(1)])
  moreover have "e_sortMetrics e ?ms \<noteq> []" using set ms(2) by force
  ultimately show ?thesis using ms set t' run_built_world [OF front(1) r1] by simp
qed

end
