(* ===== verification/Forwarder.thy ===== *)
theory Forwarder
  imports Metrics_Client Client_Chain
begin

text \<open>
  \<^verbatim>\<open>pkg/forwarder/forwarder.go\<close>: the worker of the client, which scrapes, filters and sends,
  its configuration, and the loop that repeats this for ever while other goroutines reconfigure it.
  The retrieval of labels from the server is part of the world a transformer runs in.
\<close>

section \<open>Configuration\<close>

record config =
  fc_From :: "url option"
  fc_ToAuthorize :: "url option"
  fc_ToUpload :: "url option"
  fc_FromToken :: string
  fc_ToToken :: string
  fc_FromTokenFile :: string
  fc_ToTokenFile :: string
  fc_FromCAFile :: string
  fc_TLSCertFile :: string
  fc_TLSKey :: string
  fc_AnonymizeLabels :: "string list"
  fc_AnonymizeSalt :: string
  fc_AnonymizeSaltFile :: string
  fc_Interval :: duration
  fc_LimitBytes :: int
  fc_Rules :: "string list"
  fc_RulesFile :: string
  fc_Transformer :: "transformer option"

text \<open>
  A worker.  \<open>wk_toToken\<close> is the token and endpoint of the rotating round tripper, \<open>wk_fromToken\<close>
  that of the bearer round tripper.
\<close>

record worker =
  wk_fromClient :: metrics_client
  wk_toClient :: metrics_client
  wk_fromToken :: "string option"
  wk_toToken :: "(string \<times> url) option"
  wk_from :: url
  wk_to :: "url option"
  wk_interval :: duration
  wk_transformer :: transformer
  wk_rules :: "string list"
  wk_lastMetrics :: "family option list"

datatype config_err =
    NoSource
  | BadSaltFile string
  | NoSalt
  | BadKeyPair string
  | BadSystemCerts string
  | BadCAFile string
  | BadFromTokenFile string
  | BadToTokenFile string
  | TokenWithoutURL
  | BadRulesFile string

text \<open>The file system, the loading of a key pair and the system's certificates are parameters.\<close>

record files =
  fs_read :: "string \<Rightarrow> string + string"
  fs_keyPair :: "string \<Rightarrow> string \<Rightarrow> string option"
  fs_certPool :: "string option"

text \<open>A value given directly or in a file; the file is read only if the value is empty.\<close>

definition value_or_file :: "files \<Rightarrow> string \<Rightarrow> string \<Rightarrow> string + string" where
  "value_or_file fs v file =
     (if length v = 0 \<and> length file > 0
      then (case fs_read fs file of Inl e \<Rightarrow> Inl e | Inr data \<Rightarrow> Inr (TrimSpace data)) else Inr v)"

definition check_tls :: "files \<Rightarrow> config \<Rightarrow> config_err option" where
  "check_tls fs cfg =
     (if length (fc_FromCAFile cfg) > 0 then
        (case (if fc_TLSCertFile cfg \<noteq> [] \<and> fc_TLSKey cfg \<noteq> [] then fs_keyPair fs (fc_TLSCertFile cfg) (fc_TLSKey cfg)
               else None) of
           Some e \<Rightarrow> Some (BadKeyPair e)
         | None \<Rightarrow>
             (case fs_certPool fs of
                Some e \<Rightarrow> Some (BadSystemCerts e)
              | None \<Rightarrow> (case fs_read fs (fc_FromCAFile cfg) of Inl e \<Rightarrow> Some (BadCAFile e) | Inr data \<Rightarrow> None)))
      else None)"

definition worker_transforms :: "config \<Rightarrow> string \<Rightarrow> string \<Rightarrow> transformer" where
  "worker_transforms cfg salt toToken =
     (let m1 = With (fc_Transformer cfg) (Multi [] []);
          m2 = (if length (fc_AnonymizeLabels cfg) > 0
                then With (Some (Basic (T_Anonymize (NewMetricsAnonymizer salt (fc_AnonymizeLabels cfg) (\<lambda>_. None))))) m1
                else m1)
      in if length toToken > 0 then With (Some (Basic (T_Label (NewLabel [] True)))) m2 else m2)"

definition New :: "files \<Rightarrow> config \<Rightarrow> config_err + worker" where
  "New fs cfg =
     (case fc_From cfg of
        None \<Rightarrow> Inl NoSource
      | Some from \<Rightarrow>
          (let interval = (if fc_Interval cfg = 0 then 4 * Minute + 30 * Second else fc_Interval cfg)
           in (case value_or_file fs (fc_AnonymizeSalt cfg) (fc_AnonymizeSaltFile cfg) of
                 Inl e \<Rightarrow> Inl (BadSaltFile e)
               | Inr salt \<Rightarrow>
                   if length (fc_AnonymizeLabels cfg) \<noteq> 0 \<and> length salt = 0 then Inl NoSalt
                   else (case check_tls fs cfg of
                     Some e \<Rightarrow> Inl e
                   | None \<Rightarrow>
                       (case value_or_file fs (fc_FromToken cfg) (fc_FromTokenFile cfg) of
                          Inl e \<Rightarrow> Inl (BadFromTokenFile e)
                        | Inr fromToken \<Rightarrow>
                            (case value_or_file fs (fc_ToToken cfg) (fc_ToTokenFile cfg) of
                               Inl e \<Rightarrow> Inl (BadToTokenFile e)
                             | Inr toToken \<Rightarrow>
                                 if (length toToken > 0) \<noteq> (fc_ToAuthorize cfg \<noteq> None) then Inl TokenWithoutURL
                                 else (case (if length (fc_RulesFile cfg) > 0
                                             then (case fs_read fs (fc_RulesFile cfg) of Inl e \<Rightarrow> Inl e | Inr d \<Rightarrow> Inr (Some d))
                                             else Inr None) of
                                   Inl e \<Rightarrow> Inl (BadRulesFile e)
                                 | Inr contents \<Rightarrow> Inr
                                     \<lparr>wk_fromClient = \<lparr>cl_maxBytes = fc_LimitBytes cfg, cl_metricsName = ''federate_from''\<rparr>,
                                      wk_toClient = \<lparr>cl_maxBytes = fc_LimitBytes cfg, cl_metricsName = ''federate_to''\<rparr>,
                                      wk_fromToken = (if length fromToken > 0 then Some fromToken else None),
                                      wk_toToken = (case fc_ToAuthorize cfg of None \<Rightarrow> None | Some u \<Rightarrow> Some (toToken, u)),
                                      wk_from = from, wk_to = fc_ToUpload cfg, wk_interval = interval,
                                      wk_transformer = worker_transforms cfg salt toToken,
                                      wk_rules = normalize_rules (with_file (fc_Rules cfg) contents),
                                      wk_lastMetrics = []\<rparr>)))))))"

section \<open>The worker\<close>

text \<open>
  The state of the client: the worker, the world of its transformers, the metrics, the other ends
  of its connections, and the gauges and counters of the package.
\<close>

record 'u client_state =
  fw_worker :: worker
  fw_world :: world
  fw_counts :: metrics_counts
  fw_remote :: 'u
  fw_samples :: int
  fw_filtered :: int
  fw_total :: nat
  fw_errors :: nat

datatype forward_err = FetchFailed fetch_err | TransformFailed terr

text \<open>\<^verbatim>\<open>Reconfigure\<close> keeps the last metrics; with a bad configuration it changes nothing.\<close>

definition Reconfigure :: "files \<Rightarrow> config \<Rightarrow> worker \<Rightarrow> worker \<times> config_err option" where
  "Reconfigure fs cfg w =
     (case New fs cfg of
        Inl e \<Rightarrow> (w, Some e)
      | Inr w' \<Rightarrow> (w'\<lparr>wk_lastMetrics := wk_lastMetrics w\<rparr>, None))"

definition LastMetrics :: "worker \<Rightarrow> family option list" where
  "LastMetrics w = wk_lastMetrics w"

text \<open>
  The query is set on the URL the worker holds: the old one is dropped, then one entry per rule is
  added.
\<close>

definition set_query :: "worker \<Rightarrow> worker" where
  "set_query w = w\<lparr>wk_from := (wk_from w)\<lparr>ur_Query := map (\<lambda>rule. (''match[]'', rule)) (wk_rules w)\<rparr>\<rparr>"

text \<open>\<open>d1\<close> and \<open>d2\<close> are the deadlines of the two requests.\<close>

definition forward ::
  "env \<Rightarrow> 'u metrics_ext \<Rightarrow> deadline \<Rightarrow> deadline \<Rightarrow> 'u client_state \<Rightarrow> ('u client_state \<times> forward_err option) go" where
  "forward e x d1 d2 s =
     (let w = set_query (fw_worker s); s0 = s\<lparr>fw_worker := w\<rparr>
      in (case Retrieve x (wk_fromClient w) d1 (wk_from w) (fw_counts s, fw_remote s) of
            ((m, up), Inl err) \<Rightarrow> Ret (s0\<lparr>fw_counts := m, fw_remote := up\<rparr>, Some (FetchFailed err))
          | ((m, up), Inr families) \<Rightarrow>
              (let s1 = s0\<lparr>fw_counts := m, fw_remote := up\<rparr>; before = MetricsCount families
               in go_bind (Filter (transform_step e) (fw_world s1, wk_transformer w) families)
                    (\<lambda>((world', t'), out, err).
                      let w1 = w\<lparr>wk_transformer := t'\<rparr>;
                          s2 = s1\<lparr>fw_worker := w1, fw_world := world'\<rparr>
                      in (case err of
                            Some te \<Rightarrow> Ret (s2, Some (TransformFailed te))
                          | None \<Rightarrow>
                              (let packed = Pack out; after = MetricsCount packed;
                                   w2 = w1\<lparr>wk_lastMetrics := packed\<rparr>;
                                   s3 = s2\<lparr>fw_worker := w2, fw_samples := int before, fw_filtered := int before - int after\<rparr>
                               in if length packed = 0 then Ret (s3, None)
                                  else (case wk_to w2 of
                                          None \<Rightarrow> Ret (s3, None)
                                        | Some to \<Rightarrow>
                                            (case Send x (wk_toClient w2) d2 to packed (fw_counts s3, fw_remote s3) of
                                               ((m', up'), err') \<Rightarrow>
                                                 Ret (s3\<lparr>fw_counts := m', fw_remote := up'\<rparr>,
                                                      map_option FetchFailed err')))))))))"

section \<open>Run\<close>

text \<open>One turn of the loop and how long it waits afterwards.\<close>

definition run_once ::
  "env \<Rightarrow> 'u metrics_ext \<Rightarrow> deadline \<times> deadline \<Rightarrow> 'u client_state \<Rightarrow> ('u client_state \<times> duration) go" where
  "run_once e x d s =
     (let wait = wk_interval (fw_worker s); s1 = s\<lparr>fw_total := Suc (fw_total s)\<rparr>
      in go_bind (forward e x (fst d) (snd d) s1) (\<lambda>(s2, err).
           (case err of
              None \<Rightarrow> Ret (s2, wait)
            | Some _ \<Rightarrow> Ret (s2\<lparr>fw_errors := Suc (fw_errors s2)\<rparr>, Minute))))"

text \<open>
  The loop: \<open>ds\<close> gives for each turn its deadlines and how its \<^verbatim>\<open>select\<close> ends; the result
  has the waits of the turns and whether the loop ended because the context was cancelled.
\<close>

datatype wake = CtxDone | Elapsed | Woken

fun Run ::
  "env \<Rightarrow> 'u metrics_ext \<Rightarrow> ((deadline \<times> deadline) \<times> wake) list \<Rightarrow> 'u client_state \<Rightarrow>
   ('u client_state \<times> duration list \<times> bool) go" where
  "Run e x [] s = Ret (s, [], False)"
| "Run e x ((d, wk) # ds) s =
     go_bind (run_once e x d s) (\<lambda>(s1, wait).
       (case wk of
          CtxDone \<Rightarrow> Ret (s1, [wait], True)
        | _ \<Rightarrow> go_bind (Run e x ds s1) (\<lambda>(s2, waits, fin). Ret (s2, wait # waits, fin))))"

text \<open>
  The worker shared with other goroutines: turns of the loop and reconfigurations in any order, each
  under the lock.  The files may have changed when they are read again.
\<close>

inductive client_reachable ::
  "env \<Rightarrow> 'u metrics_ext \<Rightarrow> files \<Rightarrow> config \<Rightarrow> 'u client_state \<Rightarrow> bool" for e x fs cfg0 where
  start: "New fs cfg0 = Inr w \<Longrightarrow> fw_worker s = w \<Longrightarrow> client_reachable e x fs cfg0 s"
| turn: "client_reachable e x fs cfg0 s \<Longrightarrow> run_once e x d s = Ret (s', wait) \<Longrightarrow> client_reachable e x fs cfg0 s'"
| reconfigure: "client_reachable e x fs cfg0 s \<Longrightarrow> Reconfigure fs' cfg (fw_worker s) = (w, err) \<Longrightarrow>
    client_reachable e x fs cfg0 (s\<lparr>fw_worker := w\<rparr>)"

section \<open>Lemmas\<close>

subsection \<open>New\<close>

lemma New_InrE:
  assumes "New fs cfg = Inr w"
  obtains src salt fromToken toToken contents where "fc_From cfg = Some src"
    and "fc_AnonymizeLabels cfg \<noteq> [] \<Longrightarrow> salt \<noteq> []"
    and "toToken \<noteq> [] \<longleftrightarrow> fc_ToAuthorize cfg \<noteq> None"
    and "w = \<lparr>wk_fromClient = \<lparr>cl_maxBytes = fc_LimitBytes cfg, cl_metricsName = ''federate_from''\<rparr>,
              wk_toClient = \<lparr>cl_maxBytes = fc_LimitBytes cfg, cl_metricsName = ''federate_to''\<rparr>,
              wk_fromToken = (if length fromToken > 0 then Some fromToken else None),
              wk_toToken = (case fc_ToAuthorize cfg of None \<Rightarrow> None | Some u \<Rightarrow> Some (toToken, u)),
              wk_from = src, wk_to = fc_ToUpload cfg,
              wk_interval = (if fc_Interval cfg = 0 then 4 * Minute + 30 * Second else fc_Interval cfg),
              wk_transformer = worker_transforms cfg salt toToken,
              wk_rules = normalize_rules (with_file (fc_Rules cfg) contents), wk_lastMetrics = []\<rparr>"
proof -
  from assms obtain src where src: "fc_From cfg = Some src" by (auto simp: New_def split: option.splits)
  from assms src obtain salt where salt: "value_or_file fs (fc_AnonymizeSalt cfg) (fc_AnonymizeSaltFile cfg) = Inr salt"
    by (auto simp: New_def Let_def split: sum.splits)
  from assms src salt have labels: "\<not> (length (fc_AnonymizeLabels cfg) \<noteq> 0 \<and> length salt = 0)"
    by (auto simp: New_def Let_def)
  from assms src salt labels have tls: "check_tls fs cfg = None"
    by (auto simp: New_def Let_def split: option.splits if_splits)
  from assms src salt labels tls obtain fromToken where
    fromToken: "value_or_file fs (fc_FromToken cfg) (fc_FromTokenFile cfg) = Inr fromToken"
    by (auto simp: New_def Let_def split: sum.splits if_splits)
  from assms src salt labels tls fromToken obtain toToken where
    toToken: "value_or_file fs (fc_ToToken cfg) (fc_ToTokenFile cfg) = Inr toToken"
    by (auto simp: New_def Let_def split: sum.splits if_splits)
  from assms src salt labels tls fromToken toToken have both: "(length toToken > 0) = (fc_ToAuthorize cfg \<noteq> None)"
    by (auto simp: New_def Let_def split: if_splits)
  from assms src salt labels tls fromToken toToken both obtain contents where
    contents: "(if length (fc_RulesFile cfg) > 0
      then (case fs_read fs (fc_RulesFile cfg) of Inl e \<Rightarrow> Inl e | Inr d \<Rightarrow> Inr (Some d))
      else Inr None) = Inr contents"
    by (auto simp: New_def Let_def split: sum.splits if_splits)
  show thesis
  proof (rule that [of src salt toToken fromToken contents])
    show "fc_AnonymizeLabels cfg \<noteq> [] \<Longrightarrow> salt \<noteq> []" using labels by simp
    show "toToken \<noteq> [] \<longleftrightarrow> fc_ToAuthorize cfg \<noteq> None" using both by simp
  qed (use assms in \<open>simp_all only: New_def Let_def src salt labels tls fromToken toToken both contents
      option.case sum.case if_False simp_thms sum.inject\<close>)
qed

lemma New_ok:
  assumes "New fs cfg = Inr w"
  shows "wk_interval w \<noteq> 0" and "[] \<notin> set (wk_rules w)" and "wk_lastMetrics w = []"
    and "\<And>tok u. wk_toToken w = Some (tok, u) \<Longrightarrow> tok \<noteq> []"
  using assms
  by (auto elim!: New_InrE simp: normalize_rules_exact Minute_def Second_def split: option.splits if_splits)

lemma New_transformer: "New fs cfg = Inr w \<Longrightarrow> \<exists>salt tok. wk_transformer w = worker_transforms cfg salt tok"
  by (elim New_InrE) (simp, blast)

subsection \<open>forward\<close>

text \<open>The ways a turn can end.\<close>

lemma forward_cases:
  assumes "forward e x d1 d2 s = Ret (s', err)"
  obtains (fetch) m up ferr where
      "Retrieve x (wk_fromClient (fw_worker s)) d1 (wk_from (set_query (fw_worker s))) (fw_counts s, fw_remote s) =
         ((m, up), Inl ferr)"
      and "err = Some (FetchFailed ferr)" and "fw_worker s' = set_query (fw_worker s)" and "fw_remote s' = up"
  | (transform) m up families world' t' out te where
      "Retrieve x (wk_fromClient (fw_worker s)) d1 (wk_from (set_query (fw_worker s))) (fw_counts s, fw_remote s) =
         ((m, up), Inr families)"
      and "Filter (transform_step e) (fw_world s, wk_transformer (fw_worker s)) families = Ret ((world', t'), out, Some te)"
      and "err = Some (TransformFailed te)" and "fw_worker s' = (set_query (fw_worker s))\<lparr>wk_transformer := t'\<rparr>"
      and "fw_remote s' = up"
  | (quiet) m up families world' t' out where
      "Retrieve x (wk_fromClient (fw_worker s)) d1 (wk_from (set_query (fw_worker s))) (fw_counts s, fw_remote s) =
         ((m, up), Inr families)"
      and "Filter (transform_step e) (fw_world s, wk_transformer (fw_worker s)) families = Ret ((world', t'), out, None)"
      and "Pack out = [] \<or> wk_to (fw_worker s) = None" and "err = None"
      and "fw_worker s' = (set_query (fw_worker s))\<lparr>wk_transformer := t', wk_lastMetrics := Pack out\<rparr>"
      and "fw_remote s' = up"
  | (send) m up families world' t' out to m' up' serr where
      "Retrieve x (wk_fromClient (fw_worker s)) d1 (wk_from (set_query (fw_worker s))) (fw_counts s, fw_remote s) =
         ((m, up), Inr families)"
      and "Filter (transform_step e) (fw_world s, wk_transformer (fw_worker s)) families = Ret ((world', t'), out, None)"
      and "Pack out \<noteq> []" and "wk_to (fw_worker s) = Some to"
      and "Send x (wk_toClient (fw_worker s)) d2 to (Pack out) (m, up) = ((m', up'), serr)"
      and "err = map_option FetchFailed serr"
      and "fw_worker s' = (set_query (fw_worker s))\<lparr>wk_transformer := t', wk_lastMetrics := Pack out\<rparr>"
      and "fw_remote s' = up'"
proof -
  obtain m up r where ret: "Retrieve x (wk_fromClient (fw_worker s)) d1 (wk_from (set_query (fw_worker s)))
      (fw_counts s, fw_remote s) = ((m, up), r)" by (metis prod.exhaust)
  have same: "wk_fromClient (set_query w) = wk_fromClient w" "wk_transformer (set_query w) = wk_transformer w"
    "wk_to (set_query w) = wk_to w" "wk_toClient (set_query w) = wk_toClient w" for w
    by (simp_all add: set_query_def)
  show thesis
  proof (cases r)
    case (Inl ferr)
    with assms ret show ?thesis by (intro fetch) (auto simp: forward_def Let_def same)
  next
    case (Inr families)
    then obtain world' t' out terr where
      filt: "Filter (transform_step e) (fw_world s, wk_transformer (fw_worker s)) families = Ret ((world', t'), out, terr)"
      using assms ret by (auto simp: forward_def Let_def same)
    show ?thesis
    proof (cases terr)
      case (Some te)
      with assms ret Inr filt show ?thesis by (intro transform) (auto simp: forward_def Let_def same)
    next
      case None
      show ?thesis
      proof (cases "Pack out = [] \<or> wk_to (fw_worker s) = None")
        case True
        with assms ret Inr filt None show ?thesis
          by (intro quiet) (auto simp: forward_def Let_def same split: if_splits)
      next
        case False
        then obtain to where to: "Pack out \<noteq> []" "wk_to (fw_worker s) = Some to" by auto
        obtain m' up' serr where "Send x (wk_toClient (fw_worker s)) d2 to (Pack out) (m, up) = ((m', up'), serr)"
          by (metis prod.exhaust)
        with assms ret Inr filt None to show ?thesis
          by (intro send) (auto simp: forward_def Let_def same)
      qed
    qed
  qed
qed

text \<open>A scrape that was transformed without an error.\<close>

lemma Retrieve_scraped:
  assumes "Retrieve x c d u (m0, up0) = ((m, up), Inr fs)"
    and "Filter (transform_step e) s0 fs = Ret (s1, out, None)" and "families = Pack out"
  shows "\<exists>resp fams s1 out'. fst (me_do x up0 (''GET'', u, [])) = Inr resp \<and> hr_status resp = 200 \<and>
     me_decode x (hr_contentType resp) (LimitReader (hr_body resp) (cl_maxBytes c)) = (fams, None) \<and>
     Filter (transform_step e) s0 (map Some fams @ [Some zero_family]) = Ret (s1, out', None) \<and> families = Pack out'"
  using assms unfolding Retrieve_ok by (auto simp del: Filter.simps)

subsection \<open>The invariant of the worker\<close>

definition worker_ok :: "worker \<Rightarrow> bool" where
  "worker_ok w \<longleftrightarrow>
     list_all (\<lambda>f. \<not> empty_family f) (LastMetrics w) \<and> [] \<notin> set (wk_rules w) \<and> wk_interval w \<noteq> 0 \<and>
     (\<forall>tok u. wk_toToken w = Some (tok, u) \<longrightarrow> tok \<noteq> [])"

lemma worker_ok_New: "New fs cfg = Inr w \<Longrightarrow> worker_ok w"
  using New_ok [of fs cfg w] by (simp add: worker_ok_def LastMetrics_def)

lemma worker_ok_Reconfigure: "Reconfigure fs cfg w = (w', err) \<Longrightarrow> worker_ok w \<Longrightarrow> worker_ok w'"
  using worker_ok_New [of fs cfg]
  by (auto simp: Reconfigure_def worker_ok_def LastMetrics_def split: sum.splits)

lemma set_query_simps [simp]:
  "wk_lastMetrics (set_query w) = wk_lastMetrics w" "wk_rules (set_query w) = wk_rules w"
  "wk_interval (set_query w) = wk_interval w" "wk_toToken (set_query w) = wk_toToken w"
  "wk_transformer (set_query w) = wk_transformer w" "wk_to (set_query w) = wk_to w"
  "wk_toClient (set_query w) = wk_toClient w" "wk_fromClient (set_query w) = wk_fromClient w"
  "wk_from (set_query w) = (wk_from w)\<lparr>ur_Query := map (\<lambda>rule. (''match[]'', rule)) (wk_rules w)\<rparr>"
  by (simp_all add: set_query_def)

lemma worker_ok_packed:
  "worker_ok w \<Longrightarrow> worker_ok ((set_query w)\<lparr>wk_transformer := t, wk_lastMetrics := Pack fs\<rparr>)"
  by (auto simp: worker_ok_def LastMetrics_def Pack_filter list_all_iff)

lemma worker_ok_forward:
  assumes "forward e x d1 d2 s = Ret (s', err)" and "worker_ok (fw_worker s)"
  shows "worker_ok (fw_worker s')"
  using assms(1)
proof (cases rule: forward_cases)
  case fetch
  with assms(2) show ?thesis by (simp add: worker_ok_def LastMetrics_def)
next
  case transform
  with assms(2) show ?thesis by (simp add: worker_ok_def LastMetrics_def)
next
  case quiet
  with assms(2) show ?thesis by (simp add: worker_ok_packed)
next
  case send
  with assms(2) show ?thesis by (simp add: worker_ok_packed)
qed

lemma run_once_forward:
  assumes "run_once e x d s = Ret (s', wait)"
  obtains s1 err where "forward e x (fst d) (snd d) (s\<lparr>fw_total := Suc (fw_total s)\<rparr>) = Ret (s1, err)"
    and "wait = (if err = None then wk_interval (fw_worker s) else Minute)"
    and "s' = (if err = None then s1 else s1\<lparr>fw_errors := Suc (fw_errors s1)\<rparr>)"
proof -
  from assms obtain s1 err where "forward e x (fst d) (snd d) (s\<lparr>fw_total := Suc (fw_total s)\<rparr>) = Ret (s1, err)"
    by (auto simp: run_once_def Let_def)
  with assms that show thesis by (cases err) (simp_all add: run_once_def Let_def)
qed

lemma worker_ok_run_once:
  assumes "run_once e x d s = Ret (s', wait)" and "worker_ok (fw_worker s)"
  shows "worker_ok (fw_worker s')"
  using assms(1)
proof (cases rule: run_once_forward)
  case (1 s1 err)
  then show ?thesis using worker_ok_forward [OF 1(1)] assms(2) by (auto split: if_splits)
qed

subsection \<open>The client does not panic\<close>

lemma Filter_total:
  assumes "I s" and "\<forall>f \<in> set fs. P f"
    and "\<And>s f. I s \<Longrightarrow> P f \<Longrightarrow> \<exists>s' r. step s f = Ret (s', r) \<and> I s'"
  shows "\<exists>s' out err. Filter step s fs = Ret (s', out, err) \<and> I s'"
  using assms(1,2)
proof (induction fs arbitrary: s)
  case (Cons f fs)
  with assms(3) obtain s1 f1 ok err where st: "step s f = Ret (s1, f1, ok, err)" "I s1" by (metis list.set_intros(1) prod.exhaust)
  from Cons.IH [OF st(2)] Cons.prems(2) obtain s2 out err' where "Filter step s1 fs = Ret (s2, out, err')" "I s2" by auto
  with st show ?case by (cases err) auto
qed simp

lemma worker_transforms_shape:
  "fc_Transformer cfg = Some (client_transforms labels renames) \<Longrightarrow> client_shape (worker_transforms cfg salt tok)"
  unfolding client_shape_def
  by (intro exI [of _ labels] exI [of _ renames]
      exI [of _ "(if length (fc_AnonymizeLabels cfg) > 0
          then [T_Anonymize (NewMetricsAnonymizer salt (fc_AnonymizeLabels cfg) (\<lambda>_. None))] else []) @
        (if length tok > 0 then [T_Label (NewLabel [] True)] else [])"])
    (simp add: worker_transforms_def Let_def)

text \<open>Decoders do not produce nil pointers.\<close>

definition decoder_clean :: "'u metrics_ext \<Rightarrow> bool" where
  "decoder_clean x \<longleftrightarrow> (\<forall>ct b. list_all clean (fst (me_decode x ct b)))"

lemma Retrieve_clean:
  assumes "decoder_clean x" and "Retrieve x c d u (m, up) = ((m', up'), Inr families)" and "f \<in> set families"
  shows "\<exists>g. f = Some g \<and> clean g"
proof -
  from assms(2) obtain resp :: http_response and fams where
    dec: "me_decode x (hr_contentType resp) (LimitReader (hr_body resp) (cl_maxBytes c)) = (fams, None)"
    and families: "families = map Some fams @ [Some zero_family]" unfolding Retrieve_ok by blast
  from assms(1) dec have "list_all clean fams" unfolding decoder_clean_def by (metis fst_conv)
  moreover have "clean zero_family" by (simp add: clean_def zero_family_def labels_present_def)
  ultimately show ?thesis using assms(3) families by (auto simp: list_all_iff)
qed

lemma forward_total:
  assumes "sort_contract metric_less (e_sortMetrics e)" and "decoder_clean x"
    and "client_shape (wk_transformer (fw_worker s))"
  shows "\<exists>s' err. forward e x d1 d2 s = Ret (s', err) \<and> client_shape (wk_transformer (fw_worker s')) \<and>
    wk_interval (fw_worker s') = wk_interval (fw_worker s) \<and> fw_total s' = fw_total s \<and> fw_errors s' = fw_errors s"
proof -
  obtain m up r where ret: "Retrieve x (wk_fromClient (fw_worker s)) d1 (wk_from (set_query (fw_worker s)))
      (fw_counts s, fw_remote s) = ((m, up), r)" by (metis prod.exhaust)
  show ?thesis
  proof (cases r)
    case (Inl ferr)
    with ret assms(3) show ?thesis by (simp add: forward_def Let_def del: set_query_simps(9))
  next
    case (Inr families)
    have "\<exists>s' out err. Filter (transform_step e) (fw_world s, wk_transformer (fw_worker s)) families = Ret (s', out, err) \<and>
        client_shape (snd s')"
    proof (rule Filter_total [where P = "\<lambda>f. \<exists>g. f = Some g \<and> clean g"])
      show "\<forall>f \<in> set families. \<exists>g. f = Some g \<and> clean g"
        using Retrieve_clean [OF assms(2) ret [unfolded Inr]] by blast
      show "\<exists>s' r. transform_step e s1 f = Ret (s', r) \<and> client_shape (snd s')"
        if "client_shape (snd s1)" and "\<exists>g. f = Some g \<and> clean g" for s1 f
        using client_shape_total [OF assms(1) that(1), of _ "fst s1"] that(2)
        unfolding transform_step_def by (metis snd_conv)
    qed (use assms(3) in simp)
    then obtain w' t' out terr where
      filt: "Filter (transform_step e) (fw_world s, wk_transformer (fw_worker s)) families = Ret ((w', t'), out, terr)"
      "client_shape t'" by auto
    show ?thesis
      using ret Inr filt
      by (auto simp: forward_def Let_def case_prod_unfold simp del: set_query_simps(9) split: option.split)
  qed
qed

lemma run_once_total:
  assumes "sort_contract metric_less (e_sortMetrics e)" and "decoder_clean x"
    and "client_shape (wk_transformer (fw_worker s))"
  shows "\<exists>s' failed. run_once e x d s = Ret (s', if failed then Minute else wk_interval (fw_worker s)) \<and>
    client_shape (wk_transformer (fw_worker s')) \<and> wk_interval (fw_worker s') = wk_interval (fw_worker s) \<and>
    fw_total s' = Suc (fw_total s) \<and> fw_errors s' = fw_errors s + (if failed then 1 else 0)"
proof -
  obtain s1 err where f: "forward e x (fst d) (snd d) (s\<lparr>fw_total := Suc (fw_total s)\<rparr>) = Ret (s1, err)"
    "client_shape (wk_transformer (fw_worker s1))" "wk_interval (fw_worker s1) = wk_interval (fw_worker s)"
    "fw_total s1 = Suc (fw_total s)" "fw_errors s1 = fw_errors s"
    using forward_total [OF assms(1,2), of "s\<lparr>fw_total := Suc (fw_total s)\<rparr>" "fst d" "snd d"] assms(3) by auto
  show ?thesis
  proof (cases err)
    case None
    with f show ?thesis by (intro exI [of _ s1] exI [of _ False]) (simp add: run_once_def Let_def)
  next
    case (Some fe)
    with f show ?thesis
      by (intro exI [of _ "s1\<lparr>fw_errors := Suc (fw_errors s1)\<rparr>"] exI [of _ True]) (simp add: run_once_def Let_def)
  qed
qed

section \<open>Properties\<close>

text \<open>
  A client for the examples: the source answers with one family of one sample, the server with 200,
  and the remote end keeps the requests.
\<close>

definition example_family :: family where
  "example_family = counter_family ''up'' [Some (counter_metric [] (Some 7))]"

definition example_metrics_ext :: "(string \<times> url \<times> string) list metrics_ext" where
  "example_metrics_ext =
     \<lparr>me_room = (\<lambda>_. 512),
      me_do = (\<lambda>log r. (Inr \<lparr>hr_status = 200, hr_contentType = [], hr_body = buffer []\<rparr>, log @ [r])),
      me_decode = (\<lambda>_ _. ([example_family], None)), me_encode = (\<lambda>f. Inr (family_GetName (Some f))),
      me_compress = (\<lambda>b. b), me_flush = None\<rparr>"

definition example_url :: "string \<Rightarrow> url" where
  "example_url host = \<lparr>ur_Host = host, ur_Path = ''/'', ur_Query = [(''old'', ''x'')]\<rparr>"

definition example_flags :: config where
  "example_flags =
     \<lparr>fc_From = Some (example_url ''prom''), fc_ToAuthorize = None, fc_ToUpload = Some (example_url ''server''),
      fc_FromToken = [], fc_ToToken = [], fc_FromTokenFile = [], fc_ToTokenFile = [], fc_FromCAFile = [],
      fc_TLSCertFile = [], fc_TLSKey = [], fc_AnonymizeLabels = [], fc_AnonymizeSalt = [], fc_AnonymizeSaltFile = [],
      fc_Interval = 0, fc_LimitBytes = 100, fc_Rules = [''a'', []], fc_RulesFile = [],
      fc_Transformer = Some (client_transforms [] [])\<rparr>"

definition example_files :: files where
  "example_files = \<lparr>fs_read = (\<lambda>_. Inl ''missing''), fs_keyPair = (\<lambda>_ _. None), fs_certPool = None\<rparr>"

definition example_worker :: worker where
  "example_worker =
     \<lparr>wk_fromClient = \<lparr>cl_maxBytes = 100, cl_metricsName = ''federate_from''\<rparr>,
      wk_toClient = \<lparr>cl_maxBytes = 100, cl_metricsName = ''federate_to''\<rparr>, wk_fromToken = None, wk_toToken = None,
      wk_from = example_url ''prom'', wk_to = Some (example_url ''server''), wk_interval = 4 * Minute + 30 * Second,
      wk_transformer = Multi [] [client_transforms [] []], wk_rules = [''a''], wk_lastMetrics = []\<rparr>"

definition example_running :: "(string \<times> url \<times> string) list client_state" where
  "example_running =
     \<lparr>fw_worker = example_worker, fw_world = still_world 0,
      fw_counts = \<lparr>mt_requests = (\<lambda>_. 0), mt_retrieve = (\<lambda>_. 0), mt_send = (\<lambda>_. 0)\<rparr>,
      fw_remote = [], fw_samples = 0, fw_filtered = 0, fw_total = 0, fw_errors = 0\<rparr>"

lemma example_New: "New example_files example_flags = Inr example_worker"
  by (simp add: New_def example_flags_def example_worker_def value_or_file_def check_tls_def worker_transforms_def
      normalize_rules_exact with_file_def trim_examples Let_def)

lemma example_transform:
  "Transform example_env (still_world 0) (Multi [] [client_transforms [] []]) (Some example_family) =
     Ret (((still_world 0)\<lparr>w_ticks := Suc 0\<rparr>, Multi [] [client_transforms [] []]), Some example_family, True, None)"
  by (simp add: client_transforms_def Let_def read_now_def still_world_def stateless_def example_family_def example_defs
      dropInvalid_Transform_def scrub_metric_def keep_sample_def min_ms_def PackMetrics_filter SortMetrics_def
      example_env_def wrap64_def Unix_def Hour_def Minute_def Second_def)

lemma example_transform_zero:
  "Transform example_env ((still_world 0)\<lparr>w_ticks := Suc 0\<rparr>) (Multi [] [client_transforms [] []]) (Some zero_family) =
     Ret (((still_world 0)\<lparr>w_ticks := 2\<rparr>, Multi [] [client_transforms [] []]), Some zero_family, False, None)"
  by (simp add: client_transforms_def Let_def read_now_def still_world_def stateless_def zero_family_def
      dropInvalid_Transform_def)

lemma example_forward:
  "\<exists>s'. forward example_env example_metrics_ext in_time in_time (example_running\<lparr>fw_total := n\<rparr>) = Ret (s', None) \<and>
     LastMetrics (fw_worker s') = [Some example_family] \<and> fw_total s' = n \<and> fw_errors s' = 0"
proof -
  have retrieve: "\<exists>m. Retrieve example_metrics_ext c in_time u (fw_counts example_running, []) =
      ((m, [(''GET'', u, [])]), Inr [Some example_family, Some zero_family])" for c u
    unfolding Retrieve_ok by (simp add: example_metrics_ext_def in_time_def)
  have filt: "Filter (transform_step example_env) (still_world 0, Multi [] [client_transforms [] []])
      [Some example_family, Some zero_family] =
      Ret (((still_world 0)\<lparr>w_ticks := 2\<rparr>, Multi [] [client_transforms [] []]), [Some example_family, None], None)"
    by (simp add: transform_step_def example_transform example_transform_zero del: Transform.simps go_bind_eq_Ret)
  have pack: "Pack [Some example_family, None] = [Some example_family]"
    by (simp add: Pack_filter empty_family_def example_family_def counter_family_def)
  have send: "\<exists>m' log'. Send example_metrics_ext c in_time u [Some example_family] (m, log) = ((m', log'), None)" for c u m log
    by (simp add: Send_def Write_def example_metrics_ext_def withCancel_def in_time_def Send_fn_def Let_def status_defs)
  obtain m where m: "Retrieve example_metrics_ext (wk_fromClient example_worker) in_time (wk_from (set_query example_worker))
      (fw_counts example_running, []) =
      ((m, [(''GET'', wk_from (set_query example_worker), [])]), Inr [Some example_family, Some zero_family])"
    using retrieve by blast
  obtain m' log' where "Send example_metrics_ext (wk_toClient example_worker) in_time (example_url ''server'')
      [Some example_family] (m, [(''GET'', wk_from (set_query example_worker), [])]) = ((m', log'), None)"
    using send by blast
  moreover have "fw_worker example_running = example_worker" "fw_remote example_running = []"
    "fw_world example_running = still_world 0" "wk_transformer example_worker = Multi [] [client_transforms [] []]"
    "wk_to example_worker = Some (example_url ''server'')" "fw_errors example_running = 0"
    by (simp_all add: example_running_def example_worker_def)
  ultimately show ?thesis
    using m filt pack by (simp add: forward_def Let_def LastMetrics_def del: set_query_simps(9) Filter.simps go_bind_eq_Ret)
qed





text \<open>
  C9: one turn of the client.  It makes one scrape, whose query is exactly the match rules whatever
  the query was before; it posts at most once, to the configured address, and what it posts is the
  compressed encoding of the families it shows afterwards, of which there is at least one.  If the
  turn reports success, the scrape was answered with 200 and the families it shows are what the
  transformers accepted of the families scraped; and they were posted and answered with 200, or
  there was nothing or nowhere to send.
\<close>

theorem forward_requests:
  assumes "forward e x d1 d2 s = Ret (s', err)"
  defines "w \<equiv> fw_worker s" and "families \<equiv> LastMetrics (fw_worker s')"
  defines "get \<equiv> me_do x (fw_remote s) (''GET'', (wk_from w)\<lparr>ur_Query := map (\<lambda>rule. (''match[]'', rule)) (wk_rules w)\<rparr>, [])"
  shows "(fw_remote s' = snd get \<and> (err = None \<longrightarrow> families = [] \<or> wk_to w = None) \<or>
     (\<exists>to data. wk_to w = Some to \<and> families \<noteq> [] \<and> Write x families = Inr data \<and>
        fw_remote s' = snd (me_do x (snd get) (''POST'', to, data)) \<and>
        (err = None \<longrightarrow> (\<exists>resp. fst (me_do x (snd get) (''POST'', to, data)) = Inr resp \<and> hr_status resp = 200)))) \<and>
    (err = None \<longrightarrow> (\<exists>resp fams s1 out. fst get = Inr resp \<and> hr_status resp = 200 \<and>
       me_decode x (hr_contentType resp) (LimitReader (hr_body resp) (cl_maxBytes (wk_fromClient w))) = (fams, None) \<and>
       Filter (transform_step e) (fw_world s, wk_transformer w) (map Some fams @ [Some zero_family]) = Ret (s1, out, None) \<and>
       families = Pack out))"
proof -
  have remote: "snd get = up"
    if "Retrieve x (wk_fromClient w) d1 (wk_from (set_query w)) (fw_counts s, fw_remote s) = ((m, up), r)" for m up r
    using Retrieve_remote [of x "wk_fromClient w" d1 "wk_from (set_query w)" "fw_counts s" "fw_remote s" m up] that
    by (simp add: get_def)
  have shown: "families = Pack out" if "fw_worker s' = (set_query w)\<lparr>wk_transformer := t, wk_lastMetrics := Pack out\<rparr>" for t out
    using that by (simp add: families_def LastMetrics_def)
  have get: "get = me_do x (fw_remote s) (''GET'', wk_from (set_query w), [])" by (simp add: get_def)
  note scraped = Retrieve_scraped [of x "wk_fromClient w" d1 "wk_from (set_query w)" "fw_counts s" "fw_remote s", folded get]
  from assms(1) show ?thesis
  proof (cases rule: forward_cases)
    case (fetch m up ferr)
    with remote [folded w_def] show ?thesis by (simp add: w_def)
  next
    case (transform m up fs world' t' out te)
    with remote [folded w_def] show ?thesis by (simp add: w_def)
  next
    case (quiet m up fs world' t' out)
    note quiet' = quiet [folded w_def]
    have "fw_remote s' = snd get \<and> (err = None \<longrightarrow> families = [] \<or> wk_to w = None)"
      using remote [OF quiet'(1)] quiet'(3,6) shown [OF quiet'(5)] by simp
    then show ?thesis by (rule conjI [OF disjI1]) (rule impI, rule scraped [OF quiet'(1,2) shown [OF quiet'(5)]])
  next
    case (send m up fs world' t' out to m' up' serr)
    note send' = send [folded w_def]
    note facts = remote [OF send'(1)] send'(3,4,6,8) shown [OF send'(7)]
    from send(5) show ?thesis
    proof (cases rule: Send_remote)
      case (unwritten e')
      then have "fw_remote s' = snd get" and "err \<noteq> None" using facts by simp_all
      then show ?thesis by (simp del: not_None_eq)
    next
      case (posted data)
      then have "\<exists>to data. wk_to w = Some to \<and> families \<noteq> [] \<and> Write x families = Inr data \<and>
          fw_remote s' = snd (me_do x (snd get) (''POST'', to, data)) \<and>
          (err = None \<longrightarrow> (\<exists>resp. fst (me_do x (snd get) (''POST'', to, data)) = Inr resp \<and> hr_status resp = 200))"
        using facts by simp
      then show ?thesis by (rule conjI [OF disjI2]) (rule impI, rule scraped [OF send'(1,2) shown [OF send'(7)]])
    qed
  qed
qed

theorem forward_requests_witness:
  "\<exists>s' data. forward example_env example_metrics_ext in_time in_time example_running = Ret (s', None) \<and>
     LastMetrics (fw_worker s') = [Some example_family] \<and>
     fw_remote s' = [(''GET'', (example_url ''prom'')\<lparr>ur_Query := [(''match[]'', ''a'')]\<rparr>, []), (''POST'', example_url ''server'', data)]"
proof -
  have "example_running\<lparr>fw_total := 0\<rparr> = example_running" by (simp add: example_running_def)
  then obtain s' where s': "forward example_env example_metrics_ext in_time in_time example_running = Ret (s', None)"
    "LastMetrics (fw_worker s') = [Some example_family]" using example_forward [of 0] by auto
  have "snd (me_do example_metrics_ext log r) = log @ [r]" for log r by (simp add: example_metrics_ext_def)
  with forward_requests [OF s'(1)] s' show ?thesis
    by (auto simp: example_running_def example_worker_def)
qed

end
