(* ===== verification/Telemeter_Server.thy ===== *)
theory Telemeter_Server
  imports Upload Receive Jwt Response_Cache Client_Cert Options
begin

text \<open>
  \<^verbatim>\<open>cmd/telemeter-server/main.go\<close> as a whole: how \<^verbatim>\<open>Run\<close> turns options into routes,
  and the routes that carry data on the state they share.
\<close>

section \<open>Configuration\<close>

record server_options =
  so_LabelFlag :: "string list"
  so_RequiredLabelFlag :: "string list"
  so_AuthorizeEndpoint :: string
  so_TLSCertificatePath :: string
  so_TLSKeyPath :: string
  so_InternalTLSCertificatePath :: string
  so_InternalTLSKeyPath :: string
  so_SharedKey :: string
  so_Whitelist :: "string list"
  so_WhitelistFile :: string
  so_ElideLabels :: "string list"
  so_clusterIDKey :: string
  so_TokenExpireSeconds :: int
  so_Ratelimit :: duration
  so_LimitBytes :: int
  so_LimitReceiveBytes :: int
  so_ForwardURL :: string
  so_TenantID :: string
  so_TenantKey :: string
  so_Memcacheds :: "string list"

text \<open>
  Parameters: reading a file, \<^verbatim>\<open>url.Parse\<close> (the URL in text form), the parsers of
  \<^verbatim>\<open>loadPrivateKey\<close>, \<^verbatim>\<open>Public\<close> of a key, the key generator, the PromQL parser, and the
  JSON decoder of the certificate configuration.
\<close>

record ('k, 'p) server_ext =
  sx_read :: "string \<Rightarrow> string + string"
  sx_parseURL :: "string \<Rightarrow> string + string"
  sx_pem :: "string \<Rightarrow> string option"
  sx_pkcs1 :: "string \<Rightarrow> string + 'k private_key"
  sx_pkcs8 :: "string \<Rightarrow> string + 'k private_key"
  sx_ec :: "string \<Rightarrow> string + 'k private_key"
  sx_public :: "'k private_key \<Rightarrow> 'p"
  sx_generate :: "string + 'k private_key"
  sx_parseRule :: "string \<Rightarrow> string + matcher list"

datatype server_err =
    BadLabelFlag string
  | BadRequiredLabel string
  | BadAuthorizeURL string
  | TLSPair
  | InternalTLSPair
  | SharedKeyUnreadable string
  | SharedKeyUnparsable "string \<times> string \<times> string"
  | SharedKeyType
  | KeyGeneration string
  | WhitelistUnreadable string
  | BadWhitelist string
  | BadForwardURL string

record ('k, 'p) telemeter_config =
  tc_labels :: "(string \<times> string) list"
  tc_required :: "(string \<times> string) list"
  tc_authorizeURL :: "string option"
  tc_privateKey :: "'k private_key"
  tc_publicKey :: 'p
  tc_whitelist :: "matcher list list"
  tc_forwardURL :: string
  tc_receiver :: receiver

definition parse_authorize :: "('k, 'p) server_ext \<Rightarrow> server_options \<Rightarrow> server_err + string option" where
  "parse_authorize x op =
     (if length (so_AuthorizeEndpoint op) > 0
      then (case sx_parseURL x (so_AuthorizeEndpoint op) of Inl e \<Rightarrow> Inl (BadAuthorizeURL e) | Inr u \<Rightarrow> Inr (Some u))
      else Inr None)"

definition check_pairs :: "server_options \<Rightarrow> server_err option" where
  "check_pairs op =
     (if (length (so_TLSCertificatePath op) = 0) \<noteq> (length (so_TLSKeyPath op) = 0) then Some TLSPair
      else if (length (so_InternalTLSCertificatePath op) = 0) \<noteq> (length (so_InternalTLSKeyPath op) = 0)
           then Some InternalTLSPair
      else None)"

definition shared_key :: "('k, 'p) server_ext \<Rightarrow> server_options \<Rightarrow> server_err + 'k private_key \<times> 'p" where
  "shared_key x op =
     (if length (so_SharedKey op) > 0 then
        (case sx_read x (so_SharedKey op) of
           Inl e \<Rightarrow> Inl (SharedKeyUnreadable e)
         | Inr data \<Rightarrow>
             (case loadPrivateKey (sx_pem x) (sx_pkcs1 x) (sx_pkcs8 x) (sx_ec x) data of
                Inl es \<Rightarrow> Inl (SharedKeyUnparsable es)
              | Inr key \<Rightarrow>
                  (case key of
                     ECDSA c k \<Rightarrow> Inr (key, sx_public x key)
                   | RSA k \<Rightarrow> Inr (key, sx_public x key)
                   | OtherKey n \<Rightarrow> Inl SharedKeyType)))
      else (case sx_generate x of Inl e \<Rightarrow> Inl (KeyGeneration e) | Inr key \<Rightarrow> Inr (key, sx_public x key)))"

definition whitelist_rules :: "('k, 'p) server_ext \<Rightarrow> server_options \<Rightarrow> server_err + string list" where
  "whitelist_rules x op =
     (case (if length (so_WhitelistFile op) > 0
            then (case sx_read x (so_WhitelistFile op) of Inl e \<Rightarrow> Inl e | Inr d \<Rightarrow> Inr (Some d))
            else Inr None) of
        Inl e \<Rightarrow> Inl (WhitelistUnreadable e)
      | Inr contents \<Rightarrow> Inr (normalize_rules (with_file (so_Whitelist op) contents)))"

text \<open>
  \<^verbatim>\<open>Run\<close> up to the point where it serves.  An error of \<^verbatim>\<open>receive.NewHandler\<close> is only
  logged; the calls on the nil receiver that follow then panic.
\<close>

definition server_Run :: "('k, 'p) server_ext \<Rightarrow> server_options \<Rightarrow> (server_err + ('k, 'p) telemeter_config) go" where
  "server_Run x op =
     (case label_flags [] (so_LabelFlag op) of
        Inl flag \<Rightarrow> Ret (Inl (BadLabelFlag flag))
      | Inr labels \<Rightarrow>
     (case label_flags [] (so_RequiredLabelFlag op) of
        Inl flag \<Rightarrow> Ret (Inl (BadRequiredLabel flag))
      | Inr required \<Rightarrow>
     (case parse_authorize x op of
        Inl e \<Rightarrow> Ret (Inl e)
      | Inr authorizeURL \<Rightarrow>
     (case check_pairs op of
        Some e \<Rightarrow> Ret (Inl e)
      | None \<Rightarrow>
     (case shared_key x op of
        Inl e \<Rightarrow> Ret (Inl e)
      | Inr (privateKey, publicKey) \<Rightarrow>
     (case whitelist_rules x op of
        Inl e \<Rightarrow> Ret (Inl e)
      | Inr rules \<Rightarrow>
     (case NewWhitelist (sx_parseRule x) rules of
        Inl e \<Rightarrow> Ret (Inl (BadWhitelist e))
      | Inr whitelister \<Rightarrow>
     (case sx_parseURL x (so_ForwardURL op) of
        Inl e \<Rightarrow> Ret (Inl (BadForwardURL e))
      | Inr forwardURL \<Rightarrow>
     (case receive_NewHandler (sx_parseRule x) (so_ForwardURL op) rules [] [] of
        Inl e \<Rightarrow> Panic NilDeref
      | Inr rcv \<Rightarrow>
          Ret (Inr \<lparr>tc_labels = labels, tc_required = required, tc_authorizeURL = authorizeURL,
                    tc_privateKey = privateKey, tc_publicKey = publicKey, tc_whitelist = whitelister,
                    tc_forwardURL = forwardURL, tc_receiver = rcv\<rparr>))))))))))"

section \<open>The routes\<close>

text \<open>
  The outside world of the routes: the JOSE library, the tollbooth codec, the authorization endpoint
  (\<^verbatim>\<open>authorizeClient.Do\<close>), the JSON decoder for token fields, the worlds of the two write
  paths and the limiters.
\<close>

record ('k, 'p, 't, 'l, 'c, 'a, 'f) world_ext =
  wx_jose :: "('k, 'p, 't) jose"
  wx_codec :: tollbooth_codec
  wx_endpoint :: "'a endpoint"
  wx_unmarshal :: "string \<Rightarrow> string + (string \<times> string) list"
  wx_upload :: "'f ext"
  wx_receive :: "'f receive_ext"
  wx_newLimiter :: "duration \<Rightarrow> 'l"
  wx_allowN :: "'l \<Rightarrow> time \<Rightarrow> bool \<times> 'l"
  wx_cache :: "('c, 'a) cache_ext"

text \<open>
  The state the routes share: the limiters, the v1 state with the clock and the upstream that is
  forwarded to, the v2 state, and the cache with the authorization service behind it.
\<close>

record ('l, 'c, 'a, 'f) telemeter =
  tm_limits :: "'l ratelimitStore"
  tm_server :: "'f server"
  tm_receive :: "'f receive_state"
  tm_cache :: "('c, 'a) cache_state"

definition tm_now :: "('l, 'c, 'a, 'f) telemeter \<Rightarrow> time \<times> ('l, 'c, 'a, 'f) telemeter" where
  "tm_now s = (let (t, w) = read_now (sv_world (tm_server s)) in (t, s\<lparr>tm_server := (tm_server s)\<lparr>sv_world := w\<rparr>\<rparr>))"

text \<open>The authorizers.\<close>

definition issuer :: string where "issuer = ''telemeter.selfsigned''"
definition audience :: string where "audience = ''telemeter-client''"

definition jwtAuthorizer :: "('k, 'p) telemeter_config \<Rightarrow> 'p clientAuthorizer" where
  "jwtAuthorizer cfg = \<lparr>ca_iss = issuer, ca_keys = [tc_publicKey cfg], ca_auds = [audience]\<rparr>"

definition clusterAuth ::
  "tollbooth_codec \<Rightarrow> 'a endpoint \<Rightarrow> ('k, 'p) telemeter_config \<Rightarrow> 'a \<Rightarrow> string \<Rightarrow> string \<Rightarrow> (auth_err + string) \<times> 'a" where
  "clusterAuth cd ep cfg u token cluster =
     (case tc_authorizeURL cfg of
        None \<Rightarrow> (AuthorizeFn token cluster, u)
      | Some url \<Rightarrow> AuthorizeCluster cd ep u token cluster)"

definition authorizer ::
  "tollbooth_codec \<Rightarrow> 'a endpoint \<Rightarrow> server_options \<Rightarrow> ('k, 'p) telemeter_config \<Rightarrow> ('a, 'k) authorizeClusterHandler" where
  "authorizer cd ep op cfg =
     \<lparr>ah_clusterIDKey = so_clusterIDKey op, ah_labels = tc_required cfg, ah_expireInSeconds = so_TokenExpireSeconds op,
      ah_iss = issuer, ah_privateKey = tc_privateKey cfg, ah_clusterAuth = clusterAuth cd ep cfg\<rparr>"

text \<open>
  The endpoint of v2: the same service, behind the cache if memcached servers are configured.  The
  text of a cache error only reaches the log.
\<close>

fun cache_err_text :: "cache_err \<Rightarrow> string" where
  "cache_err_text (KeyErr e) = ''failed to generate key from request''"
| "cache_err_text (GetErr e) = ''failed to retrieve value from cache: '' @ e"
| "cache_err_text (ReadRespErr e) = ''failed to read response from cache: '' @ e"
| "cache_err_text (NextErr e) = e"

definition v2_endpoint :: "bool \<Rightarrow> 'a endpoint \<Rightarrow> ('c, 'a) cache_ext \<Rightarrow> ('c, 'a) cache_state endpoint" where
  "v2_endpoint cached ep cx =
     \<lparr>ep_room = ep_room ep, ep_newRequest = ep_newRequest ep,
      ep_do = (\<lambda>s token.
        if cached then
          (case cache_RoundTrip cx s (buffer token) of
             (s', Inl e) \<Rightarrow> (Inl (cache_err_text e), s')
           | (s', Inr resp) \<Rightarrow> (Inr resp, s'))
        else (case ep_do ep (cs_upstream s) token of (res, u) \<Rightarrow> (res, s\<lparr>cs_upstream := u\<rparr>)))\<rparr>"

definition authorize_handler ::
  "('k, 'p, 't, 'l, 'c, 'a, 'f) world_ext \<Rightarrow> server_options \<Rightarrow> ('k, 'p) telemeter_config \<Rightarrow> int \<Rightarrow>
   ('l, 'c, 'a, 'f) telemeter handler" where
  "authorize_handler x op cfg uid = (\<lambda>s r.
     let (now, s1) = tm_now s
     in go_bind (authorize_ServeHTTP (wx_jose x) (authorizer (wx_codec x) (wx_endpoint x) op cfg) now uid (cs_upstream (tm_cache s1)) r)
          (\<lambda>(u, resp). Ret (s1\<lparr>tm_cache := (tm_cache s1)\<lparr>cs_upstream := u\<rparr>\<rparr>, resp)))"

definition upload_handler ::
  "('k, 'p, 't, 'l, 'c, 'a, 'f) world_ext \<Rightarrow> server_options \<Rightarrow> ('k, 'p) telemeter_config \<Rightarrow>
   ('l, 'c, 'a, 'f) telemeter handler" where
  "upload_handler x op cfg = (\<lambda>s r.
     let (now, s1) = tm_now s
     in go_bind (NewAuthorizeClientHandler (AuthorizeClient (wx_jose x) (jwtAuthorizer cfg) now)
            (upload_route (wx_upload x) (wx_newLimiter x) (wx_allowN x) (so_clusterIDKey op) (so_Ratelimit op)
               (so_LimitBytes op) (tc_forwardURL cfg) (so_TenantID op)) (tm_limits s1, tm_server s1) r)
          (\<lambda>((limits, sv), resp). Ret (s1\<lparr>tm_limits := limits, tm_server := sv\<rparr>, resp)))"

definition receive_handler ::
  "('k, 'p, 't, 'l, 'c, 'a, 'f) world_ext \<Rightarrow> server_options \<Rightarrow> ('k, 'p) telemeter_config \<Rightarrow>
   ('l, 'c, 'a, 'f) telemeter handler" where
  "receive_handler x op cfg = (\<lambda>s r.
     go_bind (NewHandler (map_option (\<lambda>u. v2_endpoint (length (so_Memcacheds op) > 0) (wx_endpoint x) (wx_cache x)) (tc_authorizeURL cfg))
            (wx_unmarshal x) (so_TenantKey op)
            (receive_route (wx_receive x) (tc_receiver cfg) (so_LimitReceiveBytes op) [so_clusterIDKey op])
            (tm_cache s, (tm_receive s)\<lparr>rc_upstream := sv_upstream (tm_server s)\<rparr>) r)
       (\<lambda>((cache, rcv), resp).
          Ret (s\<lparr>tm_cache := cache, tm_receive := rcv, tm_server := (tm_server s)\<lparr>sv_upstream := rc_upstream rcv\<rparr>\<rparr>, resp)))"

text \<open>
  The external router.  \<open>other\<close> answers everything else: the health checks, the index, and the
  answers of the router to unknown paths and methods.
\<close>

definition external ::
  "('k, 'p, 't, 'l, 'c, 'a, 'f) world_ext \<Rightarrow> server_options \<Rightarrow> ('k, 'p) telemeter_config \<Rightarrow>
   (string \<Rightarrow> request \<Rightarrow> response) \<Rightarrow> int \<Rightarrow> string \<Rightarrow> ('l, 'c, 'a, 'f) telemeter handler" where
  "external x op cfg other uid path = (\<lambda>s r.
     if path = ''/authorize'' \<and> rq_method r = ''POST'' then authorize_handler x op cfg uid s r
     else if path = ''/upload'' \<and> rq_method r = ''POST'' then upload_handler x op cfg s r
     else if path = ''/metrics/v1/receive'' then receive_handler x op cfg s r
     else Ret (s, other path r))"

end
