(* ===== verification/Rhelemeter.thy ===== *)
theory Rhelemeter
  imports Telemeter_Server
begin

text \<open>
  \<^verbatim>\<open>cmd/rhelemeter-server/main.go\<close>: the remote-write proxy for RHEL hosts.  It identifies
  its clients either by the headers of a proxy (\<open>Client_Cert\<close>) or by their certificate in the TLS
  handshake, which crypto/tls checks before a request is served.
\<close>

section \<open>Configuration\<close>

record rhelemeter_options =
  ro_LabelFlag :: "string list"
  ro_RequiredLabelFlag :: "string list"
  ro_TLSKeyPath :: string
  ro_TLSCertificatePath :: string
  ro_TLSCACertificatePath :: string
  ro_ClientInfoFromRequestConfigFile :: string
  ro_ClientInfoSubjectLabel :: string
  ro_Whitelist :: "string list"
  ro_ElideLabels :: "string list"
  ro_LimitReceiveBytes :: int
  ro_ForwardURL :: string

datatype rhelemeter_err = RBadLabel string | RBadRequiredLabel string | RUnreadable string | RUnmarshal string | RInvalid string

definition client_cert_config ::
  "('k, 'p) server_ext \<Rightarrow> (string \<Rightarrow> string + ClientCertConfig) \<Rightarrow> string \<Rightarrow> rhelemeter_err + ClientCertConfig option" where
  "client_cert_config x unmarshal file =
     (if file \<noteq> [] then
        (case sx_read x file of
           Inl e \<Rightarrow> Inl (RUnreadable e)
         | Inr b \<Rightarrow>
             (case unmarshal b of
                Inl e \<Rightarrow> Inl (RUnmarshal e)
              | Inr conf \<Rightarrow> (case ClientCertConfig_Validate conf of Some e \<Rightarrow> Inl (RInvalid e) | None \<Rightarrow> Inr (Some conf))))
      else Inr None)"

text \<open>
  \<^verbatim>\<open>Run\<close> up to the point where it serves.  Nothing has looked at the rules before
  \<^verbatim>\<open>receive.NewHandler\<close> does; its error is only logged, and the calls on the nil receiver that
  follow panic.
\<close>

definition rhelemeter_Run ::
  "('k, 'p) server_ext \<Rightarrow> (string \<Rightarrow> string + ClientCertConfig) \<Rightarrow> rhelemeter_options \<Rightarrow>
   (rhelemeter_err + receiver \<times> ClientCertConfig option) go" where
  "rhelemeter_Run x unmarshal op =
     (case label_flags [] (ro_LabelFlag op) of
        Inl flag \<Rightarrow> Ret (Inl (RBadLabel flag))
      | Inr labels \<Rightarrow>
     (case label_flags [] (ro_RequiredLabelFlag op) of
        Inl flag \<Rightarrow> Ret (Inl (RBadRequiredLabel flag))
      | Inr required \<Rightarrow>
     (case client_cert_config x unmarshal (ro_ClientInfoFromRequestConfigFile op) of
        Inl e \<Rightarrow> Ret (Inl e)
      | Inr conf \<Rightarrow>
     (case receive_NewHandler (sx_parseRule x) (ro_ForwardURL op) (ro_Whitelist op) (ro_ElideLabels op)
             (labelValidator (ro_ClientInfoSubjectLabel op)) of
        Inl e \<Rightarrow> Panic NilDeref
      | Inr rcv \<Rightarrow> Ret (Inr (rcv, conf))))))"

section \<open>The listener\<close>

text \<open>
  The TLS configuration: the file of certificate authorities, if one is given, and whether a client
  has to show a certificate.  \<open>keyPair\<close> is \<^verbatim>\<open>tls.LoadX509KeyPair\<close> (an error text or none).
\<close>

datatype client_auth = NoClientCert | RequireAndVerifyClientCert

record tls_config =
  tl_ClientCAs :: "string option"
  tl_ClientAuth :: client_auth

datatype ext_listener = PlainListener | TLSListener tls_config

definition external_listener ::
  "('k, 'p) server_ext \<Rightarrow> (string \<Rightarrow> string \<Rightarrow> string option) \<Rightarrow> rhelemeter_options \<Rightarrow> bool \<Rightarrow> string + ext_listener" where
  "external_listener x keyPair op hasClientCertConfig =
     (if length (ro_TLSCertificatePath op) > 0 then
        (case keyPair (ro_TLSCertificatePath op) (ro_TLSKeyPath op) of
           Some e \<Rightarrow> Inl e
         | None \<Rightarrow>
             (case (if ro_TLSCACertificatePath op \<noteq> []
                    then (case sx_read x (ro_TLSCACertificatePath op) of Inl e \<Rightarrow> Inl e | Inr pem \<Rightarrow> Inr (Some pem))
                    else Inr None) of
                Inl e \<Rightarrow> Inl e
              | Inr cas \<Rightarrow>
                  Inr (TLSListener \<lparr>tl_ClientCAs = cas,
                    tl_ClientAuth = (if \<not> hasClientCertConfig then RequireAndVerifyClientCert else NoClientCert)\<rparr>)))
      else Inr PlainListener)"

text \<open>
  What crypto/tls does with the configuration: \<open>verifies cas c\<close> says that the certificate \<open>c\<close> of
  the peer verifies against the authorities, those of the system if no file is given.
\<close>

fun handshake :: "(string option \<Rightarrow> 'crt \<Rightarrow> bool) \<Rightarrow> ext_listener \<Rightarrow> 'crt option \<Rightarrow> bool" where
  "handshake verifies PlainListener peer = True"
| "handshake verifies (TLSListener t) peer =
     (case tl_ClientAuth t of
        NoClientCert \<Rightarrow> True
      | RequireAndVerifyClientCert \<Rightarrow> (case peer of None \<Rightarrow> False | Some c \<Rightarrow> verifies (tl_ClientCAs t) c))"

section \<open>The external server\<close>

text \<open>
  The middlewares of the router are in front of every route.  \<open>other\<close> answers the routes that carry
  no data.
\<close>

definition rhelemeter_external ::
  "'u receive_ext \<Rightarrow> receiver \<Rightarrow> ClientCertConfig option \<Rightarrow> int \<Rightarrow> (string \<Rightarrow> request \<Rightarrow> response) \<Rightarrow> string \<Rightarrow>
   'u receive_state handler" where
  "rhelemeter_external x h conf limitBytes other path =
     (let routes = (\<lambda>s r. if path = ''/metrics/v1/receive'' then receive_route x h limitBytes [] s r else Ret (s, other path r))
      in (case conf of None \<Rightarrow> routes | Some config \<Rightarrow> ClientCertInfoAsHeaders config routes))"

text \<open>
  A request over a connection of a peer: no answer if the handshake fails.  The context of a request
  starts without values.
\<close>

definition no_values :: "request \<Rightarrow> request" where
  "no_values r = r\<lparr>rq_values := (\<lambda>_. None)\<rparr>"

definition rhelemeter_serve ::
  "'u receive_ext \<Rightarrow> (string option \<Rightarrow> 'crt \<Rightarrow> bool) \<Rightarrow> ext_listener \<Rightarrow> receiver \<Rightarrow> ClientCertConfig option \<Rightarrow> int \<Rightarrow>
   (string \<Rightarrow> request \<Rightarrow> response) \<Rightarrow> 'crt option \<Rightarrow> string \<Rightarrow> 'u receive_state \<Rightarrow> request \<Rightarrow>
   ('u receive_state \<times> response option) go" where
  "rhelemeter_serve x verifies l h conf limitBytes other peer path s r =
     (if handshake verifies l peer
      then go_bind (rhelemeter_external x h conf limitBytes other path s (no_values r)) (\<lambda>(s', resp). Ret (s', Some resp))
      else Ret (s, None))"

text \<open>What the options make of the server: the listener fails only when it starts to serve.\<close>

definition rhelemeter_started ::
  "('k, 'p) server_ext \<Rightarrow> (string \<Rightarrow> string + ClientCertConfig) \<Rightarrow> (string \<Rightarrow> string \<Rightarrow> string option) \<Rightarrow> rhelemeter_options \<Rightarrow>
   receiver \<Rightarrow> ClientCertConfig option \<Rightarrow> ext_listener \<Rightarrow> bool" where
  "rhelemeter_started sx um keyPair op h conf l \<longleftrightarrow>
     rhelemeter_Run sx um op = Ret (Inr (h, conf)) \<and> external_listener sx keyPair op (conf \<noteq> None) = Inr l"

section \<open>Lemmas\<close>

lemma rhelemeter_Run_receiver:
  "rhelemeter_Run x um op = Ret (Inr (h, conf)) \<Longrightarrow>
     rv_requiredValues h = labelValidator (ro_ClientInfoSubjectLabel op) \<and> rv_ForwardURL h = ro_ForwardURL op"
  by (auto simp: rhelemeter_Run_def receive_NewHandler_def split: sum.splits)

lemma rhelemeter_Run_conf:
  "rhelemeter_Run x um op = Ret (Inr (h, conf)) \<Longrightarrow>
     conf = None \<longleftrightarrow> ro_ClientInfoFromRequestConfigFile op = []"
  by (auto simp: rhelemeter_Run_def client_cert_config_def split: sum.splits option.splits if_splits)

lemma listener_requires:
  "external_listener x keyPair op hasConf = Inr l \<Longrightarrow> handshake verifies l peer \<Longrightarrow>
     ro_TLSCertificatePath op = [] \<or> hasConf \<or> (\<exists>c cas. peer = Some c \<and> verifies cas c)"
  by (cases l) (auto simp: external_listener_def split: if_splits option.splits sum.splits)

lemma rhelemeter_serve_upstream:
  assumes "rhelemeter_serve x verifies l h conf limitBytes other peer path s r = Ret (s', resp)"
    and "rc_upstream s' \<noteq> rc_upstream s"
  shows "handshake verifies l peer" and "path = ''/metrics/v1/receive''"
    and "\<exists>rs. resp = Some rs \<and> rhelemeter_route x h conf limitBytes s (no_values r) = Ret (s', rs)"
proof -
  from assms show hs: "handshake verifies l peer" by (auto simp: rhelemeter_serve_def split: if_splits)
  with assms obtain rs where run: "rhelemeter_external x h conf limitBytes other path s (no_values r) = Ret (s', rs)" "resp = Some rs"
    by (auto simp: rhelemeter_serve_def)
  show path: "path = ''/metrics/v1/receive''"
  proof (rule ccontr)
    assume "path \<noteq> ''/metrics/v1/receive''"
    with run(1) have "s' = s"
      by (auto simp: rhelemeter_external_def Let_def ClientCertInfoAsHeaders_def split: option.splits if_splits)
    with assms(2) show False by simp
  qed
  with run show "\<exists>rs. resp = Some rs \<and> rhelemeter_route x h conf limitBytes s (no_values r) = Ret (s', rs)"
    by (cases conf) (auto simp: rhelemeter_external_def rhelemeter_route_def Let_def)
qed

text \<open>With an empty context a checked label must be absent.\<close>

lemma values_ok_no_context:
  "values_ok (labelValidator key) (\<lambda>_. None) ls \<longleftrightarrow> key = [] \<or> key \<notin> pl_Name ` set ls"
  by (auto simp: values_ok_iff labelValidator_def)

text \<open>
  A write whose context is empty and whose series carry the subject label is refused.
\<close>

lemma write_refused:
  assumes "rq_body r = buffer data" and "received x r wreq" and "wr_Timeseries wreq \<noteq> []"
    and "\<not> series_values_ok (rv_requiredValues h) (rq_values r) (admitted x h wreq)"
  shows "\<exists>s'. TransformAndValidateWriteRequest x h nxt [] s r =
      Ret (s', http_Error (Text ''a required label value is incorrect'') StatusBadRequest) \<and> rc_upstream s' = rc_upstream s"
proof -
  have lab: "list_all (labelled []) (wr_Timeseries wreq)" by (simp add: labelled_def list_all_iff)
  let ?done = "filter (allowed h) (wr_Timeseries wreq)"
  let ?s1 = "s\<lparr>rc_seriesProcessed := rc_seriesProcessed s + length ?done\<rparr>"
  let ?w = "wreq\<lparr>wr_Timeseries := admitted x h wreq\<rparr>"
  have fs: "filter_series h (re_sort x) [] s (wr_Timeseries wreq) = (?s1, Some (admitted x h wreq))"
    using lab by (simp add: filter_series_def admitted_def takeWhile_list_all Let_def)
  have req: "rv_requiredValues h \<noteq> []" using assms(4) by auto
  have adm: "admitted x h wreq \<noteq> []" using assms(4) by auto
  have "TransformAndValidateWriteRequest x h nxt [] s r = write_filtered x h nxt r ?w ?s1"
    using assms(1-3) fs by (auto simp: TransformAndValidateWriteRequest_def received_def series_loop_is_filter)
  also have "\<dots> = Ret (?s1\<lparr>rc_incorrectValues := Suc (rc_incorrectValues ?s1)\<rparr>,
      http_Error (Text ''a required label value is incorrect'') StatusBadRequest)"
    using req adm assms(4) by (simp add: write_filtered_def)
  finally show ?thesis by simp
qed

section \<open>Properties\<close>


definition example_rhel_ext :: "(unit, unit) server_ext" where
  "example_rhel_ext = \<lparr>sx_read = (\<lambda>f. Inr f), sx_parseURL = Inr, sx_pem = (\<lambda>_. None), sx_pkcs1 = (\<lambda>_. Inl []), sx_pkcs8 = (\<lambda>_. Inl []),
     sx_ec = (\<lambda>_. Inl []), sx_public = (\<lambda>_. ()), sx_generate = Inl [], sx_parseRule = (\<lambda>_. Inr [])\<rparr>"

definition example_rhel :: "string \<Rightarrow> rhelemeter_options" where
  "example_rhel file = \<lparr>ro_LabelFlag = [], ro_RequiredLabelFlag = [], ro_TLSKeyPath = ''key'', ro_TLSCertificatePath = ''crt'',
     ro_TLSCACertificatePath = ''ca'', ro_ClientInfoFromRequestConfigFile = file, ro_ClientInfoSubjectLabel = ''_id'',
     ro_Whitelist = [], ro_ElideLabels = [], ro_LimitReceiveBytes = 10, ro_ForwardURL = ''http://up''\<rparr>"

lemma example_started:
  "rhelemeter_started example_rhel_ext (\<lambda>_. Inr example_config) (\<lambda>_ _. None) (example_rhel ''psk'') example_receiver (Some example_config)
     (TLSListener \<lparr>tl_ClientCAs = Some ''ca'', tl_ClientAuth = NoClientCert\<rparr>)"
  "rhelemeter_started example_rhel_ext (\<lambda>_. Inr example_config) (\<lambda>_ _. None) (example_rhel []) example_receiver None
     (TLSListener \<lparr>tl_ClientCAs = Some ''ca'', tl_ClientAuth = RequireAndVerifyClientCert\<rparr>)"
  by (simp_all add: rhelemeter_started_def rhelemeter_Run_def example_rhel_def client_cert_config_def example_rhel_ext_def
      ClientCertConfig_Validate_def example_config_def receive_NewHandler_def example_receiver_def labelValidator_def
      external_listener_def)

lemma example_serve_run:
  "\<exists>s'. rhelemeter_serve example_receive (\<lambda>_ (_ :: unit). False) (TLSListener \<lparr>tl_ClientCAs = Some ''ca'', tl_ClientAuth = NoClientCert\<rparr>)
     example_receiver (Some example_config) 10 (\<lambda>_ _. status_only 200) None ''/metrics/v1/receive'' fresh_state example_proxied =
     Ret (s', Some (status_only 200)) \<and> rc_upstream s' \<noteq> []"
proof -
  have "no_values example_proxied = example_proxied" by (simp add: no_values_def example_proxied_def)
  then show ?thesis
    using example_proxied_run by (auto simp: rhelemeter_serve_def rhelemeter_external_def simp del: go_bind_eq_Ret)
qed


text \<open>
  C17: in the mode without a proxy the common name of the certificate never reaches the check of the
  labels, although the documentation says the server determines the identity of the client from it:
  whatever certificate the peer shows, a write in which a series passes the whitelist with the
  subject label on it is answered with 400 and not forwarded.
\<close>

theorem rhelemeter_mtls_rejects:
  assumes "rhelemeter_started sx um keyPair op h None l" and "ro_ClientInfoSubjectLabel op = key" and "key \<noteq> []"
    and "handshake verifies l peer"
    and "ReadAll (re_room x) [] (rq_body r) = (data, None)" and "int (length data) < limitBytes"
    and "received x r wreq" and "ts \<in> set (admitted x h wreq)" and "key \<in> pl_Name ` set (ts_Labels ts)"
  shows "\<exists>s'. rhelemeter_serve x verifies l h None limitBytes other peer ''/metrics/v1/receive'' s r =
      Ret (s', Some (http_Error (Text ''a required label value is incorrect'') StatusBadRequest)) \<and>
    rc_upstream s' = rc_upstream s"
proof -
  have h: "rv_requiredValues h = labelValidator key"
    using rhelemeter_Run_receiver assms(1,2) unfolding rhelemeter_started_def by blast
  let ?r = "(no_values r)\<lparr>rq_body := buffer data\<rparr>"
  have "data = body_left (rq_body r)" using assms(5) ReadAll_data [of "re_room x" "[]" "rq_body r"] by simp
  then have rec: "received x ?r wreq" using assms(7) by (simp add: received_def)
  have bad: "\<not> series_values_ok (rv_requiredValues h) (rq_values ?r) (admitted x h wreq)"
    using assms(3,8,9) by (auto simp: h series_values_ok_iff no_values_def values_ok_no_context)
  have "wr_Timeseries wreq \<noteq> []" using assms(8) by (auto simp: admitted_def)
  from write_refused [OF _ rec this bad, of data "Receive x h" s] obtain s' where
    "TransformAndValidateWriteRequest x h (Receive x h) [] s ?r =
       Ret (s', http_Error (Text ''a required label value is incorrect'') StatusBadRequest)" "rc_upstream s' = rc_upstream s"
    by auto
  then show ?thesis using assms(4-6)
    by (simp add: rhelemeter_serve_def rhelemeter_external_def receive_route_def LimitBodySize_def no_values_def)
qed

theorem rhelemeter_mtls_rejects_witness:
  "\<exists>s'. rhelemeter_serve example_receive (\<lambda>_ (_ :: unit). True)
      (TLSListener \<lparr>tl_ClientCAs = Some ''ca'', tl_ClientAuth = RequireAndVerifyClientCert\<rparr>)
      example_receiver None 10 (\<lambda>_ _. status_only 200) (Some ()) ''/metrics/v1/receive'' fresh_state example_write =
    Ret (s', Some (http_Error (Text ''a required label value is incorrect'') StatusBadRequest)) \<and> rc_upstream s' = []"
proof -
  have key: "ro_ClientInfoSubjectLabel (example_rhel []) = ''_id''" by (simp add: example_rhel_def)
  let ?ts = "sanitize example_receiver (re_sort example_receive) example_series"
  have rec: "received example_receive example_write \<lparr>wr_Timeseries = [example_series], wr_Metadata = []\<rparr>"
    by (simp add: received_def example_receive_def)
  have ts: "?ts \<in> set (admitted example_receive example_receiver \<lparr>wr_Timeseries = [example_series], wr_Metadata = []\<rparr>)"
    by (simp add: admitted_def allowed_def example_receiver_def)
  have lbl: "''_id'' \<in> pl_Name ` set (ts_Labels ?ts)"
    by (auto simp: sanitize_def example_receiver_def example_receive_def example_series_def label_less_def)
  have rd: "ReadAll (re_room example_receive) [] (rq_body example_write) = (''x'', None)" by (simp add: example_write_def)
  show ?thesis
    using rhelemeter_mtls_rejects [OF example_started(2) key _ _ rd _ rec ts lbl, of "\<lambda>_ _. True" "Some ()" 10
        "\<lambda>_ _. status_only 200" fresh_state]
    by (simp add: fresh_state_def)
qed

end
