(* ===== verification/Server_Runs.thy ===== *)
theory Server_Runs
  imports Rhelemeter
begin

text \<open>
  Runs of the telemeter server: which configurations it starts with, and what can reach its
  upstream when requests of both write paths follow each other in any order, while memcached
  loses entries and the services outside change.
\<close>

section \<open>Starting\<close>

lemma rule_loop_map: "rule_loop parse ms rules = Inr out \<longleftrightarrow> (\<exists>new. map parse rules = map Inr new \<and> out = ms @ new)"
proof (induction rules arbitrary: ms)
  case (Cons r rules)
  show ?case
  proof (cases "parse r")
    case (Inr m)
    have "(\<exists>new. map parse (r # rules) = map Inr new \<and> out = ms @ new) \<longleftrightarrow>
        (\<exists>new. map parse rules = map Inr new \<and> out = ms @ m # new)"
      using Inr by (auto simp: Cons_eq_map_conv)
    with Cons.IH Inr show ?thesis by simp
  qed (auto simp: Cons_eq_map_conv)
qed auto

lemma receive_NewHandler_Inr:
  "receive_NewHandler parse url rules el vals = Inr rcv \<longleftrightarrow>
     (\<exists>mss. map parse rules = map Inr mss \<and>
        rcv = \<lparr>rv_ForwardURL = url, rv_elide = el, rv_matcherSets = mss, rv_requiredValues = vals\<rparr>)"
proof -
  have "rule_loop parse [] rules = Inr mss \<longleftrightarrow> map parse rules = map Inr mss" for mss
    by (simp add: rule_loop_map)
  then show ?thesis by (cases "rule_loop parse [] rules") (auto simp: receive_NewHandler_def)
qed

text \<open>The rules of both write paths are the same, so the receiver exists when the whitelist does.\<close>

lemma whitelist_receiver:
  "NewWhitelist parse rules = Inr wl \<Longrightarrow> receive_NewHandler parse url rules [] [] =
     Inr \<lparr>rv_ForwardURL = url, rv_elide = [], rv_matcherSets = wl, rv_requiredValues = []\<rparr>"
  by (simp add: receive_NewHandler_Inr NewWhitelist_Inr)

text \<open>What a configuration the server starts with looks like.\<close>

lemma server_Run_Ret: "\<exists>res. server_Run x op = Ret res"
  by (auto simp: server_Run_def whitelist_receiver split: sum.split option.split prod.split)

lemma server_Run_config:
  assumes "server_Run x op = Ret (Inr cfg)"
  shows "\<exists>rules. whitelist_rules x op = Inr rules \<and> map (sx_parseRule x) rules = map Inr (tc_whitelist cfg)"
    and "tc_receiver cfg = \<lparr>rv_ForwardURL = so_ForwardURL op, rv_elide = [], rv_matcherSets = tc_whitelist cfg,
       rv_requiredValues = []\<rparr>"
    and "tc_authorizeURL cfg = None \<longleftrightarrow> so_AuthorizeEndpoint op = []"
  using assms
  by (auto simp: server_Run_def whitelist_receiver NewWhitelist_Inr [symmetric] parse_authorize_def
      split: sum.splits option.splits prod.splits if_splits)

lemma receive_NewHandler_Inl:
  "(\<exists>e. receive_NewHandler parse url rules el vals = Inl e) \<longleftrightarrow> (\<exists>rule \<in> set rules. \<exists>e. parse rule = Inl e)"
proof -
  have "(\<exists>e. rule_loop parse ms rules = Inl e) \<longleftrightarrow> (\<exists>rule \<in> set rules. \<exists>e. parse rule = Inl e)" for ms
    by (induction rules arbitrary: ms) (auto split: sum.split)
  from this [of "[]"] show ?thesis by (cases "rule_loop parse [] rules") (simp_all add: receive_NewHandler_def)
qed

lemma rhelemeter_panics:
  "rhelemeter_Run x um op = Panic NilDeref \<longleftrightarrow>
     (\<exists>l1 l2 conf. label_flags [] (ro_LabelFlag op) = Inr l1 \<and> label_flags [] (ro_RequiredLabelFlag op) = Inr l2 \<and>
        client_cert_config x um (ro_ClientInfoFromRequestConfigFile op) = Inr conf) \<and>
     (\<exists>rule \<in> set (ro_Whitelist op). \<exists>e. sx_parseRule x rule = Inl e)"
  unfolding receive_NewHandler_Inl [symmetric, of _ _ "ro_ForwardURL op" "ro_ElideLabels op" "labelValidator (ro_ClientInfoSubjectLabel op)"]
  by (simp add: rhelemeter_Run_def split: sum.split)

section \<open>Runs\<close>

text \<open>A server that has started: its transformers are those of its options, its cache is cold.\<close>

definition booted ::
  "('k, 'p) server_ext \<Rightarrow> server_options \<Rightarrow> ('k, 'p) telemeter_config \<Rightarrow> ('c \<Rightarrow> string \<Rightarrow> string option) \<Rightarrow>
   ('l, 'c, 'a, 'f) telemeter \<Rightarrow> bool" where
  "booted sx op cfg stored s \<longleftrightarrow>
     server_Run sx op = Ret (Inr cfg) \<and>
     sv_base (tm_server s) = Some (server_transforms (tc_whitelist cfg) (tc_labels cfg) (so_ElideLabels op)) \<and>
     (\<forall>k. stored (cs_cache (tm_cache s)) k = None)"

text \<open>The token \<^verbatim>\<open>authorize.NewHandler\<close> finds in a request.\<close>

definition v2_token :: "request \<Rightarrow> string option" where
  "v2_token r =
     (let parts = Split (CHR '' '') (rq_header r ''Authorization'')
      in if length parts \<noteq> 2 \<or> ToLower (parts ! 0) \<noteq> ''bearer'' then None else b64std_DecodeString (parts ! 1))"

text \<open>
  The tokens for which a request on the receive path makes the server ask the authorization
  service, and the service answers with a 2xx status.
\<close>

definition vouched ::
  "('k, 'p, 't, 'l, 'c, 'a, 'f) world_ext \<Rightarrow> server_options \<Rightarrow> ('l, 'c, 'a, 'f) telemeter \<Rightarrow> string \<Rightarrow> request \<Rightarrow> string set" where
  "vouched x op s path r =
     {token. path = ''/metrics/v1/receive'' \<and> v2_token r = Some token \<and>
        (so_Memcacheds op = [] \<or> fst (cx_get (wx_cache x) (cs_cache (tm_cache s)) token) = Inr None) \<and>
        (\<exists>resp u. ep_do (wx_endpoint x) (cs_upstream (tm_cache s)) token = (Inr resp, u) \<and>
           200 \<le> hr_status resp \<and> hr_status resp < 300)}"

text \<open>
  The state of a run is that of the server and the history of the tokens vouched for.  A handler
  that panics ends its request; what it did before is lost or not, so a run does not go on from it.
\<close>

inductive telemeter_run ::
  "('k, 'p) server_ext \<Rightarrow> ('k, 'p, 't, 'l, 'c, 'a, 'f) world_ext \<Rightarrow> server_options \<Rightarrow> ('k, 'p) telemeter_config \<Rightarrow>
   (string \<Rightarrow> request \<Rightarrow> response) \<Rightarrow> ('c \<Rightarrow> string \<Rightarrow> string option) \<Rightarrow>
   ('l, 'c, 'a, 'f) telemeter \<Rightarrow> string set \<Rightarrow> bool"
  for sx x op cfg other stored where
  boot: "booted sx op cfg stored s \<Longrightarrow> telemeter_run sx x op cfg other stored s {}"
| request: "telemeter_run sx x op cfg other stored s H \<Longrightarrow> external x op cfg other uid path s r = Ret (s', resp) \<Longrightarrow>
    telemeter_run sx x op cfg other stored s' (H \<union> vouched x op s path r)"
| forget: "telemeter_run sx x op cfg other stored s H \<Longrightarrow>
    (\<And>k v. stored c k = Some v \<Longrightarrow> stored (cs_cache (tm_cache s)) k = Some v) \<Longrightarrow>
    telemeter_run sx x op cfg other stored (s\<lparr>tm_cache := (tm_cache s)\<lparr>cs_cache := c\<rparr>\<rparr>) H"
| outside: "telemeter_run sx x op cfg other stored s H \<Longrightarrow>
    telemeter_run sx x op cfg other stored
      (s\<lparr>tm_cache := (tm_cache s)\<lparr>cs_upstream := u\<rparr>, tm_server := (tm_server s)\<lparr>sv_upstream := f\<rparr>\<rparr>) H"

text \<open>
  The round tripper in front of the authorization service is the cache of the v2 server, and the
  memcached client keeps its promises.
\<close>

definition v2_wiring ::
  "('k, 'p, 't, 'l, 'c, 'a, 'f) world_ext \<Rightarrow> (string \<Rightarrow> string) \<Rightarrow> ('c \<Rightarrow> string \<Rightarrow> string option) \<Rightarrow> bool" where
  "v2_wiring x sha256 stored \<longleftrightarrow>
     (\<exists>expiration cl room dump readResponse. client_contract cl stored \<and>
        wx_cache x = v2_cache sha256 expiration cl room (\<lambda>u b. ep_do (wx_endpoint x) u (body_left b)) dump readResponse)"

section \<open>One request\<close>

lemma go_bind_Ret_iff: "go_bind m f = Ret y \<longleftrightarrow> (\<exists>x. m = Ret x \<and> f x = Ret y)"
  by (cases m) auto

text \<open>What a request did to the cache.\<close>

lemma endpoint_keeps:
  assumes "AgainstEndpoint (v2_endpoint cached ep cx) None cs token = (res, cs')"
  shows "cs' = cs \<or> (\<exists>u. cs' = cs\<lparr>cs_upstream := u\<rparr>) \<or> cached \<and> (\<exists>out. cache_RoundTrip cx cs (buffer token) = (cs', out))"
  using assms
  by (auto simp: AgainstEndpoint_def v2_endpoint_def split: option.splits prod.splits sum.splits if_splits)

lemma endpoint_success:
  assumes "AgainstEndpoint (v2_endpoint cached ep cx) None cs token = ((data, None), cs')"
  shows "\<exists>resp. (\<exists>out. (if cached then cache_RoundTrip cx cs (buffer token) = (cs', Inr resp)
       else ep_do ep (cs_upstream cs) token = (Inr resp, out) \<and> cs' = cs\<lparr>cs_upstream := out\<rparr>)) \<and>
     (hr_status resp = 200 \<or> hr_status resp = 201)"
  using assms
  by (auto simp: AgainstEndpoint_def v2_endpoint_def status_error_None split: option.splits prod.splits sum.splits if_splits)


lemma wiring_key: "v2_wiring x sha256 stored \<Longrightarrow> cx_key (wx_cache x) (buffer token) = (buffer token, token, None)"
  by (auto simp: v2_wiring_def v2_cache_def ExtractToken_def)

lemma wiring_success:
  assumes wiring: "v2_wiring x sha256 stored"
    and run: "cache_RoundTrip (wx_cache x) cs (buffer token) = (cs', Inr resp)" "hr_status resp = 200 \<or> hr_status resp = 201"
  shows "(\<exists>raw. stored (cs_cache cs) (mc_hash sha256 token) = Some raw) \<or>
    fst (cx_get (wx_cache x) (cs_cache cs) token) = Inr None \<and>
    (\<exists>resp u. ep_do (wx_endpoint x) (cs_upstream cs) token = (Inr resp, u) \<and> 200 \<le> hr_status resp \<and> hr_status resp < 300)"
proof -
  from wiring obtain ex cl room dump rr where cl: "client_contract cl stored" and
    x: "wx_cache x = v2_cache sha256 ex cl room (\<lambda>u b. ep_do (wx_endpoint x) u (body_left b)) dump rr"
    by (auto simp: v2_wiring_def)
  obtain got c where get: "memcached_Get sha256 cl (cs_cache cs) token = (got, c)" by force
  have get': "cx_get (wx_cache x) (cs_cache cs) token = (got, c)" using get by (simp add: x v2_cache_def)
  show ?thesis
  proof (cases "\<exists>raw. got = Inr (Some raw)")
    case True
    with memcached_Get_stored(2) [OF cl get] show ?thesis by blast
  next
    case False
    with run(1) get' have none: "got = Inr None"
      by (auto simp: cache_RoundTrip_def wiring_key [OF wiring] split: sum.splits option.splits)
    obtain ans u where ans: "ep_do (wx_endpoint x) (cs_upstream cs) token = (ans, u)" by force
    then have "cx_next (wx_cache x) (cs_upstream cs) (buffer token) = (ans, u)" by (subst x) (simp add: v2_cache_def)
    with run none get' obtain resp0 where "ans = Inr resp0" "200 \<le> hr_status resp0 \<and> hr_status resp0 < 300"
      by (auto simp: cache_RoundTrip_def wiring_key [OF wiring] Let_def split: sum.splits if_splits prod.splits)
    with ans none get' show ?thesis by auto
  qed
qed

lemma wiring_stored:
  assumes wiring: "v2_wiring x sha256 stored"
    and run: "cache_RoundTrip (wx_cache x) cs (buffer token) = (cs', res)" and st: "stored (cs_cache cs') k = Some raw"
  shows "stored (cs_cache cs) k = Some raw \<or> mc_hash sha256 token = k \<and>
    fst (cx_get (wx_cache x) (cs_cache cs) token) = Inr None \<and>
    (\<exists>resp u. ep_do (wx_endpoint x) (cs_upstream cs) token = (Inr resp, u) \<and> 200 \<le> hr_status resp \<and> hr_status resp < 300)"
proof -
  from wiring obtain ex cl room dump rr where cl: "client_contract cl stored" and
    x: "wx_cache x = v2_cache sha256 ex cl room (\<lambda>u b. ep_do (wx_endpoint x) u (body_left b)) dump rr"
    by (auto simp: v2_wiring_def)
  have nxt: "cx_next (wx_cache x) u (buffer token) = ep_do (wx_endpoint x) u token" for u
    by (subst x) (simp add: v2_cache_def)
  from trip_stored [of cl stored "wx_cache x", OF cl x run st] nxt wiring_key [OF wiring, of token] show ?thesis
    by (auto simp: approved_def)
qed

text \<open>What a request on the receive path did.\<close>

lemma NewHandler_eq:
  "NewHandler endpoint unmarshal tenantKey nxt (u, s) r =
     (case v2_token r of
        None \<Rightarrow> Ret ((u, s), status_only StatusBadRequest)
      | Some token \<Rightarrow>
          (case (if tenantKey \<noteq> [] then
                   (case unmarshal token of Inl e \<Rightarrow> None | Inr flds \<Rightarrow> Some (map_get flds tenantKey))
                 else Some []) of
             None \<Rightarrow> Ret ((u, s), status_only StatusInternalServerError)
           | Some tenant \<Rightarrow>
               go_bind (deref endpoint) (\<lambda>ep.
                 (case AgainstEndpoint ep None u token of
                    ((_, Some e), u') \<Rightarrow> Ret ((u', s), status_only StatusUnauthorized)
                  | ((_, None), u') \<Rightarrow>
                      go_bind (nxt s (r\<lparr>rq_tenant := Some tenant\<rparr>)) (\<lambda>(s', resp). Ret ((u', s'), resp))))))"
  by (simp add: NewHandler_def v2_token_def Let_def)

lemma NewHandler_cases:
  assumes run: "NewHandler endpoint unmarshal tenantKey nxt (u, s) r = Ret ((u', s'), resp)"
  shows "u' = u \<and> s' = s \<or>
    (\<exists>token ep res. v2_token r = Some token \<and> endpoint = Some ep \<and> AgainstEndpoint ep None u token = (res, u') \<and>
       (s' = s \<or> snd res = None \<and> (\<exists>tenant. nxt s (r\<lparr>rq_tenant := Some tenant\<rparr>) = Ret (s', resp))))"
proof (cases "v2_token r")
  case None
  with run show ?thesis by (simp add: NewHandler_eq)
next
  case (Some token)
  show ?thesis
  proof (cases "if tenantKey \<noteq> [] then
          (case unmarshal token of Inl e \<Rightarrow> None | Inr flds \<Rightarrow> Some (map_get flds tenantKey)) else Some []")
    case None
    with run Some show ?thesis by (simp add: NewHandler_eq)
  next
    case tenant: (Some tenant)
    with run Some obtain ep where ep: "endpoint = Some ep" by (cases endpoint) (simp_all add: NewHandler_eq)
    obtain d e u1 where ask: "AgainstEndpoint ep None u token = ((d, e), u1)" by (metis prod_cases3 surj_pair)
    show ?thesis using run Some tenant ep ask
      by (cases e) (auto simp: NewHandler_eq go_bind_Ret_iff)
  qed
qed

lemma receive_handler_cases:
  assumes run: "receive_handler x op cfg s r = Ret (s', resp)"
  shows "tm_cache s' = tm_cache s \<and> tm_server s' = tm_server s \<or>
     (\<exists>token res. v2_token r = Some token \<and>
        AgainstEndpoint (v2_endpoint (so_Memcacheds op \<noteq> []) (wx_endpoint x) (wx_cache x)) None (tm_cache s) token = (res, tm_cache s') \<and>
        (tm_server s' = tm_server s \<or>
         snd res = None \<and>
         (\<exists>rcv tenant. receive_route (wx_receive x) (tc_receiver cfg) (so_LimitReceiveBytes op) [so_clusterIDKey op]
              ((tm_receive s)\<lparr>rc_upstream := sv_upstream (tm_server s)\<rparr>) (r\<lparr>rq_tenant := Some tenant\<rparr>) = Ret (rcv, resp) \<and>
            tm_server s' = (tm_server s)\<lparr>sv_upstream := rc_upstream rcv\<rparr>)))"
proof -
  from run obtain cache rcv where
    h: "NewHandler (map_option (\<lambda>u. v2_endpoint (so_Memcacheds op \<noteq> []) (wx_endpoint x) (wx_cache x)) (tc_authorizeURL cfg))
          (wx_unmarshal x) (so_TenantKey op)
          (receive_route (wx_receive x) (tc_receiver cfg) (so_LimitReceiveBytes op) [so_clusterIDKey op])
          (tm_cache s, (tm_receive s)\<lparr>rc_upstream := sv_upstream (tm_server s)\<rparr>) r = Ret ((cache, rcv), resp)"
    and s': "s' = s\<lparr>tm_cache := cache, tm_receive := rcv, tm_server := (tm_server s)\<lparr>sv_upstream := rc_upstream rcv\<rparr>\<rparr>"
    by (auto simp: receive_handler_def go_bind_Ret_iff)
  from NewHandler_cases [OF h] s' show ?thesis by fastforce
qed


text \<open>What a request on the upload path did.\<close>

lemma upload_handler_cases:
  assumes "upload_handler x op cfg s r = Ret (s', resp)"
  shows "tm_cache s' = tm_cache s \<and>
    (sv_upstream (tm_server s') = sv_upstream (tm_server s) \<and> sv_base (tm_server s') = sv_base (tm_server s) \<or>
     (\<exists>tok c limits w. bearer_auth (rq_header r ''Authorization'') = Ret (Inr tok) \<and>
        AuthorizeClient (wx_jose x) (jwtAuthorizer cfg) (fst (read_now (sv_world (tm_server s)))) tok = Inr (Some c) \<and>
        upload_route (wx_upload x) (wx_newLimiter x) (wx_allowN x) (so_clusterIDKey op) (so_Ratelimit op)
          (so_LimitBytes op) (tc_forwardURL cfg) (so_TenantID op) (tm_limits s, (tm_server s)\<lparr>sv_world := w\<rparr>)
          (WithClient r (Some c)) = Ret ((limits, tm_server s'), resp)))"
proof -
  obtain now w where now: "read_now (sv_world (tm_server s)) = (now, w)" by force
  obtain res where bearer: "bearer_auth (rq_header r ''Authorization'') = Ret res" using bearer_auth_total by blast
  let ?auth = "AuthorizeClient (wx_jose x) (jwtAuthorizer cfg) now"
  consider (refused) "\<exists>msg. res = Inl msg \<or> (\<exists>tok e. res = Inr tok \<and> ?auth tok = Inl e)"
    | (nil) tok where "res = Inr tok" "?auth tok = Inr None" | (client) tok c where "res = Inr tok" "?auth tok = Inr (Some c)"
    by (cases res) (metis not_None_eq old.sum.exhaust)+
  then show ?thesis
  proof cases
    case refused
    with assms now bearer show ?thesis
      by (auto simp: upload_handler_def tm_now_def Let_def NewAuthorizeClientHandler_def)
  next
    case nil
    with assms now bearer show ?thesis
      by (simp add: upload_handler_def tm_now_def Let_def NewAuthorizeClientHandler_def upload_route_def ClusterID_def)
  next
    case client
    with assms now bearer show ?thesis
      by (auto simp: upload_handler_def tm_now_def Let_def NewAuthorizeClientHandler_def go_bind_Ret_iff)
  qed
qed

text \<open>A request leaves the base transformers alone, and adds to the cache only what was vouched for.\<close>

lemma external_base:
  assumes run: "external x op cfg other uid path s r = Ret (s', resp)"
    and base: "sv_base (tm_server s) = Some (server_transforms wl labels el)"
  shows "sv_base (tm_server s') = sv_base (tm_server s)"
proof -
  have auth: "sv_base (tm_server s') = sv_base (tm_server s)" if "authorize_handler x op cfg uid s r = Ret (s', resp)"
    using that by (auto simp: authorize_handler_def tm_now_def Let_def go_bind_Ret_iff case_prod_unfold)
  have up: "sv_base (tm_server s') = sv_base (tm_server s)" if "upload_handler x op cfg s r = Ret (s', resp)"
  proof -
    from upload_handler_cases [OF that] consider "sv_base (tm_server s') = sv_base (tm_server s)"
    | c limits w where "upload_route (wx_upload x) (wx_newLimiter x) (wx_allowN x) (so_clusterIDKey op) (so_Ratelimit op)
          (so_LimitBytes op) (tc_forwardURL cfg) (so_TenantID op) (tm_limits s, (tm_server s)\<lparr>sv_world := w\<rparr>)
          (WithClient r (Some c)) = Ret ((limits, tm_server s'), resp)" by blast
    then show ?thesis
    proof cases
      case 2
      from upload_route_base [OF this, of c wl labels el] base show ?thesis by (simp add: WithClient_def)
    qed simp
  qed
  have rcv: "sv_base (tm_server s') = sv_base (tm_server s)" if "receive_handler x op cfg s r = Ret (s', resp)"
    using receive_handler_cases [OF that] by auto
  from run auth up rcv show ?thesis by (auto simp: external_def split: if_splits)
qed

lemma external_stored:
  assumes wiring: "v2_wiring x sha256 stored" and run: "external x op cfg other uid path s r = Ret (s', resp)"
    and st: "stored (cs_cache (tm_cache s')) k = Some raw"
  shows "stored (cs_cache (tm_cache s)) k = Some raw \<or> (\<exists>token \<in> vouched x op s path r. mc_hash sha256 token = k)"
proof -
  have auth: "cs_cache (tm_cache s') = cs_cache (tm_cache s)" if "authorize_handler x op cfg uid s r = Ret (s', resp)"
    using that by (auto simp: authorize_handler_def tm_now_def Let_def go_bind_Ret_iff case_prod_unfold)
  have up: "cs_cache (tm_cache s') = cs_cache (tm_cache s)" if "upload_handler x op cfg s r = Ret (s', resp)"
    using upload_handler_cases [OF that] by simp
  consider "cs_cache (tm_cache s') = cs_cache (tm_cache s)"
    | (rcv) "path = ''/metrics/v1/receive''" "receive_handler x op cfg s r = Ret (s', resp)"
    using run auth up by (auto simp: external_def split: if_splits)
  then show ?thesis
  proof cases
    case 1
    with st show ?thesis by simp
  next
    case rcv
    from receive_handler_cases [OF rcv(2)] consider "cs_cache (tm_cache s') = cs_cache (tm_cache s)"
    | token res where "v2_token r = Some token" "AgainstEndpoint (v2_endpoint (so_Memcacheds op \<noteq> []) (wx_endpoint x) (wx_cache x)) None
          (tm_cache s) token = (res, tm_cache s')" by auto
    then show ?thesis
    proof cases
      case 1
      with st show ?thesis by simp
    next
      case 2
      from endpoint_keeps [OF this(2)] consider "cs_cache (tm_cache s') = cs_cache (tm_cache s)"
      | out where "so_Memcacheds op \<noteq> []" "cache_RoundTrip (wx_cache x) (tm_cache s) (buffer token) = (tm_cache s', out)"
        by auto
      then show ?thesis
      proof cases
        case 1
        with st show ?thesis by simp
      next
        case trip: 2
        from wiring_stored [OF wiring trip(2) st] 2(1) rcv(1) show ?thesis by (auto simp: vouched_def)
      qed
    qed
  qed
qed

lemma run_invariant:
  assumes "v2_wiring x sha256 stored" and "telemeter_run sx x op cfg other stored s H"
  shows "sv_base (tm_server s) = Some (server_transforms (tc_whitelist cfg) (tc_labels cfg) (so_ElideLabels op)) \<and>
    (\<forall>k raw. stored (cs_cache (tm_cache s)) k = Some raw \<longrightarrow> (\<exists>token \<in> H. mc_hash sha256 token = k))"
  using assms(2)
proof (induction rule: telemeter_run.induct)
  case (boot s)
  then show ?case by (simp add: booted_def)
next
  case (request s H uid path r s' resp)
  from external_base [OF request.hyps(2)] request.IH external_stored [OF assms(1) request.hyps(2)] show ?case by fastforce
qed auto

text \<open>A token the receive path lets through was vouched for, now or before.\<close>

lemma endpoint_vouched:
  assumes wiring: "v2_wiring x sha256 stored" and path: "path = ''/metrics/v1/receive''" and tok: "v2_token r = Some token"
    and ok: "AgainstEndpoint (v2_endpoint (so_Memcacheds op \<noteq> []) (wx_endpoint x) (wx_cache x)) None (tm_cache s) token = ((d, None), cs')"
    and hist: "\<forall>k raw. stored (cs_cache (tm_cache s)) k = Some raw \<longrightarrow> (\<exists>token \<in> H. mc_hash sha256 token = k)"
  shows "\<exists>v \<in> H \<union> vouched x op s path r. mc_hash sha256 v = mc_hash sha256 token"
proof -
  from endpoint_success [OF ok] obtain resp out where
    run: "if so_Memcacheds op \<noteq> [] then cache_RoundTrip (wx_cache x) (tm_cache s) (buffer token) = (cs', Inr resp)
       else ep_do (wx_endpoint x) (cs_upstream (tm_cache s)) token = (Inr resp, out) \<and> cs' = (tm_cache s)\<lparr>cs_upstream := out\<rparr>"
    and status: "hr_status resp = 200 \<or> hr_status resp = 201" by blast
  show ?thesis
  proof (cases "so_Memcacheds op = []")
    case True
    with run status tok path have "token \<in> vouched x op s path r" by (auto simp: vouched_def)
    then show ?thesis by blast
  next
    case False
    with run have "cache_RoundTrip (wx_cache x) (tm_cache s) (buffer token) = (cs', Inr resp)" by simp
    from wiring_success [OF wiring this status] show ?thesis
    proof
      assume "\<exists>raw. stored (cs_cache (tm_cache s)) (mc_hash sha256 token) = Some raw"
      with hist show ?thesis by blast
    next
      assume "fst (cx_get (wx_cache x) (cs_cache (tm_cache s)) token) = Inr None \<and>
        (\<exists>resp u. ep_do (wx_endpoint x) (cs_upstream (tm_cache s)) token = (Inr resp, u) \<and> 200 \<le> hr_status resp \<and> hr_status resp < 300)"
      with tok path have "token \<in> vouched x op s path r" by (auto simp: vouched_def)
      then show ?thesis by blast
    qed
  qed
qed

section \<open>Properties\<close>


text \<open>A server with one rule, a cache and a service that can be shut down.\<close>

definition example_sx :: "(nat, nat) server_ext" where
  "example_sx = \<lparr>sx_read = (\<lambda>_. Inl ''no such file''), sx_parseURL = Inr, sx_pem = (\<lambda>_. None),
     sx_pkcs1 = Inl, sx_pkcs8 = Inl, sx_ec = Inl, sx_public = (\<lambda>_. 7), sx_generate = Inr (ECDSA P256 1),
     sx_parseRule = (\<lambda>r. if r = ''a'' then Inr [\<lparr>mt_Name = ''__name__'', mt_Matches = (\<lambda>v. v = ''up'')\<rparr>] else Inl ''bad rule'')\<rparr>"

definition example_options :: server_options where
  "example_options = \<lparr>so_LabelFlag = [], so_RequiredLabelFlag = [], so_AuthorizeEndpoint = ''http://auth'',
     so_TLSCertificatePath = [], so_TLSKeyPath = [], so_InternalTLSCertificatePath = [], so_InternalTLSKeyPath = [],
     so_SharedKey = [], so_Whitelist = [''a''], so_WhitelistFile = [], so_ElideLabels = [], so_clusterIDKey = ''_id'',
     so_TokenExpireSeconds = 3600, so_Ratelimit = 10, so_LimitBytes = 0, so_LimitReceiveBytes = 10,
     so_ForwardURL = ''http://up'', so_TenantID = ''tenant'', so_TenantKey = [], so_Memcacheds = [''mc'']\<rparr>"

definition example_tc :: "(nat, nat) telemeter_config" where
  "example_tc = (let wl = [[\<lparr>mt_Name = ''__name__'', mt_Matches = (\<lambda>v. v = ''up'')\<rparr>]] in
     \<lparr>tc_labels = [], tc_required = [], tc_authorizeURL = Some ''http://auth'', tc_privateKey = ECDSA P256 1, tc_publicKey = 7,
      tc_whitelist = wl, tc_forwardURL = ''http://up'',
      tc_receiver = \<lparr>rv_ForwardURL = ''http://up'', rv_elide = [], rv_matcherSets = wl, rv_requiredValues = []\<rparr>\<rparr>)"

text \<open>The authorization service knows every token until it is shut down.\<close>

definition example_service :: "bool endpoint" where
  "example_service = \<lparr>ep_room = (\<lambda>_. 512), ep_newRequest = None,
     ep_do = (\<lambda>up token. (if up then Inr example_answer else Inl ''connection refused'', up))\<rparr>"

definition example_remote_write :: "(string \<times> string \<times> string) list receive_ext" where
  "example_remote_write = \<lparr>re_room = (\<lambda>_. 512), re_snappyDecode = Inr,
     re_unmarshal = (\<lambda>_. Inr \<lparr>wr_Timeseries = [\<lparr>ts_Labels = [\<lparr>pl_Name = ''__name__'', pl_Value = ''up''\<rparr>,
       \<lparr>pl_Name = ''_id'', pl_Value = ''c1''\<rparr>], ts_Samples = []\<rparr>], wr_Metadata = []\<rparr>), re_marshal = (\<lambda>_. Inr ''w''),
     re_snappyEncode = (\<lambda>d. d), re_sort = insertion_sort label_less, re_newRequest = (\<lambda>_. None),
     re_do = (\<lambda>u p. (Inr \<lparr>hr_status = 200, hr_contentType = [], hr_body = buffer []\<rparr>, u @ [(fst p, [], body_left (snd p))]))\<rparr>"

definition example_world ::
  "(nat, nat, unit, int \<times> time option, string \<Rightarrow> string option, bool, (string \<times> string \<times> string) list) world_ext" where
  "example_world = \<lparr>wx_jose = example_jose, wx_codec = \<lparr>tb_marshal = (\<lambda>_. Inl ''''), tb_unmarshal = Inl, tb_mediaType = (\<lambda>_. None)\<rparr>,
     wx_endpoint = example_service, wx_unmarshal = Inl, wx_upload = example_ext, wx_receive = example_remote_write,
     wx_newLimiter = bucket_new, wx_allowN = bucket_allow,
     wx_cache = v2_cache (\<lambda>s. s) 60 example_client (\<lambda>_. 512) (\<lambda>u b. ep_do example_service u (body_left b))
       (\<lambda>resp. (Inr ''raw'', resp)) (\<lambda>raw. Inr example_answer)\<rparr>"

definition example_boot ::
  "(int \<times> time option, string \<Rightarrow> string option, bool, (string \<times> string \<times> string) list) telemeter" where
  "example_boot = \<lparr>tm_limits = Map.empty, tm_server = example_server,
     tm_receive = \<lparr>rc_forwardRequests = (\<lambda>_. 0), rc_sizeLimited = 0, rc_missingLabels = 0, rc_incorrectValues = 0,
       rc_seriesProcessed = 0, rc_metadataRequests = 0, rc_upstream = []\<rparr>,
     tm_cache = \<lparr>cs_cache = Map.empty, cs_upstream = True, cs_reads = (\<lambda>_. 0), cs_writes = (\<lambda>_. 0)\<rparr>\<rparr>"

definition example_remote_request :: request where
  "example_remote_request = \<lparr>rq_method = ''POST'',
     rq_header = (\<lambda>k. if k = ''Authorization'' then ''Bearer dA=='' else []),
     rq_form = (\<lambda>_. Inl []), rq_body = buffer ''x'', rq_client = None, rq_cluster = None, rq_tenant = None, rq_values = (\<lambda>_. None)\<rparr>"

lemma example_starts: "server_Run example_sx example_options = Ret (Inr example_tc)"
proof -
  have "TrimSpace ''a'' = ''a''" by (simp add: TrimSpace_plain plain_char_def)
  then have rules: "whitelist_rules example_sx example_options = Inr [''a'']"
    by (simp add: whitelist_rules_def example_options_def with_file_def normalize_rules_exact)
  have url: "parse_authorize example_sx example_options = Inr (Some ''http://auth'')"
    by (simp add: parse_authorize_def example_options_def example_sx_def)
  have key: "shared_key example_sx example_options = Inr (ECDSA P256 1, 7)" "check_pairs example_options = None"
    by (simp_all add: shared_key_def check_pairs_def example_options_def example_sx_def)
  have wl: "NewWhitelist (sx_parseRule example_sx) [''a''] = Inr (tc_whitelist example_tc)"
    by (simp add: example_sx_def example_tc_def Let_def)
  have flags: "so_LabelFlag example_options = []" "so_RequiredLabelFlag example_options = []"
    "so_ForwardURL example_options = ''http://up''" "sx_parseURL example_sx u = Inr u" for u
    by (simp_all add: example_options_def example_sx_def)
  show ?thesis
    unfolding server_Run_def flags
    by (simp add: rules url key wl whitelist_receiver [OF wl] del: NewWhitelist.simps) (simp add: example_tc_def Let_def)
qed

lemma example_booted: "booted example_sx example_options example_tc (\<lambda>c. c) example_boot"
  using example_starts
  by (simp add: booted_def example_boot_def example_server_def example_tc_def example_options_def Let_def)

lemma example_wiring: "v2_wiring example_world (\<lambda>s. s) (\<lambda>c. c)"
  unfolding v2_wiring_def
  by (intro exI conjI, rule example_client_contract) (simp add: example_world_def)

lemma example_v2_token: "v2_token example_remote_request = Some ''t''"
proof -
  have "Split (CHR '' '') ''Bearer dA=='' = [''Bearer'', ''dA=='']" by code_simp
  moreover have "ToLower ''Bearer'' = ''bearer''" by code_simp
  moreover have "b64std_DecodeString ''dA=='' = Some ''t''" by code_simp
  ultimately show ?thesis by (simp add: v2_token_def example_remote_request_def Let_def)
qed

lemma example_receive_route:
  "\<exists>rcv. receive_route example_remote_write (tc_receiver example_tc) 10 [''_id''] s (example_remote_request\<lparr>rq_tenant := t\<rparr>) =
     Ret (rcv, status_only 200) \<and> rc_upstream rcv = rc_upstream s @ [(''http://up'', [], ''w'')]"
  by (simp add: receive_route_def LimitBodySize_def TransformAndValidateWriteRequest_def example_remote_write_def
      series_loop_is_filter filter_series_def labelled_def example_remote_request_def write_filtered_def example_tc_def
      sanitize_def label_less_def allowed_def Receive_def Receive_answer_def trunc_div_def count_forward_def Let_def)


text \<open>A request whose token the service or the cache knows is forwarded.\<close>

lemma example_asked:
  assumes "cs_upstream cs \<and> cs_cache cs = Map.empty \<or> cs_cache cs (mc_hash (\<lambda>s. s) ''t'') = Some ''raw''"
  shows "\<exists>cs'. AgainstEndpoint (v2_endpoint True example_service (wx_cache example_world)) None cs ''t'' = ((''ok'', None), cs') \<and>
     cs_cache cs' (mc_hash (\<lambda>s. s) ''t'') = Some ''raw''"
proof -
  have rd: "ReadAll (\<lambda>_. 512) [] (io_LimitedReader (buffer ''ok'') requestBodyLimit) = (''ok'', None)"
    unfolding buffer_def
    by (subst ReadAll.simps, simp add: stream_Read.simps requestBodyLimit_def)
      (subst ReadAll.simps, simp add: stream_Read.simps)
  let ?k = "mc_hash (\<lambda>s. s) ''t''"
  have "\<exists>cs'. cache_RoundTrip (wx_cache example_world) cs (buffer ''t'') = (cs', Inr example_answer) \<and> cs_cache cs' ?k = Some ''raw''"
    using assms
    by (auto simp: cache_RoundTrip_def wiring_key [OF example_wiring])
       (auto simp: example_world_def v2_cache_def memcached_Get_def example_client_def memcached_Set_def cache_store_def
         example_service_def example_answer_def count_read_def count_write_def Let_def split: option.split)
  then obtain cs' where trip: "cache_RoundTrip (wx_cache example_world) cs (buffer ''t'') = (cs', Inr example_answer)"
    "cs_cache cs' ?k = Some ''raw''" by blast
  then show ?thesis
    by (simp add: AgainstEndpoint_def v2_endpoint_def example_service_def example_answer_def rd status_error_None)
qed

lemma example_receives:
  assumes "cs_upstream (tm_cache s) \<and> cs_cache (tm_cache s) = Map.empty \<or>
    cs_cache (tm_cache s) (mc_hash (\<lambda>s. s) ''t'') = Some ''raw''"
  shows "\<exists>s'. external example_world example_options example_tc other uid ''/metrics/v1/receive'' s example_remote_request =
      Ret (s', status_only 200) \<and>
    sv_upstream (tm_server s') = sv_upstream (tm_server s) @ [(''http://up'', [], ''w'')] \<and>
    cs_cache (tm_cache s') (mc_hash (\<lambda>s. s) ''t'') = Some ''raw''"
proof -
  from example_asked [OF assms] obtain cs' where
    ask: "AgainstEndpoint (v2_endpoint True example_service (wx_cache example_world)) None (tm_cache s) ''t'' = ((''ok'', None), cs')"
    "cs_cache cs' (mc_hash (\<lambda>s. s) ''t'') = Some ''raw''" by blast
  let ?r = "(tm_receive s)\<lparr>rc_upstream := sv_upstream (tm_server s)\<rparr>"
  from example_receive_route [of ?r "Some []"] obtain rcv where
    route: "receive_route example_remote_write (tc_receiver example_tc) 10 [''_id''] ?r (example_remote_request\<lparr>rq_tenant := Some []\<rparr>) =
      Ret (rcv, status_only 200)" "rc_upstream rcv = sv_upstream (tm_server s) @ [(''http://up'', [], ''w'')]" by auto
  have op: "so_Memcacheds example_options = [''mc'']" "so_TenantKey example_options = []"
    "so_LimitReceiveBytes example_options = 10" "so_clusterIDKey example_options = ''_id''"
    "tc_authorizeURL example_tc = Some ''http://auth''" "wx_receive example_world = example_remote_write"
    "wx_endpoint example_world = example_service"
    by (simp_all add: example_options_def example_tc_def example_world_def Let_def)
  show ?thesis
    using ask route by (simp add: external_def receive_handler_def NewHandler_eq example_v2_token op)
qed

text \<open>The upload of the examples, by the client whose token the example server issued.\<close>

definition example_bearer :: request where
  "example_bearer = example_request\<lparr>rq_client := None, rq_header := (\<lambda>k. if k = ''Authorization'' then ''Bearer token'' else [])\<rparr>"

lemma example_bearer_token: "bearer_auth (rq_header example_bearer ''Authorization'') = Ret (Inr ''token'')"
proof -
  have "ToLower ''Bearer'' = ''bearer''" by code_simp
  moreover have "TrimSpace ''token'' \<noteq> []" by (simp add: TrimSpace_plain plain_char_def)
  ultimately show ?thesis
    unfolding bearer_auth_Inr by (intro exI [of _ "''Bearer''"]) (simp add: example_bearer_def)
qed

lemma example_keys: "key_loop example_jose t errs (ks @ [7]) = Inr example_payload"
  by (induction ks arbitrary: errs) (simp_all add: example_jose_def)

lemma example_client_accepted:
  "AuthorizeClient example_jose \<lparr>ca_iss = ''telemeter.selfsigned'', ca_keys = ks @ [7], ca_auds = [''telemeter-client'']\<rparr> (100 * Second) ''token'' =
     Inr (Some \<lparr>cl_ID = ''account'', cl_Labels = [(''_id'', ''c1'')]\<rparr>)"
proof -
  let ?claims = "issued_claims example_authorizer 0 ''account''"
  have iss: "jc_Issuer ?claims = ''telemeter.selfsigned''" and exp: "ah_expireInSeconds example_authorizer = 3600"
    by (simp_all add: issued_claims_def example_authorizer_def)
  have "validator_Validate [''telemeter-client''] (100 * Second) ?claims (PrivateClaims [(''_id'', ''c1'')]) =
      Inr (Some \<lparr>cl_ID = ''account'', cl_Labels = [(''_id'', ''c1'')]\<rparr>)"
    using validate_issued [of 0 example_authorizer "[''telemeter-client'']" "100 * Second" "''account''" "[(''_id'', ''c1'')]"]
      exp by (simp add: Second_def Minute_def)
  moreover have "jo_parse example_jose ''token'' = Inr ()" by (simp add: example_jose_def)
  ultimately show ?thesis
    by (simp add: AuthorizeClient_def example_keys) (simp add: example_payload_def iss)
qed


lemma example_uploads:
  "\<exists>s'. external example_world example_options example_tc other uid ''/upload'' example_boot example_bearer = Ret (s', empty_response) \<and>
     sv_upstream (tm_server s') = [(''http://up'', ''tenant'', ''data'')]"
proof -
  let ?c = "\<lparr>cl_ID = ''account'', cl_Labels = [(''_id'', ''c1'')]\<rparr>" and ?w = "(still_world 100000000000)\<lparr>w_ticks := Suc 0\<rparr>"
  have up: "example_upload (WithClient example_bearer (Some ?c))"
    by (simp add: example_upload_def WithClient_def example_bearer_def example_request_def)
  obtain store' s1 where run: "upload_route example_ext bucket_new bucket_allow ''_id'' 10 0 ''http://up'' ''tenant''
      (Map.empty, example_server\<lparr>sv_world := ?w\<rparr>) (WithClient example_bearer (Some ?c)) = Ret ((store', s1), empty_response)"
    "sv_upstream s1 = [(''http://up'', ''tenant'', ''data'')]"
    using example_route_at [OF up, of "Suc 0"] by blast
  have now: "read_now (sv_world example_server) = (100 * Second, ?w)"
    by (simp add: example_server_def read_now_def still_world_def Second_def)
  have auth: "AuthorizeClient example_jose (jwtAuthorizer example_tc) (100 * Second) ''token'' = Inr (Some ?c)"
    using example_client_accepted [of "[]"] by (simp add: jwtAuthorizer_def example_tc_def issuer_def audience_def Let_def)
  have op: "so_clusterIDKey example_options = ''_id''" "so_Ratelimit example_options = 10" "so_LimitBytes example_options = 0"
    "so_TenantID example_options = ''tenant''" "tc_forwardURL example_tc = ''http://up''" "wx_upload example_world = example_ext"
    "wx_newLimiter example_world = bucket_new" "wx_allowN example_world = bucket_allow" "wx_jose example_world = example_jose"
    "tm_server example_boot = example_server" "tm_limits example_boot = Map.empty" "rq_method example_bearer = ''POST''"
    by (simp_all add: example_options_def example_tc_def example_world_def example_boot_def Let_def example_bearer_def example_request_def)
  show ?thesis
    using run by (simp add: external_def upload_handler_def tm_now_def op now NewAuthorizeClientHandler_def example_bearer_token auth)
qed

lemma example_conditions:
  "codec_roundtrip (wx_upload example_world)" "sort_contract label_less (x_sortLabels (wx_upload example_world))"
  "so_clusterIDKey example_options \<noteq> []" "so_clusterIDKey example_options \<noteq> nameLabelName"
  "so_clusterIDKey example_options \<notin> set (so_ElideLabels example_options)"
  "so_clusterIDKey example_options \<notin> fst ` set (tc_labels example_tc)"
  using example_codec label_order.insertion_sort_contract
  by (simp_all add: example_world_def example_options_def example_tc_def nameLabelName_def Let_def example_ext_def)


text \<open>
  C21: starting up.  The telemeter server never panics: it parses its rules before it
  builds the receiver, so the receiver always exists.  rhelemeter has no such check, and panics
  exactly if its flags and certificate configuration are fine and some whitelist rule does not
  parse: the error of \<^verbatim>\<open>receive.NewHandler\<close> is only logged, and the nil receiver is used.
\<close>

theorem startup_outcomes:
  "(\<exists>res. server_Run sx op = Ret res) \<and>
   (rhelemeter_Run sx um rop = Panic NilDeref \<longleftrightarrow>
     (\<exists>labels required conf. label_flags [] (ro_LabelFlag rop) = Inr labels \<and>
        label_flags [] (ro_RequiredLabelFlag rop) = Inr required \<and>
        client_cert_config sx um (ro_ClientInfoFromRequestConfigFile rop) = Inr conf) \<and>
     list_ex (\<lambda>rule. \<exists>e. sx_parseRule sx rule = Inl e) (ro_Whitelist rop))"
  by (simp add: server_Run_Ret rhelemeter_panics list_ex_iff)

text \<open>
  C22: without an authorization URL, which the server does not require, the receive path
  panics on every request with a well-formed bearer token: the URL is nil, and
  \<^verbatim>\<open>AgainstEndpoint\<close> calls its \<^verbatim>\<open>String\<close>.
\<close>

theorem receive_without_authorize_url:
  assumes "server_Run sx op = Ret (Inr cfg)" and "so_AuthorizeEndpoint op = []"
    and "v2_token r = Some token" and "so_TenantKey op = []"
  shows "external x op cfg other uid ''/metrics/v1/receive'' s r = Panic NilDeref"
  using server_Run_config(3) [OF assms(1)] assms(2-4)
  by (simp add: external_def receive_handler_def NewHandler_eq)

text \<open>The example server without an authorization service, and without rules.\<close>

lemma example_starts_open:
  "server_Run example_sx (example_options\<lparr>so_AuthorizeEndpoint := []\<rparr>) = Ret (Inr (example_tc\<lparr>tc_authorizeURL := None\<rparr>))"
proof -
  let ?op = "example_options\<lparr>so_AuthorizeEndpoint := []\<rparr>"
  have "TrimSpace ''a'' = ''a''" by (simp add: TrimSpace_plain plain_char_def)
  then have rules: "whitelist_rules example_sx ?op = Inr [''a'']"
    by (simp add: whitelist_rules_def example_options_def with_file_def normalize_rules_exact)
  have key: "shared_key example_sx ?op = Inr (ECDSA P256 1, 7)" "check_pairs ?op = None"
    "parse_authorize example_sx ?op = Inr None"
    by (simp_all add: shared_key_def check_pairs_def parse_authorize_def example_options_def example_sx_def)
  have wl: "NewWhitelist (sx_parseRule example_sx) [''a''] = Inr (tc_whitelist example_tc)"
    by (simp add: example_sx_def example_tc_def Let_def)
  have flags: "so_LabelFlag ?op = []" "so_RequiredLabelFlag ?op = []" "so_ForwardURL ?op = ''http://up''" "sx_parseURL example_sx u = Inr u"
    for u by (simp_all add: example_options_def example_sx_def)
  show ?thesis
    unfolding server_Run_def flags
    by (simp add: rules key wl whitelist_receiver [OF wl] del: NewWhitelist.simps) (simp add: example_tc_def Let_def)
qed

theorem receive_without_authorize_url_witness:
  "server_Run example_sx (example_options\<lparr>so_AuthorizeEndpoint := []\<rparr>) = Ret (Inr (example_tc\<lparr>tc_authorizeURL := None\<rparr>)) \<and>
   external example_world (example_options\<lparr>so_AuthorizeEndpoint := []\<rparr>) (example_tc\<lparr>tc_authorizeURL := None\<rparr>)
     (\<lambda>p r. empty_response) 0 ''/metrics/v1/receive'' example_boot example_remote_request = Panic NilDeref"
proof -
  have "so_TenantKey (example_options\<lparr>so_AuthorizeEndpoint := []\<rparr>) = []" by (simp add: example_options_def)
  from receive_without_authorize_url [OF example_starts_open _ example_v2_token this] show ?thesis
    by (simp add: example_starts_open)
qed

lemma no_rules_config:
  assumes "server_Run sx op = Ret (Inr cfg)" and "so_Whitelist op = []" and "so_WhitelistFile op = []"
  shows "tc_whitelist cfg = []"
  using server_Run_config(1) [OF assms(1)] assms(2,3)
  by (auto simp: whitelist_rules_def with_file_def normalize_rules_exact)


lemma example_starts_without_rules:
  "server_Run example_sx (example_options\<lparr>so_Whitelist := []\<rparr>) =
     Ret (Inr (example_tc\<lparr>tc_whitelist := [], tc_receiver := (tc_receiver example_tc)\<lparr>rv_matcherSets := []\<rparr>\<rparr>))"
proof -
  let ?op = "example_options\<lparr>so_Whitelist := []\<rparr>"
  have "whitelist_rules example_sx ?op = Inr []"
    by (simp add: whitelist_rules_def with_file_def normalize_rules_exact example_options_def)
  moreover have "shared_key example_sx ?op = Inr (ECDSA P256 1, 7)" "check_pairs ?op = None"
    "parse_authorize example_sx ?op = Inr (Some ''http://auth'')"
    by (simp_all add: shared_key_def check_pairs_def parse_authorize_def example_options_def example_sx_def)
  moreover have "so_LabelFlag ?op = []" "so_RequiredLabelFlag ?op = []" "so_ForwardURL ?op = ''http://up''" "sx_parseURL example_sx u = Inr u"
    for u by (simp_all add: example_options_def example_sx_def)
  ultimately show ?thesis
    by (simp add: server_Run_def receive_NewHandler_def) (simp add: example_tc_def Let_def)
qed

lemma example_drops:
  "\<exists>s'. external example_world (example_options\<lparr>so_Whitelist := []\<rparr>)
      (example_tc\<lparr>tc_whitelist := [], tc_receiver := (tc_receiver example_tc)\<lparr>rv_matcherSets := []\<rparr>\<rparr>) other uid ''/upload''
      (example_boot\<lparr>tm_server := example_server\<lparr>sv_base := Some (server_transforms [] [] [])\<rparr>\<rparr>) example_bearer = Ret (s', empty_response)"
proof -
  let ?c = "\<lparr>cl_ID = ''account'', cl_Labels = [(''_id'', ''c1'')]\<rparr>" and ?s = "example_server\<lparr>sv_base := Some (server_transforms [] [] [])\<rparr>"
  let ?w = "\<lambda>n. (still_world 100000000000)\<lparr>w_ticks := n\<rparr>" and ?r = "WithClient example_bearer (Some ?c)"
  have up: "example_upload ?r"
    by (simp add: example_upload_def WithClient_def example_bearer_def example_request_def)
  obtain w' t' where ch: "Filter (transform_step example_env)
     ((still_world 100000000000)\<lparr>w_ticks := Suc (Suc (Suc 0))\<rparr>, upload_chain (NewErrorOnUnsorted True) [(''_id'', ''c1'')] (- 86300000)
        (server_transforms [] [] [])) [Some (counter_family ''up'' [Some (example_metric 99000)])] = Ret ((w', t'), [None], None)"
    using example_chain [of "[]" "Suc (Suc (Suc 0))"] by auto
  have enc: "encode_all example_encode [None] = Some []" by simp
  have V: "Validate example_ext (24 * Hour) 0 nxt (?s\<lparr>sv_world := ?w (Suc (Suc 0))\<rparr>) (WithClusterID ?r ''c1'') =
     nxt (example_server\<lparr>sv_world := w', sv_base := base_after (Some (server_transforms [] [] [])) t'\<rparr>)
       ((WithClusterID ?r ''c1'')\<lparr>rq_body := buffer []\<rparr>)" for nxt
    by (rule example_validated [OF up enc ch, where s = example_server])
  have fwd: "\<exists>s'. ForwardHandler example_ext url tenant s ((WithClusterID r ''c1'')\<lparr>rq_body := buffer []\<rparr>) = Ret (s', empty_response)"
    for url tenant s r
    by (simp add: ForwardHandler_def ClusterIDFromContext_def WithClusterID_def example_ext_def example_decode_def
        Pack_filter convertToTimeseries_def case_prod_unfold Let_def)
  have now: "read_now (?w n) = (100 * Second, ?w (Suc n))" for n
    by (simp add: read_now_def still_world_def Second_def)
  have w0: "sv_world example_server = ?w 0" by (simp add: example_server_def still_world_def)
  have auth: "AuthorizeClient example_jose (jwtAuthorizer (example_tc\<lparr>tc_whitelist := [], tc_receiver := rcv\<rparr>)) (100 * Second) ''token'' = Inr (Some ?c)" for rcv
    using example_client_accepted [of "[]"] by (simp add: jwtAuthorizer_def example_tc_def issuer_def audience_def Let_def)
  have op: "so_clusterIDKey example_options = ''_id''" "so_Ratelimit example_options = 10" "so_LimitBytes example_options = 0"
    "so_TenantID example_options = ''tenant''" "tc_forwardURL example_tc = ''http://up''" "wx_upload example_world = example_ext"
    "wx_newLimiter example_world = bucket_new" "wx_allowN example_world = bucket_allow" "wx_jose example_world = example_jose"
    "tm_limits example_boot = Map.empty" "rq_method example_bearer = ''POST''" "x_snappyReader example_ext = (\<lambda>b. b)"
    by (simp_all add: example_options_def example_tc_def example_world_def example_boot_def Let_def example_bearer_def
        example_request_def example_ext_def)
  have sn: "(WithClusterID ?r ''c1'')\<lparr>rq_body := rq_body ?r\<rparr> = WithClusterID ?r ''c1''" by (simp add: WithClusterID_def)
  have ctx: "FromContext ?r = (Some ?c, True)" by simp
  let ?s1 = "example_server\<lparr>sv_world := w', sv_base := base_after (Some (server_transforms [] [] [])) t'\<rparr>"
  obtain s' where "ForwardHandler example_ext ''http://up'' ''tenant'' ?s1 ((WithClusterID ?r ''c1'')\<lparr>rq_body := buffer []\<rparr>) =
      Ret (s', empty_response)" using fwd by blast
  then show ?thesis
    by (simp add: external_def upload_handler_def tm_now_def Let_def op now w0 NewAuthorizeClientHandler_def example_bearer_token auth
        upload_route_def ClusterID_def ctx map_get_def Ratelimit_def limit_def bucket_new_def bucket_allow_def Snappy_eq sn V)
qed


end
