(* ===== verification/Benchmark.thy ===== *)
theory Benchmark
  imports Forwarder
begin

text \<open>
  \<^verbatim>\<open>pkg/benchmark/benchmark.go\<close> and \<^verbatim>\<open>cmd/telemeter-benchmark/main.go\<close>: workers that send
  randomized copies of recorded families to a server.  The locking between their loop and its
  reconfiguration is in \<open>Benchmark_Loop\<close>.
\<close>

section \<open>Configuration\<close>

record bench_config =
  bc_ToAuthorize :: "url option"
  bc_ToUpload :: "url option"
  bc_ToCAFile :: string
  bc_ToToken :: string
  bc_ToTokenFile :: string
  bc_Interval :: duration
  bc_MetricsFile :: string
  bc_Workers :: int

record bench_worker =
  bw_client :: metrics_client
  bw_id :: string
  bw_interval :: duration
  bw_metrics :: "family list"
  bw_to :: "url option"
  bw_token :: "(string \<times> url) option"
  bw_transformer :: transformer

datatype bench_err =
    BenchTokenFile string
  | BenchToken
  | BenchMetricsFile string
  | BenchCerts string
  | BenchCAFile string
  | BenchRewind string
  | BenchParse string
  | BenchClose string

text \<open>
  Parameters: the file system, opening, rewinding, decoding and closing the file of metrics (an error
  text or none), \<^verbatim>\<open>uuid.New\<close> for each worker, and \<^verbatim>\<open>url.Parse\<close> on the text of a URL.
\<close>

record bench_files =
  bf_files :: files
  bf_open :: "string \<Rightarrow> string option"
  bf_seek :: "nat \<Rightarrow> string option"
  bf_decode :: "string \<Rightarrow> family list \<times> string option"
  bf_close :: "string option"
  bf_uuid :: "nat \<Rightarrow> string"
  bf_reparse :: "url \<Rightarrow> url option"

definition DefaultSyncPeriod :: duration where "DefaultSyncPeriod = 4 * Minute + 30 * Second"
definition LimitBytes :: int where "LimitBytes = 200 * 1024"

text \<open>The worker with index \<open>i\<close>; a URL whose text does not parse again is a panic.\<close>

definition new_worker :: "bench_files \<Rightarrow> bench_config \<Rightarrow> duration \<Rightarrow> nat \<Rightarrow> (bench_err + bench_worker) go" where
  "new_worker fs cfg interval i =
     (case bf_seek fs i of
        Some e \<Rightarrow> Ret (Inl (BenchRewind e))
      | None \<Rightarrow>
          (case bf_decode fs (bc_MetricsFile cfg) of
             (_, Some e) \<Rightarrow> Ret (Inl (BenchParse e))
           | (metrics, None) \<Rightarrow>
               (let w = \<lparr>bw_client = \<lparr>cl_maxBytes = LimitBytes, cl_metricsName = ''federate_to''\<rparr>, bw_id = bf_uuid fs i,
                         bw_interval = interval, bw_metrics = metrics, bw_to = bc_ToUpload cfg, bw_token = None,
                         bw_transformer = Multi [] []\<rparr>
                in if length (bc_ToToken cfg) > 0
                   then go_bind (deref (bc_ToAuthorize cfg)) (\<lambda>url.
                          (case bf_reparse fs url of
                             None \<Rightarrow> Panic Explicit
                           | Some u \<Rightarrow>
                               Ret (Inr (w\<lparr>bw_token := Some (bc_ToToken cfg, u\<lparr>ur_Query := ur_Query u @ [(''id'', bw_id w)]\<rparr>),
                                          bw_transformer := With (Some (Basic (T_Label (NewLabel [] True)))) (Multi [] [])\<rparr>))))
                   else Ret (Inr w))))"

fun new_workers :: "bench_files \<Rightarrow> bench_config \<Rightarrow> duration \<Rightarrow> nat list \<Rightarrow> (bench_err + bench_worker list) go" where
  "new_workers fs cfg interval [] = Ret (Inr [])"
| "new_workers fs cfg interval (i # is) =
     go_bind (new_worker fs cfg interval i) (\<lambda>res.
       (case res of
          Inl e \<Rightarrow> Ret (Inl e)
        | Inr w \<Rightarrow>
            go_bind (new_workers fs cfg interval is) (\<lambda>rest.
              Ret (case rest of Inl e \<Rightarrow> Inl e | Inr ws \<Rightarrow> Inr (w # ws)))))"

definition bench_certs :: "bench_files \<Rightarrow> bench_config \<Rightarrow> bench_err option" where
  "bench_certs fs cfg =
     (if length (bc_ToCAFile cfg) > 0 then
        (case fs_certPool (bf_files fs) of
           Some e \<Rightarrow> Some (BenchCerts e)
         | None \<Rightarrow> (case fs_read (bf_files fs) (bc_ToCAFile cfg) of Inl e \<Rightarrow> Some (BenchCAFile e) | Inr data \<Rightarrow> None))
      else None)"

text \<open>
  \<^verbatim>\<open>New\<close>.  It stores the token it reads in the configuration it is given, which the result
  therefore contains.  \<^verbatim>\<open>make\<close> panics on a negative number of workers.
\<close>

definition bench_New :: "bench_files \<Rightarrow> bench_config \<Rightarrow> (bench_config \<times> (bench_err + bench_worker list)) go" where
  "bench_New fs cfg =
     (if bc_Workers cfg < 0 then Panic InvalidArgument
      else
        (let interval = (if bc_Interval cfg = 0 then DefaultSyncPeriod else bc_Interval cfg)
         in (case value_or_file (bf_files fs) (bc_ToToken cfg) (bc_ToTokenFile cfg) of
               Inl e \<Rightarrow> Ret (cfg, Inl (BenchTokenFile e))
             | Inr token \<Rightarrow>
                 (let cfg1 = cfg\<lparr>bc_ToToken := token\<rparr>
                  in if (length token > 0) \<noteq> (bc_ToAuthorize cfg1 \<noteq> None) then Ret (cfg1, Inl BenchToken)
                     else (case bf_open fs (bc_MetricsFile cfg1) of
                             Some e \<Rightarrow> Ret (cfg1, Inl (BenchMetricsFile e))
                           | None \<Rightarrow>
                               (case bench_certs fs cfg1 of
                                  Some e \<Rightarrow> Ret (cfg1, Inl e)
                                | None \<Rightarrow>
                                    go_bind (new_workers fs cfg1 interval [0..<nat (bc_Workers cfg1)]) (\<lambda>res.
                                      Ret (cfg1, (case res of
                                         Inl e \<Rightarrow> Inl e
                                       | Inr ws \<Rightarrow> (case bf_close fs of Some e \<Rightarrow> Inl (BenchClose e) | None \<Rightarrow> Inr ws))))))))))"

text \<open>The command: its URLs are found like those of the client, without an identifier.\<close>

record bench_options =
  bo_To :: string
  bo_ToAuthorize :: string
  bo_ToUpload :: string
  bo_ToCAFile :: string
  bo_ToToken :: string
  bo_ToTokenFile :: string
  bo_Interval :: duration
  bo_MetricsFile :: string
  bo_Workers :: int

datatype bench_options_err = NoMetricsFile | BadDestination options_err

definition runCmd :: "(string \<Rightarrow> string + url) \<Rightarrow> bench_options \<Rightarrow> bench_options_err + bench_config" where
  "runCmd parse op =
     (if length (bo_MetricsFile op) = 0 then Inl NoMetricsFile
      else (case destinations parse \<lparr>co_From = [], co_To = bo_To op, co_ToUpload = bo_ToUpload op,
                    co_ToAuthorize = bo_ToAuthorize op, co_Identifier = [], co_LabelFlag = [], co_RenameFlag = []\<rparr> of
              Inl e \<Rightarrow> Inl (BadDestination e)
            | Inr (auth, upload) \<Rightarrow>
                Inr \<lparr>bc_ToAuthorize = Some auth, bc_ToUpload = Some upload, bc_ToCAFile = bo_ToCAFile op,
                     bc_ToToken = bo_ToToken op, bc_ToTokenFile = bo_ToTokenFile op, bc_Interval = bo_Interval op,
                     bc_MetricsFile = bo_MetricsFile op, bc_Workers = bo_Workers op\<rparr>))"

section \<open>Generating families\<close>

text \<open>
  The source of random numbers is a state \<open>'g\<close>.  \<open>rn_scale\<close> is \<^verbatim>\<open>math.Round(rand.Float64() * v)\<close>,
  \<open>rn_succ\<close> the sum of a float and 1, \<open>rn_coin\<close> is \<^verbatim>\<open>rand.Intn(2) == 1\<close>.
\<close>

record 'g random =
  rn_int63n :: "'g \<Rightarrow> int \<Rightarrow> int \<times> 'g"
  rn_scale :: "'g \<Rightarrow> float64 \<Rightarrow> float64 \<times> 'g"
  rn_coin :: "'g \<Rightarrow> bool \<times> 'g"
  rn_succ :: "float64 \<Rightarrow> float64"

definition Int63n :: "'g random \<Rightarrow> 'g \<Rightarrow> int \<Rightarrow> (int \<times> 'g) go" where
  "Int63n rn g n = (if n \<le> 0 then Panic InvalidArgument else Ret (rn_int63n rn g n))"

definition float_value :: "float64 option \<Rightarrow> float64" where
  "float_value v = (case v of None \<Rightarrow> 0 | Some x \<Rightarrow> x)"

definition randomize :: "'g random \<Rightarrow> 'g \<Rightarrow> metric \<Rightarrow> metric \<times> 'g" where
  "randomize rn g m0 =
     (let (m1, g1) = (case m_Untyped m0 of
            None \<Rightarrow> (m0, g)
          | Some v \<Rightarrow> (let (f, g') = rn_scale rn g (float_value (u_Value v)) in (m0\<lparr>m_Untyped := Some (v\<lparr>u_Value := Some f\<rparr>)\<rparr>, g')));
          (m2, g2) = (case m_Gauge m1 of
            None \<Rightarrow> (m1, g1)
          | Some v \<Rightarrow> (let (f, g') = rn_scale rn g1 (float_value (g_Value v)) in (m1\<lparr>m_Gauge := Some (v\<lparr>g_Value := Some f\<rparr>)\<rparr>, g')))
      in (case m_Counter m2 of
            None \<Rightarrow> (m2, g2)
          | Some v \<Rightarrow>
              (let (heads, g') = rn_coin rn g2
               in (if heads then m2\<lparr>m_Counter := Some (v\<lparr>c_Value := Some (rn_succ rn (float_value (c_Value v)))\<rparr>)\<rparr> else m2, g'))))"

fun gen_metrics :: "'g random \<Rightarrow> duration \<Rightarrow> int \<Rightarrow> 'g \<Rightarrow> metric option list \<Rightarrow> (metric option list \<times> 'g) go" where
  "gen_metrics rn interval now g [] = Ret ([], g)"
| "gen_metrics rn interval now g (m # ms) =
     go_bind (deref m) (\<lambda>m0.
       let (m1, g1) = randomize rn g m0
       in go_bind (Int63n rn g1 (trunc_div interval Millisecond)) (\<lambda>(r, g2).
            go_bind (gen_metrics rn interval now g2 ms) (\<lambda>(out, g3).
              Ret (Some (m1\<lparr>m_TimestampMs := Some (wrap64 (now - r))\<rparr>) # out, g3))))"

text \<open>The order \<^verbatim>\<open>sort.Slice\<close> is called with.\<close>

definition stamp_less :: "metric option \<Rightarrow> metric option \<Rightarrow> bool" where
  "stamp_less a b = (GetTimestampMs a < GetTimestampMs b)"

fun gen_families ::
  "'g random \<Rightarrow> (metric option list \<Rightarrow> metric option list) \<Rightarrow> duration \<Rightarrow> int \<Rightarrow> 'g \<Rightarrow> family list \<Rightarrow> (family list \<times> 'g) go" where
  "gen_families rn srt interval now g [] = Ret ([], g)"
| "gen_families rn srt interval now g (f # fs) =
     go_bind (gen_metrics rn interval now g (f_Metric f)) (\<lambda>(ms, g1).
       go_bind (gen_families rn srt interval now g1 fs) (\<lambda>(out, g2).
         Ret (f\<lparr>f_Metric := srt ms\<rparr> # out, g2)))"

definition generate ::
  "'g random \<Rightarrow> (metric option list \<Rightarrow> metric option list) \<Rightarrow> bench_worker \<Rightarrow> world \<times> 'g \<Rightarrow>
   (family option list \<times> world \<times> 'g) go" where
  "generate rn srt w = (\<lambda>(wd, g).
     (let (t, wd1) = read_now wd
      in go_bind (gen_families rn srt (bw_interval w) (trunc_div (UnixNano t) Millisecond) g (bw_metrics w))
           (\<lambda>(fs, g1). Ret (map Some fs, wd1, g1))))"

section \<open>A worker\<close>

record ('u, 'g) bench_state =
  be_worker :: bench_worker
  be_world :: world
  be_random :: 'g
  be_counts :: metrics_counts
  be_remote :: 'u
  be_samples :: nat
  be_errors :: nat

text \<open>\<^verbatim>\<open>forward\<close> filters the slice of its caller in place, which is part of the result.\<close>

definition bench_forward ::
  "env \<Rightarrow> 'u metrics_ext \<Rightarrow> deadline \<Rightarrow> ('u, 'g) bench_state \<Rightarrow> family option list \<Rightarrow>
   (('u, 'g) bench_state \<times> family option list \<times> forward_err option) go" where
  "bench_forward e x d s metrics =
     (case bw_to (be_worker s) of
        None \<Rightarrow> Ret (s, metrics, None)
      | Some to \<Rightarrow>
          go_bind (Filter (transform_step e) (be_world s, bw_transformer (be_worker s)) metrics) (\<lambda>((wd, t), out, err).
            let s1 = s\<lparr>be_world := wd, be_worker := (be_worker s)\<lparr>bw_transformer := t\<rparr>\<rparr>
            in (case err of
                  Some te \<Rightarrow> Ret (s1, out, Some (TransformFailed te))
                | None \<Rightarrow>
                    if length out = 0 then Ret (s1, out, None)
                    else (case Send x (bw_client (be_worker s1)) d to out (be_counts s1, be_remote s1) of
                            ((m, up), err') \<Rightarrow> Ret (s1\<lparr>be_counts := m, be_remote := up\<rparr>, out, map_option FetchFailed err')))))"

text \<open>\<^verbatim>\<open>len(m[i].Metric)\<close> for all entries of the slice.\<close>

fun count_metrics :: "family option list \<Rightarrow> nat go" where
  "count_metrics [] = Ret 0"
| "count_metrics (f # fs) =
     go_bind (deref f) (\<lambda>fam. go_bind (count_metrics fs) (\<lambda>n. Ret (length (f_Metric fam) + n)))"

text \<open>One turn of \<^verbatim>\<open>run\<close> and how long it waits afterwards.\<close>

definition bench_turn ::
  "'g random \<Rightarrow> (metric option list \<Rightarrow> metric option list) \<Rightarrow> env \<Rightarrow> 'u metrics_ext \<Rightarrow> deadline \<Rightarrow> ('u, 'g) bench_state \<Rightarrow>
   (('u, 'g) bench_state \<times> duration) go" where
  "bench_turn rn srt e x d s =
     go_bind (generate rn srt (be_worker s) (be_world s, be_random s)) (\<lambda>(metrics, wd, g).
       go_bind (bench_forward e x d (s\<lparr>be_world := wd, be_random := g\<rparr>) metrics) (\<lambda>(s1, out, err).
         let (s2, wait) = (case err of
               None \<Rightarrow> (s1, bw_interval (be_worker s1))
             | Some _ \<Rightarrow> (s1\<lparr>be_errors := Suc (be_errors s1)\<rparr>, Minute))
         in go_bind (count_metrics out) (\<lambda>n. Ret (s2\<lparr>be_samples := be_samples s2 + n\<rparr>, wait))))"

text \<open>The loop, with how the \<^verbatim>\<open>select\<close> of each turn ends, as in \<open>Run\<close> of the client.\<close>

fun bench_run ::
  "'g random \<Rightarrow> (metric option list \<Rightarrow> metric option list) \<Rightarrow> env \<Rightarrow> 'u metrics_ext \<Rightarrow> (deadline \<times> bool) list \<Rightarrow>
   ('u, 'g) bench_state \<Rightarrow> (('u, 'g) bench_state \<times> duration list \<times> bool) go" where
  "bench_run rn srt e x [] s = Ret (s, [], False)"
| "bench_run rn srt e x ((d, cancelled) # ds) s =
     go_bind (bench_turn rn srt e x d s) (\<lambda>(s1, wait).
       if cancelled then Ret (s1, [wait], True)
       else go_bind (bench_run rn srt e x ds s1) (\<lambda>(s2, waits, fin). Ret (s2, wait # waits, fin)))"


section \<open>Lemmas\<close>

subsection \<open>What is generated\<close>

definition int63n_contract :: "'g random \<Rightarrow> bool" where
  "int63n_contract rn \<longleftrightarrow> (\<forall>g n. 0 < n \<longrightarrow> 0 \<le> fst (rn_int63n rn g n) \<and> fst (rn_int63n rn g n) < n)"

lemma randomize_keeps:
  "m_Label (fst (randomize rn g m)) = m_Label m" "m_TimestampMs (fst (randomize rn g m)) = m_TimestampMs m"
  "m_Summary (fst (randomize rn g m)) = m_Summary m" "m_Histogram (fst (randomize rn g m)) = m_Histogram m"
  by (simp_all add: randomize_def Let_def case_prod_unfold split: option.split)

text \<open>Generation works exactly for metrics that are there and an interval of a millisecond or more.\<close>

lemma gen_metrics_total:
  "0 < trunc_div interval Millisecond \<Longrightarrow> None \<notin> set ms \<Longrightarrow> \<exists>out g'. gen_metrics rn interval now g ms = Ret (out, g')"
proof (induction ms arbitrary: g)
  case (Cons m ms)
  from Cons.prems obtain m0 where m: "m = Some m0" by (cases m) auto
  obtain m1 g1 where r: "randomize rn g m0 = (m1, g1)" by force
  obtain v g2 where v: "rn_int63n rn g1 (trunc_div interval Millisecond) = (v, g2)" by force
  from Cons.IH [of g2] Cons.prems obtain out g3 where "gen_metrics rn interval now g2 ms = Ret (out, g3)" by auto
  with Cons.prems m r v show ?case by (simp add: Int63n_def)
qed simp

lemma gen_metrics_panics:
  "trunc_div interval Millisecond \<le> 0 \<Longrightarrow> None \<notin> set ms \<Longrightarrow> ms \<noteq> [] \<Longrightarrow>
     gen_metrics rn interval now g ms = Panic InvalidArgument"
  by (cases ms; cases "hd ms") (auto simp: Int63n_def Let_def case_prod_unfold)

text \<open>A generated metric: the recorded one but for its values, and with a recent timestamp.\<close>

definition fresh_copy :: "int \<Rightarrow> int \<Rightarrow> metric option \<Rightarrow> metric option \<Rightarrow> bool" where
  "fresh_copy now n m0 m \<longleftrightarrow>
     (\<exists>x0 x t. m0 = Some x0 \<and> m = Some x \<and> m_Label x = m_Label x0 \<and> m_TimestampMs x = Some t \<and> now - n < t \<and> t \<le> now)"

lemma gen_metrics_fresh:
  assumes "int63n_contract rn" and "0 \<le> now - trunc_div interval Millisecond" and "now < 2 ^ 63"
  shows "gen_metrics rn interval now g ms = Ret (out, g') \<Longrightarrow> list_all2 (fresh_copy now (trunc_div interval Millisecond)) ms out"
proof (induction ms arbitrary: g out)
  case (Cons m ms)
  let ?n = "trunc_div interval Millisecond"
  from Cons.prems obtain m0 where m: "m = Some m0" by (cases m) auto
  obtain m1 g1 where r: "randomize rn g m0 = (m1, g1)" by force
  from Cons.prems m r have n: "0 < ?n" by (auto simp: Int63n_def split: if_splits)
  obtain v g2 where v: "rn_int63n rn g1 ?n = (v, g2)" by force
  have "0 \<le> fst (rn_int63n rn g1 ?n)" and "fst (rn_int63n rn g1 ?n) < ?n"
    using assms(1) n by (simp_all add: int63n_contract_def)
  then have range: "0 \<le> v" "v < ?n" using v by simp_all
  then have "wrap64 (now - v) = now - v" using assms(2,3) by (simp add: wrap64_def)
  moreover from Cons.prems m r n v obtain rest where "gen_metrics rn interval now g2 ms = Ret (rest, g')"
    and out: "out = Some (m1\<lparr>m_TimestampMs := Some (wrap64 (now - v))\<rparr>) # rest"
    by (auto simp: Int63n_def go_bind_eq_Ret)
  moreover have "m_Label m1 = m_Label m0" using randomize_keeps(1) [of rn g m0] r by simp
  ultimately show ?case using Cons.IH range m by (auto simp: fresh_copy_def)
qed simp

interpretation by_stamp: strict_weak_order stamp_less
  by unfold_locales (auto simp: stamp_less_def)

lemma stamps_in_order:
  assumes "sorted_by stamp_less ms" and "\<forall>m \<in> set ms. \<exists>x t. m = Some x \<and> m_TimestampMs x = Some t \<and> 0 \<le> t"
  shows "in_order_from 0 (somes ms) \<and> (\<forall>m \<in> set (somes ms). m_TimestampMs m \<noteq> None)"
proof -
  have "sorted_wrt (\<lambda>a b. GetTimestampMs a \<le> GetTimestampMs b) ms"
    using assms(1) by (simp add: sorted_by_def stamp_less_def not_less)
  moreover have "map Some (somes ms) = ms"
    unfolding map_Some_somes using assms(2) by (intro filter_True) blast
  ultimately have "sorted_wrt (\<lambda>a b. GetTimestampMs a \<le> GetTimestampMs b) (map Some (somes ms))" by simp
  then have "sorted_wrt (\<lambda>a b. sample_ts a \<le> sample_ts b) (somes ms)"
    by (simp only: sorted_wrt_map GetTimestampMs_simps sample_ts_def)
  then have "sorted (map sample_ts (somes ms))" by (simp only: sorted_map)
  moreover have "\<forall>m \<in> set (somes ms). \<exists>t. m_TimestampMs m = Some t \<and> 0 \<le> t"
    using assms(2) by (fastforce simp: set_somes)
  ultimately show ?thesis by (fastforce simp: in_order_from_def sample_ts_def)
qed

lemma generated_family:
  assumes "sort_contract stamp_less srt" and "list_all2 (fresh_copy now n) ms0 ms" and "0 \<le> now - n"
  shows "in_order_from 0 (somes (srt ms)) \<and> (\<forall>m \<in> set (somes (srt ms)). m_TimestampMs m \<noteq> None)"
proof (rule stamps_in_order)
  show "sorted_by stamp_less (srt ms)" using assms(1) by (rule by_stamp.sort_contract_sorted)
  have "\<forall>m \<in> set ms. \<exists>x t. m = Some x \<and> m_TimestampMs x = Some t \<and> 0 \<le> t"
    using assms(2,3) by (induction rule: list_all2_induct) (auto simp: fresh_copy_def)
  then show "\<forall>m \<in> set (srt ms). \<exists>x t. m = Some x \<and> m_TimestampMs x = Some t \<and> 0 \<le> t"
    by (simp add: by_stamp.sort_contract_set [OF assms(1)])
qed

text \<open>What becomes of a recorded family: \<open>ms\<close> are the copies of its metrics before they are sorted.\<close>

definition generated :: "int \<Rightarrow> int \<Rightarrow> family \<Rightarrow> family \<Rightarrow> bool" where
  "generated now n f0 f \<longleftrightarrow>
     (\<exists>ms. list_all2 (fresh_copy now n) (f_Metric f0) ms \<and> f_Name f = f_Name f0 \<and> f_Type f = f_Type f0 \<and>
        mset (f_Metric f) = mset ms \<and> sorted_by stamp_less (f_Metric f))"

lemma gen_families_fresh:
  assumes "int63n_contract rn" and "0 \<le> now - trunc_div interval Millisecond" and "now < 2 ^ 63"
    and "sort_contract stamp_less srt"
  shows "gen_families rn srt interval now g fs = Ret (out, g') \<Longrightarrow>
    list_all2 (\<lambda>f0 f. generated now (trunc_div interval Millisecond) f0 f \<and>
      (\<exists>u. errorOnUnsorted_Transform (NewErrorOnUnsorted True) (Some f) = Ret (u, Some f, True, None))) fs out"
proof (induction fs arbitrary: g out)
  case (Cons f fs)
  from Cons.prems obtain ms g1 rest where ms: "gen_metrics rn interval now g (f_Metric f) = Ret (ms, g1)"
    and rest: "gen_families rn srt interval now g1 fs = Ret (rest, g')" and out: "out = f\<lparr>f_Metric := srt ms\<rparr> # rest"
    by auto
  note fresh = gen_metrics_fresh [OF assms(1-3) ms]
  from generated_family [OF assms(4) fresh assms(2)]
  have "\<exists>u. errorOnUnsorted_Transform (NewErrorOnUnsorted True) (Some (f\<lparr>f_Metric := srt ms\<rparr>)) =
      Ret (u, Some (f\<lparr>f_Metric := srt ms\<rparr>), True, None)"
    by (auto simp: errorOnUnsorted_Transform_def NewErrorOnUnsorted_def case_prod_unfold Let_def unsorted_loop_None)
  moreover have "generated now (trunc_div interval Millisecond) f (f\<lparr>f_Metric := srt ms\<rparr>)"
    using fresh by_stamp.sort_contract_mset [OF assms(4)] by_stamp.sort_contract_sorted [OF assms(4)]
    by (auto simp: generated_def)
  ultimately show ?case using Cons.IH [OF rest] out by simp
qed simp

lemma gen_families_total:
  "0 < trunc_div interval Millisecond \<Longrightarrow> \<forall>f \<in> set fs. None \<notin> set (f_Metric f) \<Longrightarrow>
     \<exists>out g'. gen_families rn srt interval now g fs = Ret (out, g')"
proof (induction fs arbitrary: g)
  case (Cons f fs)
  from gen_metrics_total Cons.prems obtain ms g1 where "gen_metrics rn interval now g (f_Metric f) = Ret (ms, g1)"
    by (metis list.set_intros(1))
  with Cons.IH [of g1] Cons.prems show ?case by auto
qed simp

lemma gen_metrics_shape:
  "gen_metrics rn interval now g ms = Ret (out, g') \<Longrightarrow> length out = length ms \<and> None \<notin> set out"
proof (induction ms arbitrary: g out)
  case (Cons m ms)
  then show ?case by (cases m) (auto simp: Let_def case_prod_unfold)
qed simp

lemma gen_families_shape:
  assumes "sort_contract stamp_less srt"
  shows "gen_families rn srt interval now g fs = Ret (out, g') \<Longrightarrow>
    list_all2 (\<lambda>f0 f. length (f_Metric f) = length (f_Metric f0) \<and> None \<notin> set (f_Metric f)) fs out"
proof (induction fs arbitrary: g out)
  case (Cons f fs)
  have "length (srt ms) = length ms \<and> set (srt ms) = set ms" for ms
    using by_stamp.sort_contract_mset [OF assms] by_stamp.sort_contract_set [OF assms] by (metis size_mset)
  with Cons show ?case by (auto dest!: gen_metrics_shape)
qed simp

subsection \<open>A turn\<close>

text \<open>The transformer of a worker: none, or the one that adds the labels of its token.\<close>

definition bench_shape :: "transformer \<Rightarrow> bool" where
  "bench_shape t \<longleftrightarrow> t = Multi [] [] \<or> (\<exists>ls. t = Multi [] [Basic (T_Label ls)])"

definition same_size :: "family option \<Rightarrow> family option \<Rightarrow> bool" where
  "same_size a b \<longleftrightarrow> (\<exists>f g. a = Some f \<and> b = Some g \<and> length (f_Metric g) = length (f_Metric f))"

lemma bench_label_step:
  assumes "None \<notin> set (f_Metric f)"
  shows "\<exists>w' ls' g ok err. label_Transform ls w (Some f) = Ret (w', ls', Some g, ok, err) \<and>
    length (f_Metric g) = length (f_Metric f) \<and> (err = None \<longrightarrow> ok)"
proof -
  have "\<exists>ms. label_loop kvs (f_Metric f) = Ret ms \<and> length ms = length (f_Metric f)" for kvs
    using assms label_loop_Ret [of kvs "f_Metric f"] by auto
  then show ?thesis by (fastforce simp: label_Transform_def Let_def split: sum.split)
qed

lemma bench_step:
  assumes "bench_shape t" and "None \<notin> set (f_Metric f)"
  shows "\<exists>w' t' g ok err. Transform e w t (Some f) = Ret ((w', t'), Some g, ok, err) \<and> bench_shape t' \<and>
    length (f_Metric g) = length (f_Metric f) \<and> (err = None \<longrightarrow> ok)"
proof (cases "t = Multi [] []")
  case True
  then show ?thesis by (simp add: bench_shape_def) blast
next
  case False
  with assms(1) obtain ls where t: "t = Multi [] [Basic (T_Label ls)]" by (auto simp: bench_shape_def)
  from bench_label_step [OF assms(2), of ls w] obtain w' ls' g ok err where
    "label_Transform ls w (Some f) = Ret (w', ls', Some g, ok, err)" "length (f_Metric g) = length (f_Metric f)" "err = None \<longrightarrow> ok"
    by blast
  then show ?thesis by (cases ok; cases err) (auto simp: t bench_shape_def)
qed

lemma bench_filter:
  assumes "bench_shape t" and "\<forall>f \<in> set fs. None \<notin> set (f_Metric f)"
  shows "\<exists>w' t' out err. Filter (transform_step e) (w, t) (map Some fs) = Ret ((w', t'), out, err) \<and> bench_shape t' \<and>
    list_all2 same_size (map Some fs) out"
  using assms
proof (induction fs arbitrary: w t)
  case (Cons f fs)
  have refl: "list_all2 same_size (map Some fs) (map Some fs)" by (auto simp: list_all2_same same_size_def)
  from bench_step [OF Cons.prems(1), of f e w] Cons.prems(2) obtain w1 t1 g ok err where
    st: "Transform e w t (Some f) = Ret ((w1, t1), Some g, ok, err)" "bench_shape t1"
      "length (f_Metric g) = length (f_Metric f)" "err = None \<longrightarrow> ok" by auto
  have size: "same_size (Some f) (Some g)" using st(3) by (simp add: same_size_def)
  have step: "transform_step e (w, t) (Some f) = Ret ((w1, t1), Some g, ok, err)" using st(1) by (simp add: transform_step_def)
  show ?case
  proof (cases err)
    case (Some te)
    with step refl size st(2) show ?thesis by simp
  next
    case None
    from Cons.IH [OF st(2), of w1] Cons.prems(2) obtain w2 t2 out err' where
      "Filter (transform_step e) (w1, t1) (map Some fs) = Ret ((w2, t2), out, err')" "bench_shape t2"
      "list_all2 same_size (map Some fs) out" by auto
    with step None size st(4) show ?thesis by simp
  qed
qed simp

lemma count_same_size:
  "list_all2 same_size fs out \<Longrightarrow> count_metrics out = Ret (\<Sum>f\<leftarrow>somes fs. length (f_Metric f))"
  by (induction rule: list_all2_induct) (auto simp: same_size_def)

text \<open>A worker that runs without a panic.\<close>

definition bench_worker_ok :: "bench_worker \<Rightarrow> bool" where
  "bench_worker_ok w \<longleftrightarrow>
     bench_shape (bw_transformer w) \<and> Millisecond \<le> bw_interval w \<and> (\<forall>f \<in> set (bw_metrics w). None \<notin> set (f_Metric f))"

lemma bench_forward_total:
  assumes "bench_shape (bw_transformer (be_worker s))" and "\<forall>f \<in> set fs. None \<notin> set (f_Metric f)"
  shows "\<exists>s' out err t. bench_forward e x d s (map Some fs) = Ret (s', out, err) \<and> list_all2 same_size (map Some fs) out \<and>
    be_worker s' = (be_worker s)\<lparr>bw_transformer := t\<rparr> \<and> bench_shape t \<and> be_samples s' = be_samples s \<and> be_errors s' = be_errors s"
proof (cases "bw_to (be_worker s)")
  case None
  have "list_all2 same_size (map Some fs) (map Some fs)" by (auto simp: list_all2_same same_size_def)
  then show ?thesis using None assms(1)
    by (intro exI [of _ s] exI [of _ "map Some fs"] exI [of _ None] exI [of _ "bw_transformer (be_worker s)"])
      (simp add: bench_forward_def)
next
  case (Some to)
  from bench_filter [OF assms, of e "be_world s"] obtain wd t out err where
    f: "Filter (transform_step e) (be_world s, bw_transformer (be_worker s)) (map Some fs) = Ret ((wd, t), out, err)"
      "bench_shape t" "list_all2 same_size (map Some fs) out" by blast
  show ?thesis
  proof (cases "err = None \<and> out \<noteq> []")
    case False
    with Some f show ?thesis by (cases err) (auto simp: bench_forward_def Let_def)
  next
    case True
    let ?s1 = "s\<lparr>be_world := wd, be_worker := (be_worker s)\<lparr>bw_transformer := t\<rparr>\<rparr>"
    obtain m up err' where "Send x (bw_client (be_worker ?s1)) d to out (be_counts ?s1, be_remote ?s1) = ((m, up), err')"
      by (metis prod.exhaust)
    with True Some f show ?thesis by (auto simp: bench_forward_def Let_def)
  qed
qed

lemma bench_turn_total:
  assumes "bench_worker_ok (be_worker s)" and "sort_contract stamp_less srt"
  shows "\<exists>s' wait t. bench_turn rn srt e x d s = Ret (s', wait) \<and> be_worker s' = (be_worker s)\<lparr>bw_transformer := t\<rparr> \<and>
    bench_shape t \<and> be_samples s' = be_samples s + (\<Sum>f\<leftarrow>bw_metrics (be_worker s). length (f_Metric f)) \<and>
    (be_errors s' = be_errors s \<and> wait = bw_interval (be_worker s) \<or> be_errors s' = Suc (be_errors s) \<and> wait = Minute)"
proof -
  let ?w = "be_worker s"
  obtain t wd where now: "read_now (be_world s) = (t, wd)" by force
  let ?now = "trunc_div (UnixNano t) Millisecond"
  have "0 < trunc_div (bw_interval ?w) Millisecond"
    using assms(1) by (simp add: bench_worker_ok_def trunc_div_def Millisecond_def pos_imp_zdiv_pos_iff)
  from gen_families_total [OF this] assms(1) obtain fs g where
    gen: "gen_families rn srt (bw_interval ?w) ?now (be_random s) (bw_metrics ?w) = Ret (fs, g)"
    by (fastforce simp: bench_worker_ok_def)
  note shape = gen_families_shape [OF assms(2) gen]
  have sum: "(\<Sum>f\<leftarrow>fs. length (f_Metric f)) = (\<Sum>f\<leftarrow>bw_metrics ?w. length (f_Metric f))"
    using shape by (induction rule: list_all2_induct) auto
  have there: "\<forall>f \<in> set fs. None \<notin> set (f_Metric f)"
    using shape by (induction rule: list_all2_induct) auto
  let ?s = "s\<lparr>be_world := wd, be_random := g\<rparr>"
  from bench_forward_total [OF _ there, of ?s e x d] assms(1) obtain s1 out err t' where
    fwd: "bench_forward e x d ?s (map Some fs) = Ret (s1, out, err)" "list_all2 same_size (map Some fs) out"
      "be_worker s1 = ?w\<lparr>bw_transformer := t'\<rparr>" "bench_shape t'" "be_samples s1 = be_samples s" "be_errors s1 = be_errors s"
    by (auto simp: bench_worker_ok_def)
  have "generate rn srt ?w (be_world s, be_random s) = Ret (map Some fs, wd, g)"
    by (simp add: generate_def now gen)
  with fwd count_same_size [OF fwd(2)] sum show ?thesis
    by (cases err) (auto simp: bench_turn_def)
qed

lemma bench_run_total:
  assumes "sort_contract stamp_less srt"
  shows "bench_worker_ok (be_worker s) \<Longrightarrow> \<exists>s' waits fin. bench_run rn srt e x ds s = Ret (s', waits, fin) \<and>
    be_samples s' = be_samples s + length waits * (\<Sum>f\<leftarrow>bw_metrics (be_worker s). length (f_Metric f)) \<and>
    be_errors s' \<le> be_errors s + length waits \<and> set waits \<subseteq> {bw_interval (be_worker s), Minute} \<and>
    length waits = length (takeWhile (\<lambda>(d, cancelled). \<not> cancelled) ds) + (if fin then 1 else 0) \<and>
    (fin \<longleftrightarrow> list_ex (\<lambda>(d, cancelled). cancelled) ds)"
proof (induction ds arbitrary: s)
  case (Cons dc ds)
  obtain d c where dc: "dc = (d, c)" by force
  from bench_turn_total [OF Cons.prems assms, of rn e x d] obtain s1 wait t where
    turn: "bench_turn rn srt e x d s = Ret (s1, wait)" "be_worker s1 = (be_worker s)\<lparr>bw_transformer := t\<rparr>" "bench_shape t"
      "be_samples s1 = be_samples s + (\<Sum>f\<leftarrow>bw_metrics (be_worker s). length (f_Metric f))"
      "be_errors s1 = be_errors s \<and> wait = bw_interval (be_worker s) \<or> be_errors s1 = Suc (be_errors s) \<and> wait = Minute"
    by blast
  show ?case
  proof (cases c)
    case True
    then have "bench_run rn srt e x (dc # ds) s = Ret (s1, [wait], True)" using turn(1) dc by simp
    moreover have "be_errors s1 \<le> Suc (be_errors s) \<and> wait \<in> {bw_interval (be_worker s), Minute}"
      using turn(5) by (elim disjE) simp_all
    ultimately show ?thesis using turn(4) dc True
      by (intro exI [of _ s1] exI [of _ "[wait]"] exI [of _ True]) simp
  next
    case False
    have "bench_worker_ok (be_worker s1)" using Cons.prems turn(2,3) by (simp add: bench_worker_ok_def)
    from Cons.IH [OF this] obtain s2 waits fin where rest:
      "bench_run rn srt e x ds s1 = Ret (s2, waits, fin)"
      "be_samples s2 = be_samples s1 + length waits * (\<Sum>f\<leftarrow>bw_metrics (be_worker s1). length (f_Metric f))"
      "be_errors s2 \<le> be_errors s1 + length waits" "set waits \<subseteq> {bw_interval (be_worker s1), Minute}"
      "length waits = length (takeWhile (\<lambda>(d, cancelled). \<not> cancelled) ds) + (if fin then 1 else 0)"
      "fin \<longleftrightarrow> list_ex (\<lambda>(d, cancelled). cancelled) ds" by blast
    have same: "bw_interval (be_worker s1) = bw_interval (be_worker s)" "bw_metrics (be_worker s1) = bw_metrics (be_worker s)"
      by (simp_all add: turn(2))
    have "bench_run rn srt e x (dc # ds) s = Ret (s2, wait # waits, fin)" using turn(1) rest(1) dc False by simp
    moreover have "be_samples s2 = be_samples s + length (wait # waits) * (\<Sum>f\<leftarrow>bw_metrics (be_worker s). length (f_Metric f))"
      using turn(4) rest(2) same by simp
    moreover have "be_errors s2 \<le> be_errors s + length (wait # waits)" using turn(5) rest(3) by (elim disjE) simp_all
    moreover have "set (wait # waits) \<subseteq> {bw_interval (be_worker s), Minute}" using turn(5) rest(4) same by (elim disjE) auto
    moreover have "length (wait # waits) = length (takeWhile (\<lambda>(d, cancelled). \<not> cancelled) (dc # ds)) + (if fin then 1 else 0)"
      using rest(5) dc False by simp
    moreover have "fin \<longleftrightarrow> list_ex (\<lambda>(d, cancelled). cancelled) (dc # ds)" using rest(6) dc False by simp
    ultimately show ?thesis by blast
  qed
next
  case Nil
  then show ?case by (intro exI [of _ s] exI [of _ "[]"] exI [of _ False]) simp
qed

subsection \<open>New\<close>

lemma new_worker_ok:
  assumes "new_worker fs cfg interval i = Ret (Inr w)"
  shows "bench_shape (bw_transformer w) \<and> bw_interval w = interval \<and> bw_to w = bc_ToUpload cfg \<and> bw_id w = bf_uuid fs i \<and>
    (\<exists>ms. bf_decode fs (bc_MetricsFile cfg) = (ms, None) \<and> bw_metrics w = ms) \<and>
    (bw_token w = None \<longleftrightarrow> bc_ToToken cfg = [])"
  using assms
  by (auto simp: new_worker_def bench_shape_def Let_def split: option.splits prod.splits if_splits)

lemma new_workers_ok:
  "new_workers fs cfg interval is = Ret (Inr ws) \<Longrightarrow>
     length ws = length is \<and> (\<forall>w \<in> set ws. \<exists>i. new_worker fs cfg interval i = Ret (Inr w))"
proof (induction "is" arbitrary: ws)
  case (Cons i "is")
  from Cons.prems obtain w where w: "new_worker fs cfg interval i = Ret (Inr w)"
    by (cases "new_worker fs cfg interval i") (auto split: sum.splits)
  with Cons.prems obtain rest where "new_workers fs cfg interval is = Ret (Inr rest)" "ws = w # rest"
    by (cases "new_workers fs cfg interval is") (auto split: sum.splits)
  with Cons.IH w show ?case by auto
qed simp

lemma bench_New_ok:
  assumes "bench_New fs cfg = Ret (cfg', Inr ws)"
  shows "int (length ws) = bc_Workers cfg \<and>
    (\<forall>w \<in> set ws. bench_shape (bw_transformer w) \<and> bw_to w = bc_ToUpload cfg \<and>
       bw_interval w = (if bc_Interval cfg = 0 then DefaultSyncPeriod else bc_Interval cfg) \<and>
       bf_decode fs (bc_MetricsFile cfg) = (bw_metrics w, None))"
proof -
  let ?iv = "if bc_Interval cfg = 0 then DefaultSyncPeriod else bc_Interval cfg"
  from assms have n: "0 \<le> bc_Workers cfg" by (auto simp: bench_New_def split: if_splits)
  from assms n obtain token where tok: "value_or_file (bf_files fs) (bc_ToToken cfg) (bc_ToTokenFile cfg) = Inr token"
    by (auto simp: bench_New_def Let_def split: sum.splits)
  let ?c = "cfg\<lparr>bc_ToToken := token\<rparr>"
  from assms n tok have ws: "new_workers fs ?c ?iv [0..<nat (bc_Workers cfg)] = Ret (Inr ws)"
    by (cases "new_workers fs ?c ?iv [0..<nat (bc_Workers cfg)]")
      (auto simp: bench_New_def Let_def split: sum.splits option.splits if_splits)
  from new_workers_ok [OF this] n show ?thesis by (fastforce dest!: new_worker_ok)
qed

section \<open>Properties\<close>

text \<open>
  what a worker sends is acceptable to the server in order and age.  Every family is the recorded
  one with the same labels on the copies of its metrics; their timestamps are later than one interval
  ago and not later than now, in order, and the server's check for unsorted samples passes.
\<close>

theorem generated_families_valid:
  assumes "int63n_contract rn" and "sort_contract stamp_less srt"
    and "now = trunc_div (UnixNano (fst (read_now wd))) Millisecond" and "now < 2 ^ 63"
    and "trunc_div (bw_interval w) Millisecond \<le> now"
    and "generate rn srt w (wd, g) = Ret (out, wd', g')"
  shows "\<exists>fs. out = map Some fs \<and>
    list_all2 (\<lambda>f0 f. generated now (trunc_div (bw_interval w) Millisecond) f0 f \<and>
      (\<exists>u. errorOnUnsorted_Transform (NewErrorOnUnsorted True) (Some f) = Ret (u, Some f, True, None))) (bw_metrics w) fs"
proof -
  from assms(3,6) obtain fs where "out = map Some fs"
    "gen_families rn srt (bw_interval w) now g (bw_metrics w) = Ret (fs, g')"
    by (auto simp: generate_def Let_def case_prod_unfold)
  with gen_families_fresh [OF assms(1) _ assms(4,2)] assms(5) show ?thesis by auto
qed

text \<open>
  a worker of a configuration that \<^verbatim>\<open>New\<close> accepts runs until its context is cancelled,
  without a panic, if its interval is at least a millisecond and the recorded metrics are there.
  Each turn adds the number of metrics of the worker to \<^verbatim>\<open>forwarded_samples\<close>, whether or not
  anything was forwarded, and waits for the interval or, after a failure, for a minute.
\<close>

theorem bench_run_counts:
  assumes "bench_New fs cfg = Ret (cfg', Inr ws)" and "w \<in> set ws" and "be_worker s = w"
    and "bc_Interval cfg = 0 \<or> Millisecond \<le> bc_Interval cfg"
    and "\<forall>f \<in> set (bw_metrics w). None \<notin> set (f_Metric f)" and "sort_contract stamp_less srt"
  shows "\<exists>s' waits fin. bench_run rn srt e x ds s = Ret (s', waits, fin) \<and>
    be_samples s' = be_samples s + length waits * (\<Sum>f\<leftarrow>bw_metrics w. length (f_Metric f)) \<and>
    be_errors s' \<le> be_errors s + length waits \<and> set waits \<subseteq> {bw_interval w, Minute} \<and>
    length waits = length (takeWhile (\<lambda>(d, cancelled). \<not> cancelled) ds) + (if fin then 1 else 0) \<and>
    (fin \<longleftrightarrow> list_ex (\<lambda>(d, cancelled). cancelled) ds)"
proof -
  have "bench_worker_ok (be_worker s)"
    using bench_New_ok [OF assms(1)] assms(2-5)
    by (auto simp: bench_worker_ok_def DefaultSyncPeriod_def Millisecond_def Minute_def Second_def)
  from bench_run_total [OF assms(6) this, of rn e x ds] assms(3) show ?thesis by simp
qed

text \<open>
  \<^verbatim>\<open>New\<close> does not look at the sign of the interval: one below a millisecond is
  accepted, and a worker with it panics on its first metric, in \<^verbatim>\<open>rand.Int63n\<close>.
\<close>

theorem short_interval_panics:
  assumes "bench_New fs cfg = Ret (cfg', Inr ws)" and "w \<in> set ws" and "bc_Interval cfg \<noteq> 0" and "bc_Interval cfg < Millisecond"
    and "bw_metrics w = f # rest" and "f_Metric f \<noteq> []" and "None \<notin> set (f_Metric f)"
  shows "generate rn srt w s = Panic InvalidArgument"
proof -
  have "bw_interval w = bc_Interval cfg" using bench_New_ok [OF assms(1)] assms(2,3) by auto
  moreover have "trunc_div (bc_Interval cfg) Millisecond \<le> 0"
  proof (cases "bc_Interval cfg < 0")
    case True
    then show ?thesis by (simp add: trunc_div_def Millisecond_def pos_imp_zdiv_nonneg_iff)
  next
    case False
    with assms(4) show ?thesis by (simp add: trunc_div_def Millisecond_def)
  qed
  ultimately show ?thesis
    using assms(5-7) by (simp add: generate_def Let_def case_prod_unfold gen_metrics_panics)
qed

text \<open>A configuration with one worker, a file with one family, and a source of zeros.\<close>

definition example_bench_files :: bench_files where
  "example_bench_files = \<lparr>bf_files = \<lparr>fs_read = (\<lambda>_. Inl ''no such file''), fs_keyPair = (\<lambda>_ _. None), fs_certPool = None\<rparr>,
     bf_open = (\<lambda>_. None), bf_seek = (\<lambda>_. None),
     bf_decode = (\<lambda>_. ([counter_family ''up'' [Some (counter_metric [] None), Some (counter_metric [] None)]], None)),
     bf_close = None, bf_uuid = (\<lambda>_. ''u1''), bf_reparse = Some\<rparr>"

definition example_bench :: "duration \<Rightarrow> bench_config" where
  "example_bench interval = \<lparr>bc_ToAuthorize = None, bc_ToUpload = None, bc_ToCAFile = [], bc_ToToken = [], bc_ToTokenFile = [],
     bc_Interval = interval, bc_MetricsFile = ''metrics'', bc_Workers = 1\<rparr>"

definition example_bench_worker :: "duration \<Rightarrow> bench_worker" where
  "example_bench_worker interval = \<lparr>bw_client = \<lparr>cl_maxBytes = LimitBytes, cl_metricsName = ''federate_to''\<rparr>, bw_id = ''u1'',
     bw_interval = interval,
     bw_metrics = [counter_family ''up'' [Some (counter_metric [] None), Some (counter_metric [] None)]], bw_to = None, bw_token = None,
     bw_transformer = Multi [] []\<rparr>"

definition zeros :: "unit random" where
  "zeros = \<lparr>rn_int63n = (\<lambda>g n. (0, g)), rn_scale = (\<lambda>g v. (v, g)), rn_coin = (\<lambda>g. (False, g)), rn_succ = (\<lambda>v. v)\<rparr>"

lemma example_bench_starts:
  "i \<noteq> 0 \<Longrightarrow> bench_New example_bench_files (example_bench i) = Ret (example_bench i, Inr [example_bench_worker i])"
  by (simp add: bench_New_def example_bench_def example_bench_files_def value_or_file_def bench_certs_def new_worker_def
      example_bench_worker_def Let_def)

lemma zeros_contract: "int63n_contract zeros"
  by (simp add: int63n_contract_def zeros_def)

theorem generated_families_valid_witness:
  "\<exists>fs wd' g'. generate zeros (insertion_sort stamp_less) (example_bench_worker Minute) (still_world (100 * Second), ()) = Ret (map Some fs, wd', g') \<and>
     list_all2 (generated 100000 60000) (bw_metrics (example_bench_worker Minute)) fs \<and> fs \<noteq> []"
proof -
  have now: "(100000::int) = trunc_div (UnixNano (fst (read_now (still_world (100 * Second))))) Millisecond"
    by (simp add: trunc_div_def UnixNano_def Millisecond_def wrap64_def read_now_def still_world_def Second_def)
  have iv: "trunc_div (bw_interval (example_bench_worker Minute)) Millisecond = 60000"
    by (simp add: example_bench_worker_def trunc_div_def Millisecond_def Minute_def Second_def)
  have "\<forall>f \<in> set (bw_metrics (example_bench_worker Minute)). None \<notin> set (f_Metric f)"
    by (simp add: example_bench_worker_def example_defs)
  with gen_families_total iv obtain fs g where
    "gen_families zeros (insertion_sort stamp_less) (bw_interval (example_bench_worker Minute)) 100000 ()
       (bw_metrics (example_bench_worker Minute)) = Ret (fs, g)" by (metis zero_less_numeral)
  then have gen: "generate zeros (insertion_sort stamp_less) (example_bench_worker Minute) (still_world (100 * Second), ()) =
      Ret (map Some fs, snd (read_now (still_world (100 * Second))), g)"
    by (simp add: generate_def Let_def case_prod_unfold now [symmetric])
  have "(100000::int) < 2 ^ 63" "trunc_div (bw_interval (example_bench_worker Minute)) Millisecond \<le> 100000" using iv by simp_all
  from generated_families_valid [OF zeros_contract by_stamp.insertion_sort_contract now this gen] obtain fs' where
    "map Some fs = map Some fs'" and all: "list_all2 (\<lambda>f0 f. generated 100000 60000 f0 f \<and>
      (\<exists>u. errorOnUnsorted_Transform (NewErrorOnUnsorted True) (Some f) = Ret (u, Some f, True, None)))
      (bw_metrics (example_bench_worker Minute)) fs'" using iv by auto
  then have "fs' = fs" by simp
  moreover from all have "list_all2 (generated 100000 60000) (bw_metrics (example_bench_worker Minute)) fs'"
    by (rule list_all2_mono) simp
  moreover have "bw_metrics (example_bench_worker Minute) \<noteq> []" by (simp add: example_bench_worker_def)
  ultimately show ?thesis using gen by auto
qed

theorem bench_run_counts_witness:
  "\<forall>(e :: env) (x :: unit metrics_ext) d m (u :: unit). \<exists>s' waits fin. bench_run zeros (insertion_sort stamp_less) e x [(d, False), (d, True), (d, False)]
      \<lparr>be_worker = example_bench_worker Minute, be_world = still_world 0, be_random = (), be_counts = m, be_remote = u,
       be_samples = 0, be_errors = 0\<rparr> = Ret (s', waits, fin) \<and> be_samples s' = 4 \<and> length waits = 2 \<and> fin"
proof (intro allI)
  fix e :: env and x :: "unit metrics_ext" and d m and u :: unit
  let ?s = "\<lparr>be_worker = example_bench_worker Minute, be_world = still_world 0, be_random = (), be_counts = m, be_remote = u,
       be_samples = 0, be_errors = 0\<rparr>"
  have iv: "Minute \<noteq> 0" "bc_Interval (example_bench Minute) = 0 \<or> Millisecond \<le> bc_Interval (example_bench Minute)"
    by (simp_all add: example_bench_def Minute_def Second_def Millisecond_def)
  have there: "\<forall>f \<in> set (bw_metrics (example_bench_worker Minute)). None \<notin> set (f_Metric f)"
    and size: "(\<Sum>f\<leftarrow>bw_metrics (example_bench_worker Minute). length (f_Metric f)) = 2"
    by (simp_all add: example_bench_worker_def example_defs)
  have "example_bench_worker Minute \<in> set [example_bench_worker Minute]" "be_worker ?s = example_bench_worker Minute" by simp_all
  from bench_run_counts [OF example_bench_starts [OF iv(1)] this iv(2) there by_stamp.insertion_sort_contract,
      of zeros e x "[(d, False), (d, True), (d, False)]"]
  obtain s' waits fin where run:
    "bench_run zeros (insertion_sort stamp_less) e x [(d, False), (d, True), (d, False)] ?s = Ret (s', waits, fin)"
    "be_samples s' = be_samples ?s + length waits * (\<Sum>f\<leftarrow>bw_metrics (example_bench_worker Minute). length (f_Metric f))"
    "length waits = length (takeWhile (\<lambda>(d, cancelled). \<not> cancelled) [(d, False), (d, True), (d, False)]) + (if fin then 1 else 0)"
    "fin \<longleftrightarrow> list_ex (\<lambda>(d, cancelled). cancelled) [(d, False), (d, True), (d, False)]" by blast
  then have "fin" "length waits = 2" by simp_all
  with run(1,2) size show "\<exists>s' waits fin. bench_run zeros (insertion_sort stamp_less) e x [(d, False), (d, True), (d, False)] ?s =
      Ret (s', waits, fin) \<and> be_samples s' = 4 \<and> length waits = 2 \<and> fin" by (intro exI [of _ s'] exI [of _ waits] exI [of _ fin]) simp
qed

theorem short_interval_panics_witness:
  "generate zeros (insertion_sort stamp_less) (example_bench_worker (- 1)) (still_world 0, ()) = Panic InvalidArgument"
  by (rule short_interval_panics [OF example_bench_starts, of "- 1" "example_bench_worker (- 1)"
        "counter_family ''up'' [Some (counter_metric [] None), Some (counter_metric [] None)]" "[]"])
    (simp_all add: example_bench_worker_def example_bench_def Millisecond_def example_defs)

end
