(* ===== verification/Benchmark_Loop.thy ===== *)
theory Benchmark_Loop
  imports Go_Prelude
begin

text \<open>
  The lock, the channel and the flags by which \<^verbatim>\<open>Run\<close>, \<^verbatim>\<open>Stop\<close> and
  \<^verbatim>\<open>Reconfigure\<close> of \<^verbatim>\<open>pkg/benchmark/benchmark.go\<close> work together, as a state machine.
\<close>

section \<open>The machine\<close>

text \<open>
  Where \<^verbatim>\<open>Run\<close> is: not called, about to start its workers, waiting in its
  \<^verbatim>\<open>select\<close>, or gone.  Where a call of \<^verbatim>\<open>Reconfigure\<close> is: waiting for the lock, sending on
  the channel, about to cancel, or gone.
\<close>

datatype runner = Idle | Starting | Selecting | Returned
datatype reload = Waiting | Sending | Cancelling | Finished

text \<open>
  The state: the fields of \<^verbatim>\<open>Benchmark\<close> (the workers as their number), the workers of the
  current context that have not ended and whether it is cancelled, the calls of
  \<^verbatim>\<open>Reconfigure\<close> with the number of workers each brings, and which of them holds the lock.
  \<^verbatim>\<open>Run\<close> and \<^verbatim>\<open>Stop\<close> do nothing that blocks while they hold it, so what they do
  under the lock is one step, possible when it is free.
\<close>

record loop =
  bl_runner :: runner
  bl_running :: bool
  bl_cancelled :: bool
  bl_active :: nat
  bl_workers :: nat
  bl_reloads :: "(reload \<times> nat) list"
  bl_holder :: "nat option"

definition bench_Stop :: "loop \<Rightarrow> loop" where
  "bench_Stop s = (if bl_running s then s\<lparr>bl_cancelled := True, bl_running := False\<rparr> else s)"

inductive loop_step :: "loop \<Rightarrow> loop \<Rightarrow> bool" where
  check: "bl_holder s = None \<Longrightarrow> bl_runner s = Idle \<Longrightarrow>
    loop_step s (s\<lparr>bl_runner := if bl_running s then Returned else Starting\<rparr>)"
| start_workers: "bl_holder s = None \<Longrightarrow> bl_runner s = Starting \<Longrightarrow>
    loop_step s (s\<lparr>bl_runner := Selecting, bl_running := True, bl_cancelled := False, bl_active := bl_workers s\<rparr>)"
| ended: "bl_runner s = Selecting \<Longrightarrow> bl_active s = 0 \<Longrightarrow> loop_step s (s\<lparr>bl_runner := Returned\<rparr>)"
| worker: "bl_cancelled s \<Longrightarrow> 0 < bl_active s \<Longrightarrow> loop_step s (s\<lparr>bl_active := bl_active s - 1\<rparr>)"
| stop: "bl_holder s = None \<Longrightarrow> loop_step s (bench_Stop s)"
| lock: "bl_holder s = None \<Longrightarrow> i < length (bl_reloads s) \<Longrightarrow> bl_reloads s ! i = (Waiting, n) \<Longrightarrow> bl_running s \<Longrightarrow>
    loop_step s (s\<lparr>bl_reloads := (bl_reloads s)[i := (Sending, n)], bl_holder := Some i\<rparr>)"
| replace: "bl_holder s = None \<Longrightarrow> i < length (bl_reloads s) \<Longrightarrow> bl_reloads s ! i = (Waiting, n) \<Longrightarrow> \<not> bl_running s \<Longrightarrow>
    loop_step s (s\<lparr>bl_reloads := (bl_reloads s)[i := (Finished, n)], bl_workers := n\<rparr>)"
| send: "i < length (bl_reloads s) \<Longrightarrow> bl_reloads s ! i = (Sending, n) \<Longrightarrow> bl_runner s = Selecting \<Longrightarrow>
    loop_step s (s\<lparr>bl_reloads := (bl_reloads s)[i := (Cancelling, n)], bl_runner := Starting\<rparr>)"
| cancel: "i < length (bl_reloads s) \<Longrightarrow> bl_reloads s ! i = (Cancelling, n) \<Longrightarrow>
    loop_step s (s\<lparr>bl_reloads := (bl_reloads s)[i := (Finished, n)], bl_cancelled := True, bl_workers := n, bl_holder := None\<rparr>)"

text \<open>A benchmark with \<open>w\<close> workers, before \<^verbatim>\<open>Run\<close>, and the reloads that will come.\<close>

definition fresh_loop :: "nat \<Rightarrow> nat list \<Rightarrow> loop" where
  "fresh_loop w ns = \<lparr>bl_runner = Idle, bl_running = False, bl_cancelled = False, bl_active = 0, bl_workers = w,
     bl_reloads = map (\<lambda>n. (Waiting, n)) ns, bl_holder = None\<rparr>"

definition loop_reaches :: "loop \<Rightarrow> loop \<Rightarrow> bool" where
  "loop_reaches = loop_step\<^sup>*\<^sup>*"

section \<open>Lemmas\<close>

lemma reaches_refl [simp]: "loop_reaches s s"
  by (simp add: loop_reaches_def)

lemma reaches_step: "loop_step s t \<Longrightarrow> loop_reaches t u \<Longrightarrow> loop_reaches s u"
  by (simp add: loop_reaches_def converse_rtranclp_into_rtranclp)

lemma reaches_induct [consumes 1, case_names refl step]:
  assumes "loop_reaches s t" and "P s" and "\<And>t u. loop_reaches s t \<Longrightarrow> P t \<Longrightarrow> loop_step t u \<Longrightarrow> P u"
  shows "P t"
  using assms(1) unfolding loop_reaches_def
  by (induction rule: rtranclp_induct) (use assms(2,3) in \<open>auto simp: loop_reaches_def\<close>)

text \<open>Mutual exclusion: only the holder of the lock is past it, and then the benchmark runs.\<close>

definition exclusive :: "loop \<Rightarrow> bool" where
  "exclusive s \<longleftrightarrow>
     (\<forall>i < length (bl_reloads s). fst (bl_reloads s ! i) \<in> {Sending, Cancelling} \<longleftrightarrow> bl_holder s = Some i) \<and>
     (\<forall>i. bl_holder s = Some i \<longrightarrow> i < length (bl_reloads s) \<and> bl_running s)"

lemma exclusive_step: "loop_step s t \<Longrightarrow> exclusive s \<Longrightarrow> exclusive t"
proof (induction rule: loop_step.induct)
  case (cancel i s n)
  then have "bl_holder s = Some i" by (auto simp: exclusive_def)
  with cancel show ?case by (auto simp: exclusive_def nth_list_update split: if_splits)
qed (auto simp: exclusive_def bench_Stop_def nth_list_update split: if_splits)

lemma exclusive_fresh: "exclusive (fresh_loop w ns)"
  by (simp add: exclusive_def fresh_loop_def)

lemma exclusive_reaches: "loop_reaches (fresh_loop w ns) s \<Longrightarrow> exclusive s"
  by (induction rule: reaches_induct) (auto simp: exclusive_fresh exclusive_step)

text \<open>With one reload, the runner stays in its \<^verbatim>\<open>select\<close> until the reload has sent.\<close>

definition one_reload :: "nat \<Rightarrow> loop \<Rightarrow> bool" where
  "one_reload w s \<longleftrightarrow> length (bl_reloads s) = 1 \<and>
     (fst (bl_reloads s ! 0) \<in> {Waiting, Sending} \<longrightarrow>
        bl_workers s = w \<and> (bl_running s \<longrightarrow> bl_runner s = Selecting \<and> \<not> bl_cancelled s \<and> 0 < bl_active s))"

lemma one_reload_step: "loop_step s t \<Longrightarrow> 0 < w \<Longrightarrow> one_reload w s \<Longrightarrow> one_reload w t"
  by (induction rule: loop_step.induct) (auto simp: one_reload_def bench_Stop_def)

lemma one_reload_reaches: "loop_reaches (fresh_loop w [n]) s \<Longrightarrow> 0 < w \<Longrightarrow> one_reload w s"
  by (induction rule: reaches_induct) (auto simp: one_reload_step, simp add: one_reload_def fresh_loop_def)

text \<open>A reload that sends while nobody is in the \<^verbatim>\<open>select\<close>.\<close>

definition hung :: "nat \<Rightarrow> loop \<Rightarrow> bool" where
  "hung i s \<longleftrightarrow> exclusive s \<and> i < length (bl_reloads s) \<and> fst (bl_reloads s ! i) = Sending \<and> bl_runner s \<noteq> Selecting"

lemma hung_step: "loop_step s t \<Longrightarrow> hung i s \<Longrightarrow> hung i t"
proof -
  assume step: "loop_step s t" and hung: "hung i s"
  then have held: "bl_holder s = Some i" by (auto simp: hung_def exclusive_def)
  have "exclusive t" using exclusive_step [OF step] hung by (simp add: hung_def)
  moreover have "i < length (bl_reloads t) \<and> fst (bl_reloads t ! i) = Sending \<and> bl_runner t \<noteq> Selecting"
    using step hung held
    by (cases rule: loop_step.cases) (auto simp: hung_def exclusive_def nth_list_update)
  ultimately show "hung i t" by (simp add: hung_def)
qed

lemma hung_forever: "loop_reaches s t \<Longrightarrow> hung i s \<Longrightarrow> hung i t"
  by (induction rule: reaches_induct) (auto simp: hung_step)

text \<open>When the old workers are gone, it is the end.\<close>

lemma hung_stuck:
  assumes "hung i s" and "bl_cancelled s \<longrightarrow> bl_active s = 0"
  shows "\<not> loop_step s t"
proof
  assume step: "loop_step s t"
  from assms(1) have held: "bl_holder s = Some i" by (auto simp: hung_def exclusive_def)
  show False using step
  proof cases
    case (cancel j n)
    with assms(1) held show False by (force simp: hung_def exclusive_def)
  qed (use assms held in \<open>simp_all add: hung_def\<close>)
qed

lemma step_length: "loop_step s t \<Longrightarrow> length (bl_reloads t) = length (bl_reloads s)"
  by (induction rule: loop_step.induct) (simp_all add: bench_Stop_def)

text \<open>Two ways to get there.\<close>

definition two_reloads_hung :: loop where
  "two_reloads_hung = \<lparr>bl_runner = Starting, bl_running = True, bl_cancelled = True, bl_active = 0, bl_workers = 1,
     bl_reloads = [(Finished, 1), (Sending, 1)], bl_holder = Some 1\<rparr>"

definition no_workers_hung :: loop where
  "no_workers_hung = \<lparr>bl_runner = Returned, bl_running = True, bl_cancelled = False, bl_active = 0, bl_workers = 0,
     bl_reloads = [(Sending, 1)], bl_holder = Some 0\<rparr>"

lemma two_reloads_reach: "loop_reaches (fresh_loop 1 [1, 1]) two_reloads_hung"
proof -
  let ?st = "\<lambda>r run c a rs h. \<lparr>bl_runner = r, bl_running = run, bl_cancelled = c, bl_active = a, bl_workers = 1,
     bl_reloads = rs, bl_holder = h\<rparr> :: loop"
  have "loop_reaches (?st Starting True True 0 [(Finished, 1), (Waiting, 1)] None) two_reloads_hung"
    by (rule reaches_step [OF loop_step.lock [where i = 1 and n = 1]]) (simp_all add: two_reloads_hung_def)
  then have "loop_reaches (?st Starting True True 1 [(Finished, 1), (Waiting, 1)] None) two_reloads_hung"
    by - (rule reaches_step [OF loop_step.worker], simp_all)
  then have "loop_reaches (?st Starting True False 1 [(Cancelling, 1), (Waiting, 1)] (Some 0)) two_reloads_hung"
    by - (rule reaches_step [OF loop_step.cancel [where i = 0 and n = 1]], simp_all)
  then have "loop_reaches (?st Selecting True False 1 [(Sending, 1), (Waiting, 1)] (Some 0)) two_reloads_hung"
    by - (rule reaches_step [OF loop_step.send [where i = 0 and n = 1]], simp_all)
  then have "loop_reaches (?st Selecting True False 1 [(Waiting, 1), (Waiting, 1)] None) two_reloads_hung"
    by - (rule reaches_step [OF loop_step.lock [where i = 0 and n = 1]], simp_all)
  then have "loop_reaches (?st Starting False False 0 [(Waiting, 1), (Waiting, 1)] None) two_reloads_hung"
    by - (rule reaches_step [OF loop_step.start_workers], simp_all)
  then show ?thesis
    by - (rule reaches_step [OF loop_step.check], simp_all add: fresh_loop_def)
qed

lemma no_workers_reach: "loop_reaches (fresh_loop 0 [1]) no_workers_hung"
proof -
  let ?st = "\<lambda>r run rs h. \<lparr>bl_runner = r, bl_running = run, bl_cancelled = False, bl_active = 0, bl_workers = 0,
     bl_reloads = rs, bl_holder = h\<rparr> :: loop"
  have "loop_reaches (?st Returned True [(Waiting, 1)] None) no_workers_hung"
    by (rule reaches_step [OF loop_step.lock [where i = 0 and n = 1]]) (simp_all add: no_workers_hung_def)
  then have "loop_reaches (?st Selecting True [(Waiting, 1)] None) no_workers_hung"
    by - (rule reaches_step [OF loop_step.ended], simp_all)
  then have "loop_reaches (?st Starting False [(Waiting, 1)] None) no_workers_hung"
    by - (rule reaches_step [OF loop_step.start_workers], simp_all)
  then show ?thesis
    by - (rule reaches_step [OF loop_step.check], simp_all add: fresh_loop_def)
qed

lemma hung_examples: "hung 1 two_reloads_hung" "hung 0 no_workers_hung"
  by (simp_all add: hung_def exclusive_def less_Suc_eq all_conj_distrib two_reloads_hung_def no_workers_hung_def)

section \<open>Properties\<close>

text \<open>
  C19: a single reload is never blocked.  Whatever \<^verbatim>\<open>Run\<close>, the workers and any number of calls
  of \<^verbatim>\<open>Stop\<close> did before, a reload of a benchmark with workers that has not returned can
  take its next step; and it only holds the lock while the benchmark runs.
\<close>

theorem single_reload_progress:
  assumes "loop_reaches (fresh_loop w [n]) s" and "0 < w" and "fst (bl_reloads s ! 0) \<noteq> Finished"
  shows "exclusive s \<and> (\<exists>t. loop_step s t \<and> fst (bl_reloads t ! 0) \<noteq> fst (bl_reloads s ! 0))"
proof -
  have ex: "exclusive s" using exclusive_reaches assms(1) .
  have one: "one_reload w s" using one_reload_reaches [OF assms(1,2)] .
  obtain pc k where pc: "bl_reloads s ! 0 = (pc, k)" by force
  have len: "0 < length (bl_reloads s)" using one by (simp add: one_reload_def)
  have "\<exists>t. loop_step s t \<and> fst (bl_reloads t ! 0) \<noteq> pc"
  proof (cases pc)
    case Waiting
    have free: "bl_holder s = None"
    proof (rule ccontr)
      assume "bl_holder s \<noteq> None"
      then obtain i where i: "bl_holder s = Some i" by blast
      with ex one have "i = 0" by (auto simp: exclusive_def one_reload_def)
      with ex i pc Waiting len show False by (auto simp: exclusive_def)
    qed
    show ?thesis
    proof (cases "bl_running s")
      case True
      from loop_step.lock [OF free len _ True, of k] pc Waiting len show ?thesis by fastforce
    next
      case False
      from loop_step.replace [OF free len _ False, of k] pc Waiting len show ?thesis by fastforce
    qed
  next
    case Sending
    with pc ex len have "bl_holder s = Some 0" "bl_running s" by (auto simp: exclusive_def)
    with one pc Sending have "bl_runner s = Selecting" by (simp add: one_reload_def)
    from loop_step.send [OF len _ this, of k] pc Sending len show ?thesis by fastforce
  next
    case Cancelling
    from loop_step.cancel [OF len, of k] pc Cancelling len show ?thesis by fastforce
  qed (use assms(3) pc in simp)
  with ex pc show ?thesis by simp
qed

text \<open>
  C20: reloads can hang for ever.  A second reload that comes while \<^verbatim>\<open>Run\<close> is still on
  its way back from the first takes the lock that \<^verbatim>\<open>Run\<close> needs and waits for
  \<^verbatim>\<open>Run\<close> to receive; a reload of a benchmark without workers, which has returned but counts as
  running, waits for nobody.  In both cases no step at all is left, so calls of \<^verbatim>\<open>Stop\<close> block too.
\<close>

theorem reloads_hang:
  "(\<exists>s. loop_reaches (fresh_loop 1 [1, 1]) s \<and> bl_runner s = Starting \<and> bl_reloads s = [(Finished, 1), (Sending, 1)] \<and>
      (\<nexists>t. loop_step s t)) \<and>
   (\<exists>s. loop_reaches (fresh_loop 0 [1]) s \<and> bl_runner s = Returned \<and> bl_running s \<and> bl_reloads s = [(Sending, 1)] \<and>
      (\<nexists>t. loop_step s t))"
proof
  have "\<nexists>t. loop_step two_reloads_hung t" using hung_stuck [OF hung_examples(1)] by (simp add: two_reloads_hung_def)
  with two_reloads_reach show "\<exists>s. loop_reaches (fresh_loop 1 [1, 1]) s \<and> bl_runner s = Starting \<and>
      bl_reloads s = [(Finished, 1), (Sending, 1)] \<and> (\<nexists>t. loop_step s t)"
    by (intro exI [of _ two_reloads_hung]) (simp add: two_reloads_hung_def)
  have "\<nexists>t. loop_step no_workers_hung t" using hung_stuck [OF hung_examples(2)] by (simp add: no_workers_hung_def)
  with no_workers_reach show "\<exists>s. loop_reaches (fresh_loop 0 [1]) s \<and> bl_runner s = Returned \<and> bl_running s \<and>
      bl_reloads s = [(Sending, 1)] \<and> (\<nexists>t. loop_step s t)"
    by (intro exI [of _ no_workers_hung]) (simp add: no_workers_hung_def)
qed

text \<open>
  a reload that hangs never recovers: once one of them is sending while \<^verbatim>\<open>Run\<close> is not
  in its \<^verbatim>\<open>select\<close>, it keeps the lock in every state that can follow.
\<close>

theorem hung_reload_keeps_lock:
  assumes "loop_reaches (fresh_loop w ns) s" and "i < length ns" and "fst (bl_reloads s ! i) = Sending"
    and "bl_runner s \<noteq> Selecting" and "loop_reaches s t"
  shows "bl_holder t = Some i \<and> fst (bl_reloads t ! i) = Sending"
proof -
  have "length (bl_reloads s) = length ns"
    using assms(1) by (induction rule: reaches_induct) (simp_all add: step_length, simp add: fresh_loop_def)
  then have "hung i s" using assms(2-4) exclusive_reaches [OF assms(1)] by (simp add: hung_def)
  from hung_forever [OF assms(5) this] show ?thesis by (auto simp: hung_def exclusive_def)
qed

text \<open>
  \<^verbatim>\<open>Stop\<close> can be lost.  While \<^verbatim>\<open>Run\<close> is on its way back from a reload, the
  benchmark counts as running, \<^verbatim>\<open>Stop\<close> cancels the context that is already cancelled, and
  \<^verbatim>\<open>Run\<close> then starts the new workers.
\<close>

theorem stop_lost:
  "\<exists>s t. loop_reaches (fresh_loop 1 [1]) s \<and> bl_running s \<and> bl_holder s = None \<and> loop_step (bench_Stop s) t \<and>
     bl_runner t = Selecting \<and> bl_running t \<and> \<not> bl_cancelled t \<and> bl_active t = 1"
proof -
  let ?st = "\<lambda>r run c a rs h. \<lparr>bl_runner = r, bl_running = run, bl_cancelled = c, bl_active = a, bl_workers = 1,
     bl_reloads = rs, bl_holder = h\<rparr> :: loop"
  let ?last = "?st Starting True True 1 [(Finished, 1)] None"
  have "loop_reaches (?st Starting True False 1 [(Cancelling, 1)] (Some 0)) ?last"
    by (rule reaches_step [OF loop_step.cancel [where i = 0 and n = 1]]) simp_all
  then have "loop_reaches (?st Selecting True False 1 [(Sending, 1)] (Some 0)) ?last"
    by - (rule reaches_step [OF loop_step.send [where i = 0 and n = 1]], simp_all)
  then have "loop_reaches (?st Selecting True False 1 [(Waiting, 1)] None) ?last"
    by - (rule reaches_step [OF loop_step.lock [where i = 0 and n = 1]], simp_all)
  then have "loop_reaches (?st Starting False False 0 [(Waiting, 1)] None) ?last"
    by - (rule reaches_step [OF loop_step.start_workers], simp_all)
  then have "loop_reaches (fresh_loop 1 [1]) ?last"
    by - (rule reaches_step [OF loop_step.check], simp_all add: fresh_loop_def)
  moreover have "loop_step (bench_Stop ?last) (?st Selecting True False 1 [(Finished, 1)] None)"
    using loop_step.start_workers [of "bench_Stop ?last"] by (simp add: bench_Stop_def)
  ultimately show ?thesis by (intro exI [of _ ?last] exI [of _ "?st Selecting True False 1 [(Finished, 1)] None"]) simp
qed

text \<open>The states of the witnesses: one reload before anything has run, and the two that hang.\<close>

theorem single_reload_progress_witness:
  "\<exists>t. loop_step (fresh_loop 2 [3]) t \<and> fst (bl_reloads t ! 0) \<noteq> Waiting"
  using single_reload_progress [of 2 3 "fresh_loop 2 [3]"] by (simp add: fresh_loop_def)

theorem hung_reload_keeps_lock_witness:
  "\<exists>s. loop_reaches (fresh_loop 0 [1]) s \<and> bl_holder s = Some 0 \<and> fst (bl_reloads s ! 0) = Sending"
proof -
  have "bl_holder no_workers_hung = Some 0 \<and> fst (bl_reloads no_workers_hung ! 0) = Sending"
    by (rule hung_reload_keeps_lock [OF no_workers_reach, of 0 no_workers_hung]) (simp_all add: no_workers_hung_def)
  with no_workers_reach show ?thesis by blast
qed

end
