(* ===== verification/Http_Utils.thy ===== *)
theory Http_Utils
  imports Response_Cache
begin

text \<open>
  \<^verbatim>\<open>pkg/http\<close>, \<^verbatim>\<open>pkg/tracing\<close>, \<^verbatim>\<open>pkg/logger\<close> and the request logger of \<^verbatim>\<open>pkg/server\<close>:
  the round trippers the clients are built of, the reload route, the status a request is logged with,
  and the set-up of tracing.
\<close>

section \<open>Round trippers\<close>

text \<open>
  A request of an HTTP client: the headers in the order they were added, and the body, which may be
  nil.  \<open>Header.Get\<close> yields the first value of a key.
\<close>

record client_request =
  cr_method :: string
  cr_headers :: "(string \<times> string) list"
  cr_body :: "body option"

definition header_Add :: "string \<Rightarrow> string \<Rightarrow> client_request \<Rightarrow> client_request" where
  "header_Add k v r = r\<lparr>cr_headers := cr_headers r @ [(k, v)]\<rparr>"

type_synonym 'u round_tripper = "'u \<Rightarrow> client_request \<Rightarrow> (string + http_response) \<times> 'u"

definition bearer_RoundTrip :: "string \<Rightarrow> 'u round_tripper \<Rightarrow> 'u round_tripper" where
  "bearer_RoundTrip token nxt = (\<lambda>u r. nxt u (header_Add ''Authorization'' (''Bearer '' @ token) r))"

subsection \<open>The text of a body\<close>

text \<open>\<^verbatim>\<open>utf8.ValidString\<close>, on bytes.\<close>

definition cont_byte :: "nat \<Rightarrow> bool" where
  "cont_byte b \<longleftrightarrow> 128 \<le> b \<and> b \<le> 191"

definition second_byte :: "nat \<Rightarrow> nat \<Rightarrow> bool" where
  "second_byte b0 b \<longleftrightarrow>
     (if b0 = 224 then 160 \<le> b \<and> b \<le> 191
      else if b0 = 237 then 128 \<le> b \<and> b \<le> 159
      else if b0 = 240 then 144 \<le> b \<and> b \<le> 191
      else if b0 = 244 then 128 \<le> b \<and> b \<le> 143
      else cont_byte b)"

fun valid_utf8 :: "nat list \<Rightarrow> bool" where
  "valid_utf8 [] = True"
| "valid_utf8 (b0 # bs) =
     (if b0 < 128 then valid_utf8 bs
      else if 194 \<le> b0 \<and> b0 \<le> 223 then (case bs of b1 # r \<Rightarrow> cont_byte b1 \<and> valid_utf8 r | _ \<Rightarrow> False)
      else if 224 \<le> b0 \<and> b0 \<le> 239
           then (case bs of b1 # b2 # r \<Rightarrow> second_byte b0 b1 \<and> cont_byte b2 \<and> valid_utf8 r | _ \<Rightarrow> False)
      else if 240 \<le> b0 \<and> b0 \<le> 244
           then (case bs of b1 # b2 # b3 # r \<Rightarrow> second_byte b0 b1 \<and> cont_byte b2 \<and> cont_byte b3 \<and> valid_utf8 r | _ \<Rightarrow> False)
      else False)"

definition ValidString :: "string \<Rightarrow> bool" where
  "ValidString s = valid_utf8 (map of_char s)"

text \<open>
  \<^verbatim>\<open>hex.Dump\<close>: lines of sixteen bytes with the offset in front, a gap after eight, and the
  printing characters behind.
\<close>

definition dump_cell :: "string \<Rightarrow> nat \<Rightarrow> string" where
  "dump_cell bs i =
     (if i < length bs then hex [bs ! i] else ''  '') @ '' '' @ (if i = 7 then '' '' else if i = 15 then '' |'' else [])"

definition dump_char :: "char \<Rightarrow> char" where
  "dump_char c = (let n = of_char c :: nat in if n < 32 \<or> n > 126 then CHR ''.'' else c)"

definition dump_line :: "nat \<Rightarrow> string \<Rightarrow> string" where
  "dump_line off bs =
     hex (map (\<lambda>k. char_of (off div 256 ^ k mod 256)) [3, 2, 1, 0]) @ ''  '' @ concat (map (dump_cell bs) [0..<16]) @
     map dump_char bs @ [CHR ''|'', char_of (10 :: nat)]"

function dump_lines :: "nat \<Rightarrow> string \<Rightarrow> string" where
  "dump_lines off s = (if s = [] then [] else dump_line off (take 16 s) @ dump_lines (off + 16) (drop 16 s))"
  by pat_completeness auto
termination
  by (relation "measure (\<lambda>(off, s). length s)") auto

declare dump_lines.simps [simp del]

definition hex_Dump :: "string \<Rightarrow> string" where
  "hex_Dump s = dump_lines 0 s"

subsection \<open>The debug round tripper\<close>

text \<open>
  \<open>bodyToString\<close> reads the body to its end and closes it (\<open>close\<close> is the error of that, if any),
  panics on any error, and leaves a buffer with the same bytes behind.
\<close>

definition bodyToString ::
  "(nat \<Rightarrow> nat) \<Rightarrow> (body \<Rightarrow> string option) \<Rightarrow> body option \<Rightarrow> (string \<times> body option) go" where
  "bodyToString room close b =
     (case b of
        None \<Rightarrow> Ret (''<nil>'', None)
      | Some r \<Rightarrow>
          (case ReadAll room [] r of
             (data, Some e) \<Rightarrow> Panic Explicit
           | (data, None) \<Rightarrow>
               (case close r of
                  Some e \<Rightarrow> Panic Explicit
                | None \<Rightarrow> Ret (if ValidString data then data else hex_Dump data, Some (buffer data)))))"

text \<open>The texts of the two bodies go to the log, those of an exchange that failed do not.\<close>

definition debug_RoundTrip ::
  "(nat \<Rightarrow> nat) \<Rightarrow> (body \<Rightarrow> string option) \<Rightarrow> 'u round_tripper \<Rightarrow> 'u \<Rightarrow> client_request \<Rightarrow>
   ((string + http_response) \<times> 'u \<times> (string \<times> string) option) go" where
  "debug_RoundTrip room close nxt u r =
     go_bind (bodyToString room close (cr_body r)) (\<lambda>(reqBody, b).
       (case nxt u (r\<lparr>cr_body := b\<rparr>) of
          (Inl e, u') \<Rightarrow> Ret (Inl e, u', None)
        | (Inr resp, u') \<Rightarrow>
            go_bind (bodyToString room close (Some (hr_body resp))) (\<lambda>(resBody, b').
              Ret (Inr (resp\<lparr>hr_body := the b'\<rparr>), u', Some (reqBody, resBody)))))"

section \<open>The reload route\<close>

definition ReloadRoute :: "('s \<Rightarrow> 's \<times> 'e option) \<Rightarrow> 's handler" where
  "ReloadRoute reload = (\<lambda>s r.
     if rq_method r \<noteq> ''POST'' then Ret (s, empty_response\<lparr>rs_status := StatusMethodNotAllowed\<rparr>)
     else (case reload s of
             (s', Some e) \<Rightarrow> Ret (s', empty_response\<lparr>rs_status := StatusInternalServerError\<rparr>)
           | (s', None) \<Rightarrow> Ret (s', empty_response\<lparr>rs_status := StatusOK\<rparr>)))"

section \<open>The status in the request log\<close>

text \<open>
  What a handler does with its response writer.  \<open>rw_sent\<close> is the status net/http has put on
  the wire: the first final one, or 200 once data is written; informational ones go out in between and later
  ones are ignored.
\<close>

datatype write_op = WriteHeader int | WriteData string

definition sent_header :: "int option \<Rightarrow> int \<Rightarrow> int option" where
  "sent_header sent code =
     (case sent of
        Some c \<Rightarrow> Some c
      | None \<Rightarrow> if 100 \<le> code \<and> code \<le> 199 \<and> code \<noteq> 101 then None else Some code)"

record access_writer =
  aw_StatusCode :: int
  aw_sent :: "int option"

fun aw_op :: "access_writer \<Rightarrow> write_op \<Rightarrow> access_writer" where
  "aw_op aw (WriteHeader code) = aw\<lparr>aw_StatusCode := code, aw_sent := sent_header (aw_sent aw) code\<rparr>"
| "aw_op aw (WriteData d) = aw\<lparr>aw_sent := (case aw_sent aw of None \<Rightarrow> Some StatusOK | Some c \<Rightarrow> Some c)\<rparr>"

text \<open>The status of the log line and the status the client gets; a silent handler means 200.\<close>

definition RequestLogger :: "write_op list \<Rightarrow> int \<times> int" where
  "RequestLogger ops =
     (let aw = foldl aw_op \<lparr>aw_StatusCode = StatusOK, aw_sent = None\<rparr> ops
      in (aw_StatusCode aw, case aw_sent aw of None \<Rightarrow> StatusOK | Some c \<Rightarrow> c))"

section \<open>Log level and tracing\<close>

datatype log_level = AllowDebug | AllowInfo | AllowWarn | AllowError | AllowAll

definition LogLevelFromString :: "string \<Rightarrow> log_level" where
  "LogLevelFromString l =
     (if l = ''debug'' then AllowDebug else if l = ''info'' then AllowInfo else if l = ''warn'' then AllowWarn
      else if l = ''error'' then AllowError else AllowAll)"

text \<open>
  The exporters, and the tracer provider that is installed.  The parameters are
  \<^verbatim>\<open>resource.New\<close>, \<^verbatim>\<open>net.SplitHostPort\<close> and the constructors of the exporters.
\<close>

datatype exporter = JaegerAgent string string | JaegerCollector string | Otlp string bool

datatype provider = Noop | Batched exporter

datatype tracing_err = ResourceErr string | JaegerHostPort string | JaegerErr string | OtelErr string | InvalidEndpointType string

record tracing_ext =
  tx_resource :: "string option"
  tx_splitHostPort :: "string \<Rightarrow> string + string \<times> string"
  tx_jaeger :: "exporter \<Rightarrow> string option"
  tx_otlp :: "exporter \<Rightarrow> string option"

definition setUpJaegerExporter :: "tracing_ext \<Rightarrow> bool \<Rightarrow> string \<Rightarrow> tracing_err + exporter" where
  "setUpJaegerExporter x agent endpoint =
     (case (if agent then (case tx_splitHostPort x endpoint of Inl e \<Rightarrow> Inl (JaegerHostPort e) | Inr (h, p) \<Rightarrow> Inr (JaegerAgent h p))
            else Inr (JaegerCollector endpoint)) of
        Inl e \<Rightarrow> Inl e
      | Inr opt \<Rightarrow> (case tx_jaeger x opt of Some e \<Rightarrow> Inl (JaegerErr e) | None \<Rightarrow> Inr opt))"

text \<open>The connection is insecure whatever was asked for.\<close>

definition setUpOtelExporter :: "tracing_ext \<Rightarrow> string \<Rightarrow> tracing_err + exporter" where
  "setUpOtelExporter x endpoint =
     (case tx_otlp x (Otlp endpoint True) of Some e \<Rightarrow> Inl (OtelErr e) | None \<Rightarrow> Inr (Otlp endpoint True))"

text \<open>The provider that is installed globally, and the result.\<close>

definition InitTracer :: "tracing_ext \<Rightarrow> string \<Rightarrow> string \<Rightarrow> provider \<times> tracing_err option" where
  "InitTracer x endpoint endpointType =
     (if endpoint = [] then (Noop, None)
      else (case tx_resource x of
              Some e \<Rightarrow> (Noop, Some (ResourceErr e))
            | None \<Rightarrow>
                (case (if endpointType = ''agent'' \<or> endpointType = ''collector''
                       then setUpJaegerExporter x (endpointType = ''agent'') endpoint
                       else if endpointType = ''otel'' then setUpOtelExporter x endpoint
                       else Inl (InvalidEndpointType endpointType)) of
                   Inl e \<Rightarrow> (Noop, Some e)
                 | Inr exp \<Rightarrow> (Batched exp, None))))"

section \<open>Lemmas\<close>

text \<open>An \<^verbatim>\<open>Authorization\<close> header that is already there stays the one that is read.\<close>

lemma bearer_first:
  "map_of (cr_headers (header_Add k v r)) k = (case map_of (cr_headers r) k of None \<Rightarrow> Some v | Some v' \<Rightarrow> Some v')"
  by (auto simp: header_Add_def map_add_def split: option.split)

text \<open>
  The log has the status of the client if the handler sets one final status and then only writes;
  setting a status after data is logged although the client got 200.
\<close>

lemma aw_data: "foldl aw_op aw (map WriteData ds) =
    aw\<lparr>aw_sent := (case aw_sent aw of None \<Rightarrow> if ds = [] then None else Some StatusOK | Some c \<Rightarrow> Some c)\<rparr>"
  by (induction ds arbitrary: aw) (auto split: option.split)

lemma RequestLogger_once:
  "\<not> (100 \<le> c \<and> c \<le> 199 \<and> c \<noteq> 101) \<Longrightarrow> RequestLogger (WriteHeader c # map WriteData ds) = (c, c)"
  "RequestLogger (map WriteData ds) = (200, 200)"
  by (auto simp: RequestLogger_def aw_data sent_header_def status_defs Let_def)

lemma RequestLogger_late: "RequestLogger [WriteData d, WriteHeader c] = (c, 200)"
  by (simp add: RequestLogger_def sent_header_def status_defs)

lemma tracer_secure: "InitTracer x endpoint ty = (Batched (Otlp ep insecure), err) \<Longrightarrow> insecure \<and> ep = endpoint \<and> ty = ''otel''"
  by (auto simp: InitTracer_def setUpJaegerExporter_def setUpOtelExporter_def split: if_splits option.splits sum.splits)

text \<open>Bodies that can be read to the end and closed.\<close>

definition readable :: "(nat \<Rightarrow> nat) \<Rightarrow> (body \<Rightarrow> string option) \<Rightarrow> body \<Rightarrow> bool" where
  "readable room close b \<longleftrightarrow> snd (ReadAll room [] b) = None \<and> close b = None"

lemma bodyToString_cases:
  "bodyToString room close (Some b) =
     (if readable room close b
      then Ret (if ValidString (body_left b) then body_left b else hex_Dump (body_left b), Some (buffer (body_left b)))
      else Panic Explicit)"
  using ReadAll_data [of room "[]" b]
  by (cases "ReadAll room [] b") (auto simp: bodyToString_def readable_def split: option.splits)

lemma bodyToString_None: "bodyToString room close None = Ret (''<nil>'', None)"
  by (simp add: bodyToString_def)

section \<open>Properties\<close>

text \<open>
  C18: the debug round tripper (\<^verbatim>\<open>--verbose\<close>) over a transport that sees of a body only what can
  be read from it.  When it returns, the exchange is the one without it: the same error, or a
  response with the same status, content type and bytes.  But it panics, where without it the
  caller gets an error to handle, exactly when the body of the request, or that of the response,
  cannot be read to its end or closed.
\<close>

theorem debug_transparent:
  assumes "\<And>u r b. readable room close b \<Longrightarrow>
      nxt u (r\<lparr>cr_body := Some (buffer (body_left b))\<rparr>) = nxt u (r\<lparr>cr_body := Some b\<rparr>)"
  shows "(debug_RoundTrip room close nxt u r = Panic p \<longleftrightarrow> p = Explicit \<and>
       ((\<exists>b. cr_body r = Some b \<and> \<not> readable room close b) \<or>
        (\<exists>resp. fst (nxt u r) = Inr resp \<and> \<not> readable room close (hr_body resp)))) \<and>
     (debug_RoundTrip room close nxt u r = Ret (res, u', log) \<longrightarrow> u' = snd (nxt u r) \<and>
       (case fst (nxt u r) of
          Inl e \<Rightarrow> res = Inl e
        | Inr resp \<Rightarrow> \<exists>resp'. res = Inr resp' \<and> hr_status resp' = hr_status resp \<and> hr_contentType resp' = hr_contentType resp \<and>
            ReadAll room [] (hr_body resp') = (fst (ReadAll room [] (hr_body resp)), None)))"
proof (cases "\<exists>b. cr_body r = Some b \<and> \<not> readable room close b")
  case True
  then show ?thesis by (auto simp: debug_RoundTrip_def bodyToString_cases ReadAll_data)
next
  case False
  have r: "cr_body r = b \<Longrightarrow> r\<lparr>cr_body := b\<rparr> = r" for b by (cases r) simp
  with False assms obtain logged b where b: "bodyToString room close (cr_body r) = Ret (logged, b)"
    and same: "nxt u (r\<lparr>cr_body := b\<rparr>) = nxt u r"
    by (cases "cr_body r") (auto simp: bodyToString_cases bodyToString_None r)
  obtain ans v where ans: "nxt u r = (ans, v)" by fastforce
  show ?thesis
    using False b same ans
    by (cases ans) (auto simp: debug_RoundTrip_def bodyToString_cases ReadAll_data)
qed

definition example_get :: client_request where
  "example_get = \<lparr>cr_method = ''GET'', cr_headers = [], cr_body = None\<rparr>"

definition example_transport :: "string \<Rightarrow> unit round_tripper" where
  "example_transport broken = (\<lambda>u r. (Inr \<lparr>hr_status = 200, hr_contentType = [],
     hr_body = Stream \<lparr>st_chunks = [''up 1''], st_end = (if broken = [] then EOF else OtherIO broken), st_eager = False\<rparr>\<rparr>, u))"

theorem debug_transparent_witness:
  "debug_RoundTrip (\<lambda>_. 512) (\<lambda>_. None) (example_transport ''reset'') () example_get = Panic Explicit"
proof -
  have "\<not> readable (\<lambda>_. 512) (\<lambda>_. None) (Stream \<lparr>st_chunks = [''up 1''], st_end = OtherIO ''reset'', st_eager = False\<rparr>)"
    by (simp add: readable_def ReadAll_stream)
  then show ?thesis
    using debug_transparent [of "\<lambda>_. 512" "\<lambda>_. None" "example_transport ''reset''" "()" example_get Explicit]
    by (simp add: example_transport_def)
qed

end
