(* ===== verification/Client_Process.thy ===== *)
theory Client_Process
  imports Forwarder Http_Utils
begin

text \<open>
  \<^verbatim>\<open>cmd/telemeter-client/main.go\<close> as a process: the worker, the reload by signal, the reload by
  request and the page of the last metrics, which act on one worker until the first of them
  returns.
\<close>

section \<open>The match rules across reloads\<close>

text \<open>
  The configuration a reload reads is the one of the start, but its slice of rules is a view on an
  array in which \<^verbatim>\<open>forwarder.New\<close> has removed blank rules.  The array \<open>arr\<close> may have room
  behind the \<open>n\<close> elements of the slice; the lines of a rules file are appended in place if they fit
  there, and in a new array otherwise.  The result is the rules and the array of the configuration.
\<close>

definition rules_in_place :: "string list \<Rightarrow> nat \<Rightarrow> string option \<Rightarrow> string list \<times> string list" where
  "rules_in_place arr n contents =
     (case contents of
        None \<Rightarrow> (case rules_loop arr n 0 of (arr', k) \<Rightarrow> (take k arr', arr'))
      | Some data \<Rightarrow>
          (let ls = Split (char_of (10::nat)) data; m = n + length ls
           in if m \<le> length arr
              then (case rules_loop (take n arr @ ls @ drop m arr) m 0 of (arr', k) \<Rightarrow> (take k arr', arr'))
              else (case rules_loop (take n arr @ ls) m 0 of (arr', k) \<Rightarrow> (take k arr', arr))))"

definition rules_file :: "files \<Rightarrow> config \<Rightarrow> string option" where
  "rules_file fs cfg =
     (if length (fc_RulesFile cfg) > 0 then (case fs_read fs (fc_RulesFile cfg) of Inl e \<Rightarrow> None | Inr d \<Rightarrow> Some d) else None)"

section \<open>The process\<close>

record 'u client_proc =
  cp_client :: "'u client_state"
  cp_array :: "string list"

text \<open>
  \<^verbatim>\<open>worker.Reconfigure(cfg)\<close> with the configuration of the start.  \<^verbatim>\<open>New\<close> writes to the array last,
  when nothing can fail any more.
\<close>

definition reload_worker :: "config \<Rightarrow> files \<Rightarrow> 'u client_proc \<Rightarrow> 'u client_proc \<times> config_err option" where
  "reload_worker cfg fs p =
     (let n = length (fc_Rules cfg)
      in (case Reconfigure fs (cfg\<lparr>fc_Rules := take n (cp_array p)\<rparr>) (fw_worker (cp_client p)) of
            (w, Some e) \<Rightarrow> (p, Some e)
          | (w, None) \<Rightarrow>
              (p\<lparr>cp_client := (cp_client p)\<lparr>fw_worker := w\<rparr>,
                 cp_array := snd (rules_in_place (cp_array p) n (rules_file fs cfg))\<rparr>, None)))"

text \<open>
  The page of the last metrics.  \<open>enc\<close> is the text encoder: what it writes of a family, and its
  error if it stops.
\<close>

fun serve_families :: "(family \<Rightarrow> string \<times> string option) \<Rightarrow> family option list \<Rightarrow> string" where
  "serve_families enc [] = []"
| "serve_families enc (None # fs) = serve_families enc fs"
| "serve_families enc (Some f # fs) =
     (case enc f of (out, None) \<Rightarrow> out @ serve_families enc fs | (out, Some e) \<Rightarrow> out)"

definition serveLastMetrics :: "(family \<Rightarrow> string \<times> string option) \<Rightarrow> worker \<Rightarrow> request \<Rightarrow> response" where
  "serveLastMetrics enc w r =
     (if rq_method r \<noteq> ''GET'' then empty_response\<lparr>rs_status := StatusMethodNotAllowed\<rparr>
      else empty_response\<lparr>rs_content := Text (serve_families enc (LastMetrics w))\<rparr>)"

text \<open>
  What happens to the process: a turn of the worker, a hang-up signal, requests to the two routes, the
  end of the HTTP server.  The first actor of the group that returns ends the process with its
  error; a failed reload by signal does, a failed reload by request is only answered.  The files are
  those at the time of the reload.
\<close>

datatype client_event =
    Turn "deadline \<times> deadline"
  | Hangup files
  | ReloadRequest files request
  | FederateRequest request
  | ServerExits string

datatype client_exit = ReloadFailed config_err | ServerFailed string

fun proc_step ::
  "env \<Rightarrow> 'u metrics_ext \<Rightarrow> (family \<Rightarrow> string \<times> string option) \<Rightarrow> config \<Rightarrow> 'u client_proc \<Rightarrow> client_event \<Rightarrow>
   ((client_exit + 'u client_proc) \<times> response option) go" where
  "proc_step e x enc cfg p (Turn d) =
     go_bind (run_once e x d (cp_client p)) (\<lambda>(s, wait). Ret (Inr (p\<lparr>cp_client := s\<rparr>), None))"
| "proc_step e x enc cfg p (Hangup fs) =
     (case reload_worker cfg fs p of
        (p', Some err) \<Rightarrow> Ret (Inl (ReloadFailed err), None)
      | (p', None) \<Rightarrow> Ret (Inr p', None))"
| "proc_step e x enc cfg p (ReloadRequest fs r) =
     go_bind (ReloadRoute (reload_worker cfg fs) p r) (\<lambda>(p', resp). Ret (Inr p', Some resp))"
| "proc_step e x enc cfg p (FederateRequest r) =
     Ret (Inr p, Some (serveLastMetrics enc (fw_worker (cp_client p)) r))"
| "proc_step e x enc cfg p (ServerExits err) = Ret (Inl (ServerFailed err), None)"

fun proc_run ::
  "env \<Rightarrow> 'u metrics_ext \<Rightarrow> (family \<Rightarrow> string \<times> string option) \<Rightarrow> config \<Rightarrow> client_event list \<Rightarrow> 'u client_proc \<Rightarrow>
   ((client_exit + 'u client_proc) \<times> response option list) go" where
  "proc_run e x enc cfg [] p = Ret (Inr p, [])"
| "proc_run e x enc cfg (ev # evs) p =
     go_bind (proc_step e x enc cfg p ev) (\<lambda>(q, resp).
       (case q of
          Inl ex \<Rightarrow> Ret (Inl ex, [resp])
        | Inr p' \<Rightarrow> go_bind (proc_run e x enc cfg evs p') (\<lambda>(q', resps). Ret (q', resp # resps))))"

section \<open>The command\<close>

text \<open>The flags that are passed on to the configuration, on top of those \<open>client_Run\<close> looks at.\<close>

record client_flags = client_options +
  cf_FromToken :: string
  cf_ToToken :: string
  cf_FromTokenFile :: string
  cf_ToTokenFile :: string
  cf_FromCAFile :: string
  cf_TLSCertFile :: string
  cf_TLSKey :: string
  cf_AnonymizeLabels :: "string list"
  cf_AnonymizeSalt :: string
  cf_AnonymizeSaltFile :: string
  cf_Interval :: duration
  cf_LimitBytes :: int
  cf_Rules :: "string list"
  cf_RulesFile :: string
  cf_TracingEndpoint :: string
  cf_TracingEndpointType :: string

datatype command_err = OptionsErr options_err | TracerErr tracing_err | ConfigErr config_err

definition client_config :: "client_flags \<Rightarrow> url \<times> url \<times> url \<times> transformer \<Rightarrow> config" where
  "client_config fl = (\<lambda>(from_u, auth, upload, transformer).
     \<lparr>fc_From = Some from_u, fc_ToAuthorize = Some auth, fc_ToUpload = Some upload,
      fc_FromToken = cf_FromToken fl, fc_ToToken = cf_ToToken fl,
      fc_FromTokenFile = cf_FromTokenFile fl, fc_ToTokenFile = cf_ToTokenFile fl,
      fc_FromCAFile = cf_FromCAFile fl, fc_TLSCertFile = cf_TLSCertFile fl, fc_TLSKey = cf_TLSKey fl,
      fc_AnonymizeLabels = cf_AnonymizeLabels fl, fc_AnonymizeSalt = cf_AnonymizeSalt fl,
      fc_AnonymizeSaltFile = cf_AnonymizeSaltFile fl, fc_Interval = cf_Interval fl, fc_LimitBytes = cf_LimitBytes fl,
      fc_Rules = cf_Rules fl, fc_RulesFile = cf_RulesFile fl, fc_Transformer = Some transformer\<rparr>)"

text \<open>\<^verbatim>\<open>Run\<close> up to the group of actors: the configuration that reloads use, and the worker.\<close>

definition client_command ::
  "(string \<Rightarrow> string + url) \<Rightarrow> tracing_ext \<Rightarrow> files \<Rightarrow> client_flags \<Rightarrow> command_err + config \<times> worker" where
  "client_command parse tx fs fl =
     (case client_Run parse (client_options.truncate fl) of
        Inl e \<Rightarrow> Inl (OptionsErr e)
      | Inr parts \<Rightarrow>
          (case InitTracer tx (cf_TracingEndpoint fl) (cf_TracingEndpointType fl) of
             (tp, Some e) \<Rightarrow> Inl (TracerErr e)
           | (tp, None) \<Rightarrow>
               (case New fs (client_config fl parts) of
                  Inl e \<Rightarrow> Inl (ConfigErr e)
                | Inr w \<Rightarrow> Inr (client_config fl parts, w))))"

text \<open>The process when it starts; \<open>spare\<close> is the room behind the slice of the flags.\<close>

definition client_started ::
  "(string \<Rightarrow> string + url) \<Rightarrow> tracing_ext \<Rightarrow> files \<Rightarrow> client_flags \<Rightarrow> string list \<Rightarrow> config \<Rightarrow> 'u client_proc \<Rightarrow> bool" where
  "client_started parse tx fs fl spare cfg p \<longleftrightarrow>
     client_command parse tx fs fl = Inr (cfg, fw_worker (cp_client p)) \<and>
     cp_array p = snd (rules_in_place (cf_Rules fl @ spare) (length (cf_Rules fl)) (rules_file fs cfg))"

section \<open>Lemmas\<close>

subsection \<open>Trimming\<close>

text \<open>Trimming a rule again changes nothing.\<close>

definition no_front :: "string list \<Rightarrow> string \<Rightarrow> bool" where
  "no_front ps s \<longleftrightarrow> (\<forall>p \<in> set ps. p \<noteq> [] \<and> s \<noteq> [] \<longrightarrow> \<not> starts_with p s)"

lemma strip_front_id: "no_front ps s \<Longrightarrow> strip_front ps s = s"
  by (subst strip_front.simps) (auto simp: no_front_def find_None_iff split: option.split dest!: find_Some_iff [THEN iffD1])

lemma strip_front_result: "no_front ps (strip_front ps s) \<and> (\<exists>k. strip_front ps s = drop k s)"
proof (induction ps s rule: strip_front.induct)
  case (1 ps s)
  show ?case
  proof (cases "find (\<lambda>p. p \<noteq> [] \<and> s \<noteq> [] \<and> starts_with p s) ps")
    case None
    then have "no_front ps s" by (auto simp: no_front_def find_None_iff)
    then show ?thesis by (simp add: strip_front_id) (metis drop0)
  next
    case (Some p)
    with 1 [OF Some] show ?thesis by (subst (1 2) strip_front.simps) (auto simp: drop_drop)
  qed
qed

lemma no_front_prefix: "no_front ps s \<Longrightarrow> no_front ps (take k s)"
  by (auto simp: no_front_def starts_with_def) (metis append_eq_conv_conj append_take_drop_id)

lemma TrimSpace_idem: "TrimSpace (TrimSpace s) = TrimSpace s"
proof -
  let ?fs = "space_encodings" and ?bs = "map rev space_encodings"
  let ?t = "strip_front ?fs s"
  obtain k where k: "strip_front ?bs (rev ?t) = drop k (rev ?t)" using strip_front_result by blast
  then have trim: "TrimSpace s = take (length ?t - k) ?t" by (simp add: TrimSpace_def rev_drop)
  have "no_front ?fs (TrimSpace s)" unfolding trim by (rule no_front_prefix) (simp add: strip_front_result)
  moreover have "no_front ?bs (rev (TrimSpace s))"
    using strip_front_result [of ?bs "rev ?t"] by (simp add: TrimSpace_def Let_def)
  ultimately show ?thesis by (subst TrimSpace_def) (simp add: strip_front_id)
qed

subsection \<open>The set of rules\<close>

definition rule_set :: "string list \<Rightarrow> string set" where
  "rule_set rules = TrimSpace ` set rules - {[]}"

lemma rule_set_simps [simp]:
  "rule_set [] = {}" "rule_set (r # rs) = (if TrimSpace r = [] then {} else {TrimSpace r}) \<union> rule_set rs"
  "rule_set (rs @ rs') = rule_set rs \<union> rule_set rs'"
  by (auto simp: rule_set_def)

lemma normalize_rules_set: "set (normalize_rules rules) = rule_set rules"
  by (auto simp: normalize_rules_exact rule_set_def)

lemma remove_at_rule_set:
  assumes "i < n" and "n \<le> m" and "m \<le> length arr" and "TrimSpace (arr ! i) = []"
  shows "rule_set (take m (remove_at arr n i)) = rule_set (take m arr)"
proof -
  have "take m (remove_at arr n i) = take i arr @ drop (Suc i) (take n arr) @ take (m - (n - 1)) (drop (n - 1) arr)"
    using assms(1-3) by (simp add: remove_at_def min_def)
  also have "take (m - (n - 1)) (drop (n - 1) arr) = arr ! (n - 1) # drop n (take m arr)"
    using assms(1-3) Cons_nth_drop_Suc [of "n - 1" "take m arr"] by (simp add: drop_take)
  finally have lhs: "take m (remove_at arr n i) = take i arr @ drop (Suc i) (take n arr) @ arr ! (n - 1) # drop n (take m arr)" .
  have rhs: "take m arr = take i arr @ arr ! i # drop (Suc i) (take n arr) @ drop n (take m arr)"
  proof -
    have "take m arr = take n arr @ drop n (take m arr)" using assms(2) by (metis append_take_drop_id min.absorb1 take_take)
    moreover have "take n arr = take i arr @ arr ! i # drop (Suc i) (take n arr)"
      using assms(1-3) id_take_nth_drop [of i "take n arr"] by (simp add: min_def)
    ultimately show ?thesis by (metis append.assoc append_Cons)
  qed
  have "arr ! (n - 1) = arr ! i \<or> arr ! (n - 1) \<in> set (drop (Suc i) (take n arr))"
  proof (cases "i = n - 1")
    case False
    then have e: "Suc i + (n - 1 - Suc i) = n - 1" and l: "n - 1 - Suc i < length (drop (Suc i) (take n arr))"
      using assms(1-3) by simp_all
    have "drop (Suc i) (take n arr) ! (n - 1 - Suc i) = take n arr ! (Suc i + (n - 1 - Suc i))"
      using assms(1-3) by (intro nth_drop) simp
    then have "drop (Suc i) (take n arr) ! (n - 1 - Suc i) = arr ! (n - 1)"
      unfolding e using assms(1) by simp
    with l show ?thesis by (metis nth_mem)
  qed simp
  then have "rule_set [arr ! (n - 1)] \<subseteq> rule_set (drop (Suc i) (take n arr))"
    using assms(4) by (auto simp: rule_set_def)
  moreover have "rule_set (take m arr) = rule_set (take i arr @ arr ! i # drop (Suc i) (take n arr) @ drop n (take m arr))"
    by (rule arg_cong [OF rhs])
  ultimately show ?thesis unfolding lhs using assms(4) by auto
qed

lemma rules_loop_rule_set:
  "i \<le> n \<Longrightarrow> n \<le> m \<Longrightarrow> m \<le> length arr \<Longrightarrow> rules_loop arr n i = (arr', k) \<Longrightarrow>
     length arr' = length arr \<and> rule_set (take m arr') = rule_set (take m arr)"
proof (induction arr n i rule: rules_loop.induct)
  case (1 arr n i)
  show ?case
  proof (cases "i < n")
    case True
    note loop = 1(6) [unfolded rules_loop.simps [of arr n i], simplified Let_def]
    show ?thesis
    proof (cases "TrimSpace (arr ! i) = []")
      case blank: True
      with loop True have "rules_loop (remove_at arr n i) (n - 1) i = (arr', k)" by simp
      with 1(1) [OF True refl] blank True 1(3-5) remove_at_slice(1) [OF True, of arr] remove_at_rule_set [OF True 1(4,5) blank]
      show ?thesis by auto
    next
      case False
      with loop True have "rules_loop (arr[i := TrimSpace (arr ! i)]) n (Suc i) = (arr', k)" by simp
      with 1(2) [OF True refl] False True 1(3-5)
      have "length arr' = length arr" and "rule_set (take m arr') = rule_set (take m (arr[i := TrimSpace (arr ! i)]))" by auto
      moreover have "rule_set (take m (arr[i := TrimSpace (arr ! i)])) = rule_set (take m arr)"
      proof -
        have im: "i < length (take m arr)" using True 1(4,5) by simp
        have u: "take m (arr[i := TrimSpace (arr ! i)]) = (take m arr)[i := TrimSpace (take m arr ! i)]"
          using True 1(4,5) by (simp add: take_update_swap)
        have "rule_set (take m arr) = rule_set (take i (take m arr) @ take m arr ! i # drop (Suc i) (take m arr))"
          by (rule arg_cong [OF id_take_nth_drop [OF im]])
        then show ?thesis unfolding u upd_conv_take_nth_drop [OF im] by (simp add: TrimSpace_idem)
      qed
      ultimately show ?thesis by simp
    qed
  next
    case False
    with 1 show ?thesis by (subst (asm) rules_loop.simps) auto
  qed
qed

subsection \<open>Reloading\<close>

text \<open>Whether a configuration is accepted does not depend on its rules.\<close>

lemma New_parts:
  "check_tls fs (cfg\<lparr>fc_Rules := rs\<rparr>) = check_tls fs cfg"
  "worker_transforms (cfg\<lparr>fc_Rules := rs\<rparr>) salt tok = worker_transforms cfg salt tok"
  by (cases cfg, simp only: check_tls_def worker_transforms_def config.select_convs config.update_convs)+

lemma New_rules:
  "New fs (cfg\<lparr>fc_Rules := rs\<rparr>) =
     (case New fs cfg of Inl e \<Rightarrow> Inl e | Inr w \<Rightarrow> Inr (w\<lparr>wk_rules := normalize_rules (with_file rs (rules_file fs cfg))\<rparr>))"
  by (cases "fc_From cfg"; cases "value_or_file fs (fc_AnonymizeSalt cfg) (fc_AnonymizeSaltFile cfg)";
      cases "check_tls fs cfg"; cases "value_or_file fs (fc_FromToken cfg) (fc_FromTokenFile cfg)";
      cases "value_or_file fs (fc_ToToken cfg) (fc_ToTokenFile cfg)"; cases "fs_read fs (fc_RulesFile cfg)";
      cases "fc_ToAuthorize cfg")
    (simp_all add: New_def Let_def New_parts rules_file_def)

lemma New_rules_own: "New fs cfg = Inr w \<Longrightarrow> wk_rules w = normalize_rules (with_file (fc_Rules cfg) (rules_file fs cfg))"
  using New_rules [of fs "fc_Rules cfg" cfg] by (cases w) simp

text \<open>
  The invariant of a process without a rules file: the array has the slice of the flags, and its
  rules and those of the worker are the rules of the flags.  The worker has a token.
\<close>

definition proc_ok :: "config \<Rightarrow> 'u client_proc \<Rightarrow> bool" where
  "proc_ok cfg p \<longleftrightarrow>
     length (fc_Rules cfg) \<le> length (cp_array p) \<and>
     rule_set (take (length (fc_Rules cfg)) (cp_array p)) = rule_set (fc_Rules cfg) \<and>
     set (wk_rules (fw_worker (cp_client p))) = rule_set (fc_Rules cfg) \<and>
     (\<exists>tok u. wk_toToken (fw_worker (cp_client p)) = Some (tok, u) \<and> tok \<noteq> []) \<and>
     client_shape (wk_transformer (fw_worker (cp_client p)))"

lemma rules_in_place_None:
  assumes "n \<le> length arr" and "rules_in_place arr n None = (rules, arr')"
  shows "length arr' = length arr \<and> rule_set (take n arr') = rule_set (take n arr)"
  using assms rules_loop_rule_set [of 0 n n arr] by (auto simp: rules_in_place_def split: prod.splits)

text \<open>With an authorization URL a worker is never made without a token.\<close>

lemma New_token:
  "New fs cfg = Inr w \<Longrightarrow> fc_ToAuthorize cfg \<noteq> None \<Longrightarrow> \<exists>tok u. wk_toToken w = Some (tok, u) \<and> tok \<noteq> []"
  by (elim New_InrE) auto

lemma client_startedE:
  assumes "client_started parse tx fs fl spare cfg p"
  obtains labels renames where "New fs cfg = Inr (fw_worker (cp_client p))"
    and "fc_Rules cfg = cf_Rules fl" and "fc_RulesFile cfg = cf_RulesFile fl" and "fc_ToAuthorize cfg \<noteq> None"
    and "fc_Transformer cfg = Some (client_transforms labels renames)"
proof -
  from assms obtain parts where run: "client_Run parse (client_options.truncate fl) = Inr parts"
    and cfg: "cfg = client_config fl parts" and new: "New fs cfg = Inr (fw_worker (cp_client p))"
    by (auto simp: client_started_def client_command_def split: sum.splits option.splits prod.splits)
  from run obtain from_u auth upload labels renames where
    "parts = (from_u, auth, upload, client_transforms labels renames)"
    by (auto simp: client_Run_def split: if_splits sum.splits)
  with cfg new show thesis by (intro that) (simp_all add: client_config_def)
qed

lemma started_ok:
  assumes "client_started parse tx fs fl spare cfg p" and "cf_RulesFile fl = []"
  shows "proc_ok cfg p"
proof -
  from assms(1) obtain labels renames where new: "New fs cfg = Inr (fw_worker (cp_client p))"
    and cfg: "fc_Rules cfg = cf_Rules fl" "fc_RulesFile cfg = cf_RulesFile fl" "fc_ToAuthorize cfg \<noteq> None"
    and trans: "fc_Transformer cfg = Some (client_transforms labels renames)" by (rule client_startedE)
  have none: "rules_file fs cfg = None" using assms(2) cfg by (simp add: rules_file_def)
  then have "cp_array p = snd (rules_in_place (fc_Rules cfg @ spare) (length (fc_Rules cfg)) None)"
    using assms(1) cfg by (simp add: client_started_def)
  with rules_in_place_None [of "length (fc_Rules cfg)" "fc_Rules cfg @ spare", OF _ prod.collapse [symmetric]]
  have arr: "length (cp_array p) = length (fc_Rules cfg) + length spare"
    "rule_set (take (length (fc_Rules cfg)) (cp_array p)) = rule_set (fc_Rules cfg)"
    by simp_all
  have "set (wk_rules (fw_worker (cp_client p))) = rule_set (fc_Rules cfg)"
    using New_rules_own [OF new] none by (simp add: with_file_def normalize_rules_set)
  moreover have "client_shape (wk_transformer (fw_worker (cp_client p)))"
    using New_transformer [OF new] worker_transforms_shape [OF trans] by metis
  ultimately show ?thesis using arr New_token [OF new cfg(3)] by (simp add: proc_ok_def)
qed

lemma reload_outcome:
  assumes "proc_ok cfg p" and "fc_RulesFile cfg = []" and "fc_Transformer cfg = Some (client_transforms labels renames)"
    and "fc_ToAuthorize cfg \<noteq> None"
  shows "New fs cfg = Inl err \<Longrightarrow> reload_worker cfg fs p = (p, Some err)"
    and "New fs cfg = Inr w \<Longrightarrow> \<exists>p'. reload_worker cfg fs p = (p', None) \<and> proc_ok cfg p' \<and>
      fw_total (cp_client p') = fw_total (cp_client p)"
proof -
  let ?n = "length (fc_Rules cfg)"
  let ?cfg = "cfg\<lparr>fc_Rules := take ?n (cp_array p)\<rparr>"
  have nofile: "rules_file fs cfg = None" using assms(2) by (simp add: rules_file_def)
  show "New fs cfg = Inl err \<Longrightarrow> reload_worker cfg fs p = (p, Some err)"
    by (simp add: reload_worker_def Reconfigure_def New_rules)
  assume new: "New fs cfg = Inr w"
  let ?w = "w\<lparr>wk_rules := normalize_rules (take ?n (cp_array p)), wk_lastMetrics := wk_lastMetrics (fw_worker (cp_client p))\<rparr>"
  obtain rules arr' where arr: "rules_in_place (cp_array p) ?n None = (rules, arr')" by fastforce
  have "Reconfigure fs ?cfg (fw_worker (cp_client p)) = (?w, None)"
    using new nofile by (simp add: Reconfigure_def New_rules with_file_def)
  then have "reload_worker cfg fs p = (p\<lparr>cp_client := (cp_client p)\<lparr>fw_worker := ?w\<rparr>, cp_array := arr'\<rparr>, None)"
    using nofile arr by (simp add: reload_worker_def)
  moreover have "client_shape (wk_transformer w)"
    using New_transformer [OF new] worker_transforms_shape [OF assms(3)] by metis
  then have "proc_ok cfg (p\<lparr>cp_client := (cp_client p)\<lparr>fw_worker := ?w\<rparr>, cp_array := arr'\<rparr>)"
    using assms(1) rules_in_place_None [OF _ arr] New_token [OF new assms(4)] by (simp add: proc_ok_def normalize_rules_set)
  ultimately show "\<exists>p'. reload_worker cfg fs p = (p', None) \<and> proc_ok cfg p' \<and> fw_total (cp_client p') = fw_total (cp_client p)"
    by (simp del: not_None_eq)
qed

subsection \<open>A run of the process\<close>

lemma forward_keeps:
  "forward e x d1 d2 s = Ret (s', err) \<Longrightarrow>
     wk_rules (fw_worker s') = wk_rules (fw_worker s) \<and> wk_toToken (fw_worker s') = wk_toToken (fw_worker s)"
  by (erule forward_cases) simp_all

lemma run_once_keeps:
  "run_once e x d s = Ret (s', wait) \<Longrightarrow>
     wk_rules (fw_worker s') = wk_rules (fw_worker s) \<and> wk_toToken (fw_worker s') = wk_toToken (fw_worker s)"
  by (erule run_once_forward) (auto dest!: forward_keeps split: if_splits)

text \<open>How an event ends the process, and what a request is answered with.\<close>

fun ending :: "config \<Rightarrow> client_event \<Rightarrow> client_exit option" where
  "ending cfg (Hangup fs) = (case New fs cfg of Inl e \<Rightarrow> Some (ReloadFailed e) | Inr w \<Rightarrow> None)"
| "ending cfg (ServerExits err) = Some (ServerFailed err)"
| "ending cfg _ = None"

fun answered :: "config \<Rightarrow> client_event \<Rightarrow> response option \<Rightarrow> bool" where
  "answered cfg (ReloadRequest fs r) resp =
     (map_option rs_status resp =
        Some (if rq_method r \<noteq> ''POST'' then 405 else case New fs cfg of Inl e \<Rightarrow> 500 | Inr w \<Rightarrow> 200))"
| "answered cfg (FederateRequest r) resp = (map_option rs_status resp = Some (if rq_method r \<noteq> ''GET'' then 405 else 200))"
| "answered cfg _ resp = (resp = None)"

definition turns :: "client_event list \<Rightarrow> nat" where
  "turns evs = length (filter (\<lambda>ev. \<exists>d. ev = Turn d) evs)"

lemma proc_step_ok:
  assumes sorts: "sort_contract metric_less (e_sortMetrics e)" and dec: "decoder_clean x"
    and cfg: "fc_RulesFile cfg = []" "fc_Transformer cfg = Some (client_transforms labels renames)" "fc_ToAuthorize cfg \<noteq> None"
    and ok: "proc_ok cfg p"
  shows "\<exists>q resp. proc_step e x enc cfg p ev = Ret (q, resp) \<and> answered cfg ev resp \<and>
    (case ending cfg ev of
       Some ex \<Rightarrow> q = Inl ex
     | None \<Rightarrow> \<exists>p'. q = Inr p' \<and> proc_ok cfg p' \<and> fw_total (cp_client p') = fw_total (cp_client p) + turns [ev])"
proof (cases ev)
  case (Turn d)
  have "client_shape (wk_transformer (fw_worker (cp_client p)))" using ok by (simp add: proc_ok_def)
  from run_once_total [OF sorts dec this, of d] obtain s' wait where
    "run_once e x d (cp_client p) = Ret (s', wait)" "client_shape (wk_transformer (fw_worker s'))"
    "fw_total s' = Suc (fw_total (cp_client p))" by blast
  with Turn ok show ?thesis by (simp add: turns_def proc_ok_def run_once_keeps)
next
  case (Hangup fs)
  show ?thesis
  proof (cases "New fs cfg")
    case (Inl err)
    with Hangup reload_outcome(1) [OF ok cfg] show ?thesis by simp
  next
    case (Inr w)
    with Hangup reload_outcome(2) [OF ok cfg, of fs w] show ?thesis by (auto simp: turns_def)
  qed
next
  case (ReloadRequest fs r)
  show ?thesis
  proof (cases "New fs cfg")
    case (Inl err)
    with ReloadRequest ok reload_outcome(1) [OF ok cfg] show ?thesis
      by (simp add: ReloadRoute_def turns_def status_defs)
  next
    case (Inr w)
    with ReloadRequest ok reload_outcome(2) [OF ok cfg, of fs w] show ?thesis
      by (auto simp: ReloadRoute_def turns_def status_defs)
  qed
next
  case (FederateRequest r)
  with ok show ?thesis by (simp add: serveLastMetrics_def turns_def status_defs empty_response_def)
next
  case (ServerExits err)
  then show ?thesis by simp
qed

lemma turns_Cons: "turns (ev # evs) = turns [ev] + turns evs"
  by (simp add: turns_def)

lemma proc_run_ok:
  assumes "sort_contract metric_less (e_sortMetrics e)" and "decoder_clean x"
    and "fc_RulesFile cfg = []" "fc_Transformer cfg = Some (client_transforms labels renames)" "fc_ToAuthorize cfg \<noteq> None"
    and "proc_ok cfg p"
  shows "\<exists>q resps. proc_run e x enc cfg evs p = Ret (q, resps) \<and>
    list_all2 (answered cfg) (take (length resps) evs) resps \<and>
    (case find (\<lambda>ev. ending cfg ev \<noteq> None) evs of
       Some ev \<Rightarrow> length resps = Suc (length (takeWhile (\<lambda>ev. ending cfg ev = None) evs)) \<and>
         (\<exists>ex. ending cfg ev = Some ex \<and> q = Inl ex)
     | None \<Rightarrow> length resps = length evs \<and> (\<exists>p'. q = Inr p' \<and> proc_ok cfg p' \<and>
         fw_total (cp_client p') = fw_total (cp_client p) + turns evs))"
  using assms(6)
proof (induction evs arbitrary: p)
  case Nil
  then show ?case by (simp add: turns_def)
next
  case (Cons ev evs)
  from proc_step_ok [OF assms(1-5) Cons.prems] obtain q resp where
    st: "proc_step e x enc cfg p ev = Ret (q, resp)" "answered cfg ev resp" and
    next_q: "case ending cfg ev of Some ex \<Rightarrow> q = Inl ex
      | None \<Rightarrow> \<exists>p'. q = Inr p' \<and> proc_ok cfg p' \<and> fw_total (cp_client p') = fw_total (cp_client p) + turns [ev]"
    by blast
  show ?case
  proof (cases "ending cfg ev")
    case (Some ex)
    with st next_q show ?thesis by simp
  next
    case None
    with next_q obtain p' where p': "q = Inr p'" "proc_ok cfg p'"
      "fw_total (cp_client p') = fw_total (cp_client p) + turns [ev]" by auto
    from Cons.IH [OF p'(2)] obtain q' resps where run: "proc_run e x enc cfg evs p' = Ret (q', resps)"
      "list_all2 (answered cfg) (take (length resps) evs) resps" and
      fin: "case find (\<lambda>ev. ending cfg ev \<noteq> None) evs of
         Some ev \<Rightarrow> length resps = Suc (length (takeWhile (\<lambda>ev. ending cfg ev = None) evs)) \<and>
           (\<exists>ex. ending cfg ev = Some ex \<and> q' = Inl ex)
       | None \<Rightarrow> length resps = length evs \<and> (\<exists>p''. q' = Inr p'' \<and> proc_ok cfg p'' \<and>
           fw_total (cp_client p'') = fw_total (cp_client p') + turns evs)"
      by blast
    have "proc_run e x enc cfg (ev # evs) p = Ret (q', resp # resps)" using st(1) p'(1) run(1) by simp
    then show ?thesis using st(2) run(2) fin p'(3) None
      by (auto simp: turns_Cons [of ev evs] simp del: proc_run.simps split: option.splits)
  qed
qed

section \<open>Properties\<close>


definition example_disk :: "string \<Rightarrow> files" where
  "example_disk content =
     \<lparr>fs_read = (\<lambda>_. if content = [] then Inl ''missing'' else Inr content), fs_keyPair = (\<lambda>_ _. None), fs_certPool = None\<rparr>"

definition example_client_flags :: client_flags where
  "example_client_flags =
     \<lparr>co_From = ''prom'', co_To = ''server'', co_ToUpload = [], co_ToAuthorize = [], co_Identifier = [], co_LabelFlag = [],
      co_RenameFlag = [[]], cf_FromToken = [], cf_ToToken = ''t'', cf_FromTokenFile = ''tok'', cf_ToTokenFile = [],
      cf_FromCAFile = [], cf_TLSCertFile = [], cf_TLSKey = [], cf_AnonymizeLabels = [], cf_AnonymizeSalt = [],
      cf_AnonymizeSaltFile = [], cf_Interval = 0, cf_LimitBytes = 100, cf_Rules = [''a'', [], ''b''], cf_RulesFile = [],
      cf_TracingEndpoint = [], cf_TracingEndpointType = []\<rparr>"

definition example_tracing :: tracing_ext where
  "example_tracing = \<lparr>tx_resource = None, tx_splitHostPort = (\<lambda>s. Inl s), tx_jaeger = (\<lambda>_. None), tx_otlp = (\<lambda>_. None)\<rparr>"

lemma example_command:
  "\<exists>cfg w. client_command (\<lambda>s. Inr (example_url s)) example_tracing (example_disk ''a'') example_client_flags = Inr (cfg, w) \<and>
     New (example_disk ''a'') cfg = Inr w \<and> New (example_disk []) cfg = Inl (BadFromTokenFile ''missing'')"
proof -
  have "\<exists>parts. client_Run (\<lambda>s. Inr (example_url s)) (client_options.truncate example_client_flags) = Inr parts"
    by (simp add: client_Run_def example_client_flags_def client_options.truncate_def rename_flags_def destinations_def
        parse_optional_def case_prod_unfold)
  then obtain parts where run: "client_Run (\<lambda>s. Inr (example_url s)) (client_options.truncate example_client_flags) = Inr parts" ..
  have "\<exists>w. New (example_disk ''a'') (client_config example_client_flags parts) = Inr w"
    and bad: "New (example_disk []) (client_config example_client_flags parts) = Inl (BadFromTokenFile ''missing'')"
    by (cases parts, simp add: New_def client_config_def example_client_flags_def example_disk_def value_or_file_def check_tls_def
        trim_examples Let_def)+
  then obtain w where "New (example_disk ''a'') (client_config example_client_flags parts) = Inr w" by blast
  with bad run show ?thesis
    by (simp add: client_command_def InitTracer_def) (simp add: example_client_flags_def)
qed

definition post :: request where
  "post = \<lparr>rq_method = ''POST'', rq_header = (\<lambda>_. []), rq_form = (\<lambda>_. Inl []), rq_body = buffer [], rq_client = None,
     rq_cluster = None, rq_tenant = None, rq_values = (\<lambda>_. None)\<rparr>"


end
