(* ===== verification/Authorization_Server.thy ===== *)
theory Authorization_Server
  imports Tollbooth Jwt
begin

text \<open>
  \<^verbatim>\<open>cmd/authorization-server/main.go\<close>: the mock of tollbooth with the tokens of a JSON file, and what it
  means for the telemeter server in front of it.
\<close>

section \<open>The command\<close>

definition NewMock :: "string set \<Rightarrow> mock" where
  "NewMock tokenSet = \<lparr>mk_Tokens = tokenSet, mk_Responses = (\<lambda>_. None)\<rparr>"

datatype auth_server_err = BadArguments | UnreadableTokens string | UnparsableTokens string

text \<open>\<open>unmarshal\<close> is the JSON decoder of the token entries.\<close>

definition authorization_server ::
  "(string \<Rightarrow> string + string) \<Rightarrow> (string \<Rightarrow> string + string list) \<Rightarrow> string list \<Rightarrow> auth_server_err + string \<times> mock" where
  "authorization_server read unmarshal args =
     (if length args \<noteq> 3 then Inl BadArguments
      else (case read (args ! 2) of
              Inl e \<Rightarrow> Inl (UnreadableTokens e)
            | Inr data \<Rightarrow>
                (case unmarshal data of
                   Inl e \<Rightarrow> Inl (UnparsableTokens e)
                 | Inr entries \<Rightarrow> Inr (args ! 1, NewMock (foldl (\<lambda>s e. insert e s) {} entries)))))"

text \<open>The server after any sequence of requests.\<close>

inductive mock_reachable :: "(string \<Rightarrow> string + clusterRegistration) \<Rightarrow> mock \<Rightarrow> mock \<Rightarrow> bool" for decode m0 where
  start: "mock_reachable decode m0 m0"
| request: "mock_reachable decode m0 m \<Longrightarrow> mock_ServeHTTP decode m req = (m', code, rep) \<Longrightarrow> mock_reachable decode m0 m'"

section \<open>Lemmas\<close>

lemma mock_tokens: "mock_ServeHTTP decode s req = (s', code, rep) \<Longrightarrow> mk_Tokens s' = mk_Tokens s"
  by (auto simp: mock_ServeHTTP_def Let_def split: if_splits sum.splits option.splits)

lemma mock_success:
  assumes "mock_ServeHTTP decode s req = (s', code, rep)" and "code = 200 \<or> code = 201"
    and "decode (body_left (rq_body req)) = Inr rr"
  shows "cr_AuthorizationToken rr \<in> mk_Tokens s \<and> mk_Responses s' (cr_AuthorizationToken rr, cr_ClusterID rr) \<noteq> None"
  using assms by (auto simp: mock_ServeHTTP_def Let_def status_defs split: if_splits option.splits)

lemma reachable_mock:
  assumes "mock_reachable decode m0 m" and "mock_ok m0"
  shows "mk_Tokens m = mk_Tokens m0 \<and> mock_ok m"
  using assms(1)
proof (induction rule: mock_reachable.induct)
  case (request m req m' code rep)
  then show ?case using mock_tokens mock_step_ok by metis
qed (use assms(2) in simp)

text \<open>An authorization that succeeds reached the mock with a token it knows.\<close>

lemma AuthorizeCluster_mock:
  assumes "AuthorizeCluster cd (mock_endpoint decode render) s token cluster = (Inr acc, s')"
    and "\<And>rr data. tb_marshal cd rr = Inr data \<Longrightarrow> decode data = Inr rr"
  shows "token \<in> mk_Tokens s \<and> mk_Responses s' (token, cluster) \<noteq> None \<and>
    (\<exists>req code rep. mock_ServeHTTP decode s req = (s', code, rep))"
proof -
  let ?rr = "\<lparr>cr_ClusterID = cluster, cr_AuthorizationToken = token, cr_AccountID = []\<rparr>"
  from assms(1) obtain data where data: "tb_marshal cd ?rr = Inr data"
    by (auto simp: AuthorizeCluster_def Let_def split: sum.splits)
  from assms(1) data obtain bd where
    asked: "AgainstEndpoint (mock_endpoint decode render) (Some (validate_contentType cd)) s data = ((bd, None), s')"
    by (auto simp: AuthorizeCluster_def Let_def split: prod.splits option.splits sum.splits if_splits)
  let ?req = "\<lparr>rq_method = ''POST'', rq_header = (\<lambda>_. ''application/json''), rq_form = (\<lambda>_. Inl []),
      rq_body = buffer data, rq_client = None, rq_cluster = None, rq_tenant = None, rq_values = (\<lambda>_. None)\<rparr> :: request"
  obtain s1 code rep where run: "mock_ServeHTTP decode s ?req = (s1, code, rep)" by (metis prod_cases3)
  with asked have "s1 = s'" and "status_error code bd = None"
    by (auto simp: AgainstEndpoint_def mock_endpoint_def split: prod.splits option.splits)
  then have "code = 200 \<or> code = 201" by (simp add: status_error_None)
  with mock_success [OF run, of ?rr] assms(2) [OF data] run \<open>s1 = s'\<close> show ?thesis by auto
qed

section \<open>Properties\<close>


text \<open>A file with two tokens, a codec for one registration, and a request for it.\<close>

definition example_entry :: "string \<Rightarrow> clusterRegistration" where
  "example_entry acc = \<lparr>cr_ClusterID = ''c1'', cr_AuthorizationToken = ''secret'', cr_AccountID = acc\<rparr>"

definition example_json :: tollbooth_codec where
  "example_json = \<lparr>tb_marshal = (\<lambda>r. if r = example_entry [] then Inr ''q'' else Inl ''unsupported''),
     tb_unmarshal = (\<lambda>s. Inr (example_entry (Hash ''c1''))), tb_mediaType = Some\<rparr>"

definition example_issuer :: "(mock, nat) authorizeClusterHandler" where
  "example_issuer = \<lparr>ah_clusterIDKey = ''_id'', ah_labels = [], ah_expireInSeconds = 3600, ah_iss = ''iss'',
     ah_privateKey = ECDSA P256 0,
     ah_clusterAuth = AuthorizeCluster example_json (mock_endpoint (\<lambda>_. Inr (example_entry [])) (\<lambda>_. ''r''))\<rparr>"

definition example_signer :: "(nat, nat, unit) jose" where
  "example_signer = \<lparr>jo_sign = (\<lambda>_ _ _. Inr ''token''), jo_parse = (\<lambda>_. Inr ()), jo_claims = (\<lambda>_ _. Inl [])\<rparr>"


end
