(* ===== verification/Run_Group.thy ===== *)
theory Run_Group
  imports Go_Prelude
begin

text \<open>
  How the commands end: \<^verbatim>\<open>run.Group\<close> of \<^verbatim>\<open>github.com/oklog/run\<close> (vendored), which
  runs actors until the first of them returns and then interrupts them all, and the actors the two
  servers add to it.  The locale \<open>group_actor\<close> says what an actor owes the group; it is interpreted
  on the actors of the servers.
\<close>

section \<open>The group\<close>

text \<open>
  Where \<^verbatim>\<open>Run\<close> of the group is: waiting for the first actor to return; at the interrupt
  function of an actor, before or after the call; waiting for the other actors; done, with the error
  of the first one.
\<close>

datatype group_phase =
    Waiting
  | Interrupting nat bool "string option"
  | Draining "string option"
  | Finished "string option"

text \<open>The actors, the results sent on the channel so far, in order, and the goroutine of \<^verbatim>\<open>Run\<close>.\<close>

record 'a group =
  gr_actors :: "'a list"
  gr_errors :: "string option list"
  gr_phase :: group_phase

definition group_start :: "'a list \<Rightarrow> 'a group" where
  "group_start as = \<lparr>gr_actors = as, gr_errors = [], gr_phase = Waiting\<rparr>"

text \<open>
  \<open>astep a a' out\<close> is a step of an actor, with the result if its function returns; \<open>interrupt\<close> is
  what the call of its interrupt function does at once, and \<open>quiet\<close> says that this call can return.
\<close>

inductive group_step ::
  "('a \<Rightarrow> 'a \<Rightarrow> string option option \<Rightarrow> bool) \<Rightarrow> ('a \<Rightarrow> 'a) \<Rightarrow> ('a \<Rightarrow> bool) \<Rightarrow> 'a group \<Rightarrow> 'a group \<Rightarrow> bool"
  for astep interrupt quiet where
  act: "i < length (gr_actors s) \<Longrightarrow> astep (gr_actors s ! i) a out \<Longrightarrow>
    group_step astep interrupt quiet s (s\<lparr>gr_actors := (gr_actors s)[i := a],
      gr_errors := gr_errors s @ (case out of None \<Rightarrow> [] | Some r \<Rightarrow> [r])\<rparr>)"
| first: "gr_phase s = Waiting \<Longrightarrow> gr_errors s = e # es \<Longrightarrow>
    group_step astep interrupt quiet s (s\<lparr>gr_phase := Interrupting 0 False e\<rparr>)"
| call: "gr_phase s = Interrupting i False e \<Longrightarrow> i < length (gr_actors s) \<Longrightarrow>
    group_step astep interrupt quiet s
      (s\<lparr>gr_actors := (gr_actors s)[i := interrupt (gr_actors s ! i)], gr_phase := Interrupting i True e\<rparr>)"
| yields: "gr_phase s = Interrupting i True e \<Longrightarrow> quiet (gr_actors s ! i) \<Longrightarrow>
    group_step astep interrupt quiet s (s\<lparr>gr_phase := Interrupting (Suc i) False e\<rparr>)"
| called: "gr_phase s = Interrupting i False e \<Longrightarrow> i = length (gr_actors s) \<Longrightarrow>
    group_step astep interrupt quiet s (s\<lparr>gr_phase := Draining e\<rparr>)"
| drained: "gr_phase s = Draining e \<Longrightarrow> length (gr_errors s) = length (gr_actors s) \<Longrightarrow>
    group_step astep interrupt quiet s (s\<lparr>gr_phase := Finished e\<rparr>)"

inductive group_reachable ::
  "('a \<Rightarrow> 'a \<Rightarrow> string option option \<Rightarrow> bool) \<Rightarrow> ('a \<Rightarrow> 'a) \<Rightarrow> ('a \<Rightarrow> bool) \<Rightarrow> 'a list \<Rightarrow> 'a group \<Rightarrow> bool"
  for astep interrupt quiet as where
  start: "group_reachable astep interrupt quiet as (group_start as)"
| step: "group_reachable astep interrupt quiet as s \<Longrightarrow> group_step astep interrupt quiet s s' \<Longrightarrow>
    group_reachable astep interrupt quiet as s'"

section \<open>What an actor owes the group\<close>

text \<open>
  An actor returns once; unless it was interrupted it returns with an error; after its interruption
  it has at most \<open>left\<close> steps to make until the interrupt function and its own function are back, and it
  always can make one.
\<close>

fun asked_upto :: "group_phase \<Rightarrow> nat \<Rightarrow> bool" where
  "asked_upto Waiting j = False"
| "asked_upto (Interrupting i called e) j = (j < i \<or> called \<and> j = i)"
| "asked_upto _ j = True"

fun quiet_upto :: "group_phase \<Rightarrow> nat \<Rightarrow> bool" where
  "quiet_upto Waiting j = False"
| "quiet_upto (Interrupting i called e) j = (j < i)"
| "quiet_upto _ j = True"

fun phase_error :: "group_phase \<Rightarrow> string option option" where
  "phase_error Waiting = None"
| "phase_error (Interrupting i called e) = Some e"
| "phase_error (Draining e) = Some e"
| "phase_error (Finished e) = Some e"

fun phase_left :: "nat \<Rightarrow> group_phase \<Rightarrow> nat" where
  "phase_left n Waiting = 2 * n + 4"
| "phase_left n (Interrupting i called e) = 2 * (n - i) + (if called then 2 else 3)"
| "phase_left n (Draining e) = 1"
| "phase_left n (Finished e) = 0"

locale group_actor =
  fixes astep :: "'a \<Rightarrow> 'a \<Rightarrow> string option option \<Rightarrow> bool" and interrupt :: "'a \<Rightarrow> 'a" and quiet :: "'a \<Rightarrow> bool"
    and returned :: "'a \<Rightarrow> bool" and asked :: "'a \<Rightarrow> bool" and left :: "'a \<Rightarrow> nat"
  assumes returns: "astep a a' out \<Longrightarrow> returned a' \<longleftrightarrow> returned a \<or> out \<noteq> None"
    and returns_once: "astep a a' (Some r) \<Longrightarrow> \<not> returned a"
    and asked_step: "astep a a' out \<Longrightarrow> asked a' = asked a"
    and interrupt_asks: "asked (interrupt a)"
    and interrupt_returned: "returned (interrupt a) = returned a"
    and unasked_error: "astep a a' (Some r) \<Longrightarrow> \<not> asked a \<Longrightarrow> r \<noteq> None"
    and quiet_step: "astep a a' out \<Longrightarrow> asked a \<Longrightarrow> quiet a \<Longrightarrow> quiet a'"
    and asked_progress: "asked a \<Longrightarrow> \<not> (quiet a \<and> returned a) \<Longrightarrow> \<exists>a' out. astep a a' out \<and> left a' < left a"
begin

definition group_ok :: "'a group \<Rightarrow> bool" where
  "group_ok s \<longleftrightarrow>
     length (gr_errors s) = length (filter returned (gr_actors s)) \<and>
     (\<forall>j < length (gr_actors s). asked (gr_actors s ! j) = asked_upto (gr_phase s) j \<and>
        (quiet_upto (gr_phase s) j \<longrightarrow> quiet (gr_actors s ! j))) \<and>
     (gr_errors s \<noteq> [] \<longrightarrow> hd (gr_errors s) \<noteq> None) \<and>
     (\<forall>e. phase_error (gr_phase s) = Some e \<longrightarrow> gr_errors s \<noteq> [] \<and> e = hd (gr_errors s)) \<and>
     (\<forall>i called e. gr_phase s = Interrupting i called e \<longrightarrow> i \<le> length (gr_actors s) \<and> (called \<longrightarrow> i < length (gr_actors s))) \<and>
     (\<forall>e. gr_phase s = Finished e \<longrightarrow> list_all returned (gr_actors s))"

lemma filter_update:
  "i < length as \<Longrightarrow> length (filter P (as[i := a])) + (if P (as ! i) then 1 else 0) = length (filter P as) + (if P a then 1 else 0)"
proof -
  assume i: "i < length as"
  have "length (filter P as) = length (filter P (take i as @ as ! i # drop (Suc i) as))"
    using id_take_nth_drop [OF i] by simp
  then show ?thesis by (simp add: upd_conv_take_nth_drop [OF i])
qed

lemma group_ok_start: "list_all (\<lambda>a. \<not> asked a \<and> \<not> returned a) as \<Longrightarrow> group_ok (group_start as)"
  by (auto simp: group_ok_def group_start_def list_all_length filter_empty_conv in_set_conv_nth)

lemma act_ok:
  assumes ok: "group_ok s" and i: "i < length (gr_actors s)" and st: "astep (gr_actors s ! i) a out"
  shows "group_ok (s\<lparr>gr_actors := (gr_actors s)[i := a],
      gr_errors := gr_errors s @ (case out of None \<Rightarrow> [] | Some r \<Rightarrow> [r])\<rparr>)"
proof -
  let ?as = "gr_actors s"
  have len: "length (filter returned (?as[i := a])) = length (filter returned ?as) + (if out = None then 0 else 1)"
    using filter_update [OF i, of returned a] returns [OF st] returns_once [of "?as ! i" a] st by (cases out) auto
  have "hd (gr_errors s @ (case out of None \<Rightarrow> [] | Some r \<Rightarrow> [r])) \<noteq> None"
    if "gr_errors s @ (case out of None \<Rightarrow> [] | Some r \<Rightarrow> [r]) \<noteq> []"
  proof (cases "gr_errors s = []")
    case True
    with ok have "gr_phase s = Waiting" by (cases "gr_phase s") (auto simp: group_ok_def)
    with ok i have "\<not> asked (?as ! i)" by (simp add: group_ok_def)
    with True that st unasked_error show ?thesis by (auto split: option.splits)
  qed (use ok in \<open>simp add: group_ok_def\<close>)
  moreover have "asked ((?as[i := a]) ! j) = asked_upto (gr_phase s) j \<and>
      (quiet_upto (gr_phase s) j \<longrightarrow> quiet ((?as[i := a]) ! j))" if "j < length ?as" for j
  proof (cases "j = i")
    case True
    moreover have "quiet_upto (gr_phase s) i \<Longrightarrow> asked_upto (gr_phase s) i" by (cases "gr_phase s") auto
    ultimately show ?thesis using ok i asked_step [OF st] quiet_step [OF st] by (auto simp: group_ok_def)
  qed (use ok that in \<open>simp add: group_ok_def\<close>)
  moreover have "list_all returned ?as \<longrightarrow> list_all returned (?as[i := a])"
    using returns [OF st] i by (auto simp: list_all_length nth_list_update)
  ultimately show ?thesis using ok len unfolding group_ok_def
    by (auto split: option.splits)
qed

lemma step_ok: "group_step astep interrupt quiet s s' \<Longrightarrow> group_ok s \<Longrightarrow> group_ok s'"
proof (induction rule: group_step.induct)
  case (act i s a out)
  then show ?case by (intro act_ok)
next
  case (call s i e)
  then show ?case
    using filter_update [of i "gr_actors s" returned "interrupt (gr_actors s ! i)"] interrupt_asks interrupt_returned
    by (auto simp: group_ok_def nth_list_update split: if_splits)
next
  case (drained s e)
  then have "length (filter returned (gr_actors s)) = length (gr_actors s)" by (simp add: group_ok_def)
  then have "list_all returned (gr_actors s)" by (metis length_filter_less less_irrefl list_all_iff)
  with drained show ?case by (auto simp: group_ok_def)
qed (auto simp: group_ok_def less_Suc_eq)

lemma reachable_ok:
  "group_reachable astep interrupt quiet as s \<Longrightarrow> list_all (\<lambda>a. \<not> asked a \<and> \<not> returned a) as \<Longrightarrow> group_ok s"
  by (induction rule: group_reachable.induct) (auto intro: step_ok group_ok_start)

lemma error_kept:
  "group_step astep interrupt quiet s s' \<Longrightarrow> phase_error (gr_phase s) = Some e \<Longrightarrow> phase_error (gr_phase s') = Some e"
  by (induction rule: group_step.induct) auto

definition actors_left :: "'a group \<Rightarrow> nat" where
  "actors_left s = sum_list (map left (gr_actors s))"

text \<open>An actor that was interrupted and is not back brings the group closer to its end.\<close>

lemma actor_progress:
  assumes "i < length (gr_actors s)" and "asked (gr_actors s ! i)" and "\<not> (quiet (gr_actors s ! i) \<and> returned (gr_actors s ! i))"
  shows "\<exists>s'. group_step astep interrupt quiet s s' \<and> gr_phase s' = gr_phase s \<and> length (gr_actors s') = length (gr_actors s) \<and>
    actors_left s' < actors_left s"
proof -
  from asked_progress [OF assms(2,3)] obtain a out where st: "astep (gr_actors s ! i) a out" "left a < left (gr_actors s ! i)"
    by blast
  have "sum_list (map left ((gr_actors s)[i := a])) < sum_list (map left (gr_actors s))"
    using st(2) assms(1) by (subst (2) id_take_nth_drop [OF assms(1)]) (simp add: upd_conv_take_nth_drop)
  with group_step.act [of i s astep a out interrupt quiet, OF assms(1) st(1)] show ?thesis
    by (intro exI [of _ "s\<lparr>gr_actors := (gr_actors s)[i := a],
      gr_errors := gr_errors s @ (case out of None \<Rightarrow> [] | Some r \<Rightarrow> [r])\<rparr>"]) (simp add: actors_left_def)
qed

lemma progress:
  assumes ok: "group_ok s" and e: "phase_error (gr_phase s) = Some e" and more: "gr_phase s \<noteq> Finished e"
  shows "\<exists>s'. group_step astep interrupt quiet s s' \<and>
    (s', s) \<in> measures [\<lambda>s. phase_left (length (gr_actors s)) (gr_phase s), actors_left]"
proof (cases "gr_phase s")
  case Waiting
  with e show ?thesis by simp
next
  case (Interrupting i called e')
  with ok have i: "i \<le> length (gr_actors s)" "called \<Longrightarrow> i < length (gr_actors s)" by (auto simp: group_ok_def)
  consider "\<not> called" "i = length (gr_actors s)" | "\<not> called" "i < length (gr_actors s)"
    | "called" "quiet (gr_actors s ! i)" | "called" "\<not> quiet (gr_actors s ! i)" using i by fastforce
  then show ?thesis
  proof cases
    case 1
    with Interrupting group_step.called [of s i e'] show ?thesis by (intro exI conjI) auto
  next
    case 2
    with Interrupting group_step.call [of s i e'] show ?thesis by (intro exI conjI) auto
  next
    case 3
    with Interrupting i group_step.yields [of s i e' quiet] show ?thesis by (intro exI conjI) auto
  next
    case 4
    with ok Interrupting i have "asked (gr_actors s ! i)" by (auto simp: group_ok_def)
    from actor_progress [OF i(2) this] 4 show ?thesis by fastforce
  qed
next
  case (Draining e')
  show ?thesis
  proof (cases "length (gr_errors s) = length (gr_actors s)")
    case True
    with Draining group_step.drained [of s e'] show ?thesis by (intro exI conjI) auto
  next
    case False
    with ok have "filter returned (gr_actors s) \<noteq> gr_actors s" by (auto simp: group_ok_def)
    then obtain i where "i < length (gr_actors s)" "\<not> returned (gr_actors s ! i)"
      by (auto simp: filter_id_conv in_set_conv_nth)
    moreover from this(1) ok Draining have "asked (gr_actors s ! i)" by (auto simp: group_ok_def)
    ultimately show ?thesis using actor_progress [of i s] by fastforce
  qed
next
  case (Finished e')
  with e more show ?thesis by simp
qed

lemma can_finish:
  "group_ok s \<Longrightarrow> phase_error (gr_phase s) = Some e \<Longrightarrow>
     \<exists>s'. (group_step astep interrupt quiet)\<^sup>*\<^sup>* s s' \<and> gr_phase s' = Finished e"
proof (induction s rule: wf_induct_rule [OF wf_measures [of "[\<lambda>s. phase_left (length (gr_actors s)) (gr_phase s), actors_left]"]])
  case (1 s)
  show ?case
  proof (cases "gr_phase s = Finished e")
    case False
    from progress [OF 1(2,3) False] obtain s1 where
      st: "group_step astep interrupt quiet s s1" "(s1, s) \<in> measures [\<lambda>s. phase_left (length (gr_actors s)) (gr_phase s), actors_left]"
      by blast
    from 1(1) [OF st(2) step_ok [OF st(1) 1(2)] error_kept [OF st(1) 1(3)]] st(1) show ?thesis
      by (meson converse_rtranclp_into_rtranclp)
  qed blast
qed

text \<open>
  Once an actor has returned the group can be brought to its end, and ends with that result only when
  every actor was interrupted and is back.
\<close>

lemma first_kept:
  "group_step astep interrupt quiet s s' \<Longrightarrow> gr_errors s \<noteq> [] \<Longrightarrow> gr_errors s' \<noteq> [] \<and> hd (gr_errors s') = hd (gr_errors s)"
  by (induction rule: group_step.induct) auto

lemma steps_first_kept:
  "(group_step astep interrupt quiet)\<^sup>*\<^sup>* s s' \<Longrightarrow> group_ok s \<Longrightarrow> gr_errors s \<noteq> [] \<Longrightarrow>
     group_ok s' \<and> gr_errors s' \<noteq> [] \<and> hd (gr_errors s') = hd (gr_errors s)"
  by (induction rule: rtranclp_induct) (auto intro: step_ok dest: first_kept)

lemma group_ends:
  assumes "group_reachable astep interrupt quiet as s" and "list_all (\<lambda>a. \<not> asked a \<and> \<not> returned a) as"
    and "gr_errors s \<noteq> []"
  shows "\<exists>e. hd (gr_errors s) = Some e \<and>
    (\<exists>s'. (group_step astep interrupt quiet)\<^sup>*\<^sup>* s s' \<and> gr_phase s' = Finished (Some e)) \<and>
    (\<forall>s' r. (group_step astep interrupt quiet)\<^sup>*\<^sup>* s s' \<and> gr_phase s' = Finished r \<longrightarrow>
       r = Some e \<and> list_all (\<lambda>a. returned a \<and> asked a \<and> quiet a) (gr_actors s'))"
proof -
  note ok = reachable_ok [OF assms(1,2)]
  then obtain e where e: "hd (gr_errors s) = Some e" using assms(3) by (auto simp: group_ok_def)
  have "\<exists>s'. (group_step astep interrupt quiet)\<^sup>*\<^sup>* s s' \<and> gr_phase s' = Finished (Some e)"
  proof (cases "gr_phase s = Waiting")
    case True
    with assms(3) e group_step.first [of s "Some e" "tl (gr_errors s)" astep interrupt quiet]
    have st: "group_step astep interrupt quiet s (s\<lparr>gr_phase := Interrupting 0 False (Some e)\<rparr>)"
      by (metis list.collapse)
    from can_finish [OF step_ok [OF st ok], of "Some e"] st show ?thesis
      by (auto intro: converse_rtranclp_into_rtranclp)
  next
    case False
    with ok e have "phase_error (gr_phase s) = Some (Some e)" by (cases "gr_phase s") (auto simp: group_ok_def)
    from can_finish [OF ok this] show ?thesis .
  qed
  moreover have "r = Some e \<and> list_all (\<lambda>a. returned a \<and> asked a \<and> quiet a) (gr_actors s')"
    if "(group_step astep interrupt quiet)\<^sup>*\<^sup>* s s' \<and> gr_phase s' = Finished r" for s' r
    using steps_first_kept [of s s'] that ok assms(3) e by (auto simp: group_ok_def list_all_length)
  ultimately show ?thesis using e by blast
qed

end

section \<open>The actors of a server\<close>

text \<open>
  \<^verbatim>\<open>Serve\<close> and \<^verbatim>\<open>ServeTLS\<close> return \<^verbatim>\<open>http.ErrServerClosed\<close> once the server was
  shut down, or another error; the actor maps the former to nil.
\<close>

datatype serve_err = ErrServerClosed | ServeErr string

definition served :: "serve_err \<Rightarrow> string option" where
  "served err = (case err of ErrServerClosed \<Rightarrow> None | ServeErr e \<Rightarrow> Some e)"

datatype http_phase = Created | Serving | Returned

text \<open>
  A server with what its key pair fails with, if TLS is configured and it does; whether
  \<^verbatim>\<open>Shutdown\<close> was called; and the requests it is working on.
\<close>

record http_actor =
  ha_certError :: "string option"
  ha_phase :: http_phase
  ha_shutdown :: bool
  ha_active :: nat

datatype run_actor = HttpServer http_actor | UntilDone bool bool bool

text \<open>
  The actor that waits for the context of the group has, in this order: whether the context given to
  \<^verbatim>\<open>Run\<close> is done, whether \<^verbatim>\<open>gcancel\<close> was called, and whether it returned.
\<close>

inductive run_actor_step :: "run_actor \<Rightarrow> run_actor \<Rightarrow> string option option \<Rightarrow> bool" where
  no_cert: "ha_phase a = Created \<Longrightarrow> ha_certError a = Some e \<Longrightarrow>
    run_actor_step (HttpServer a) (HttpServer (a\<lparr>ha_phase := Returned\<rparr>)) (Some (served (ServeErr e)))"
| serve: "ha_phase a = Created \<Longrightarrow> ha_certError a = None \<Longrightarrow> \<not> ha_shutdown a \<Longrightarrow>
    run_actor_step (HttpServer a) (HttpServer (a\<lparr>ha_phase := Serving\<rparr>)) None"
| request: "ha_phase a = Serving \<Longrightarrow> \<not> ha_shutdown a \<Longrightarrow>
    run_actor_step (HttpServer a) (HttpServer (a\<lparr>ha_active := Suc (ha_active a)\<rparr>)) None"
| answer: "ha_active a = Suc n \<Longrightarrow> run_actor_step (HttpServer a) (HttpServer (a\<lparr>ha_active := n\<rparr>)) None"
| fail: "ha_phase a = Serving \<Longrightarrow> \<not> ha_shutdown a \<Longrightarrow>
    run_actor_step (HttpServer a) (HttpServer (a\<lparr>ha_phase := Returned\<rparr>)) (Some (served (ServeErr e)))"
| closed: "ha_phase a \<noteq> Returned \<Longrightarrow> ha_phase a = Created \<longrightarrow> ha_certError a = None \<Longrightarrow> ha_shutdown a \<Longrightarrow>
    run_actor_step (HttpServer a) (HttpServer (a\<lparr>ha_phase := Returned\<rparr>)) (Some (served ErrServerClosed))"
| parent_done: "run_actor_step (UntilDone d c r) (UntilDone True c r) None"
| context_done: "d \<or> c \<Longrightarrow> \<not> r \<Longrightarrow> run_actor_step (UntilDone d c r) (UntilDone d c True) (Some (Some ''context canceled''))"

inductive_cases run_actor_stepE: "run_actor_step a a' out"

text \<open>
  The interrupt functions: \<^verbatim>\<open>Shutdown\<close>, which returns when no request is left, and
  \<^verbatim>\<open>gcancel\<close>.
\<close>

fun run_interrupt :: "run_actor \<Rightarrow> run_actor" where
  "run_interrupt (HttpServer a) = HttpServer (a\<lparr>ha_shutdown := True\<rparr>)"
| "run_interrupt (UntilDone d c r) = UntilDone d True r"

fun run_quiet :: "run_actor \<Rightarrow> bool" where
  "run_quiet (HttpServer a) = (ha_active a = 0)"
| "run_quiet (UntilDone d c r) = True"

fun run_returned :: "run_actor \<Rightarrow> bool" where
  "run_returned (HttpServer a) = (ha_phase a = Returned)"
| "run_returned (UntilDone d c r) = r"

fun run_asked :: "run_actor \<Rightarrow> bool" where
  "run_asked (HttpServer a) = ha_shutdown a"
| "run_asked (UntilDone d c r) = c"

fun run_left :: "run_actor \<Rightarrow> nat" where
  "run_left (HttpServer a) = ha_active a + (if ha_phase a = Returned then 0 else 1)"
| "run_left (UntilDone d c r) = (if r then 0 else 1)"

lemma run_actor_progress:
  "run_asked a \<Longrightarrow> \<not> (run_quiet a \<and> run_returned a) \<Longrightarrow> \<exists>a' out. run_actor_step a a' out \<and> run_left a' < run_left a"
proof (cases a)
  case (HttpServer h)
  assume a: "run_asked a" "\<not> (run_quiet a \<and> run_returned a)"
  show ?thesis
  proof (cases "ha_active h")
    case 0
    with a HttpServer have "ha_phase h \<noteq> Returned" "ha_shutdown h" by auto
    then have "\<exists>out. run_actor_step (HttpServer h) (HttpServer (h\<lparr>ha_phase := Returned\<rparr>)) out"
      using run_actor_step.no_cert [of h] run_actor_step.closed [of h] by (cases "ha_certError h") blast+
    with HttpServer \<open>ha_phase h \<noteq> Returned\<close> show ?thesis
      by (intro exI [of _ "HttpServer (h\<lparr>ha_phase := Returned\<rparr>)"]) auto
  next
    case (Suc n)
    with HttpServer run_actor_step.answer [of h n] show ?thesis by fastforce
  qed
next
  case (UntilDone d c r)
  assume "run_asked a" "\<not> (run_quiet a \<and> run_returned a)"
  with UntilDone run_actor_step.context_done [of d c r] show ?thesis by fastforce
qed

interpretation server_group: group_actor run_actor_step run_interrupt run_quiet run_returned run_asked run_left
proof unfold_locales
  fix a a' :: run_actor and out and r
  show "run_asked (run_interrupt a)" and "run_returned (run_interrupt a) = run_returned a" by (cases a; simp)+
  show "\<exists>a' out. run_actor_step a a' out \<and> run_left a' < run_left a"
    if "run_asked a" "\<not> (run_quiet a \<and> run_returned a)" using that by (rule run_actor_progress)
qed (auto elim!: run_actor_stepE simp: served_def)


text \<open>
  The interrupt functions are called one after the other and \<^verbatim>\<open>Shutdown\<close> has no deadline: as long
  as the first server is working on a request, the second accepts any number of others.
\<close>

lemma shutdown_waits:
  "gr_phase s = Interrupting 0 True e \<Longrightarrow> gr_actors s = [HttpServer a, HttpServer b, c] \<Longrightarrow>
     ha_active a \<noteq> 0 \<Longrightarrow> ha_phase b = Serving \<Longrightarrow> \<not> ha_shutdown b \<Longrightarrow>
   \<exists>s'. (group_step run_actor_step run_interrupt run_quiet)\<^sup>*\<^sup>* s s' \<and> gr_phase s' = Interrupting 0 True e \<and>
     gr_actors s' = [HttpServer a, HttpServer (b\<lparr>ha_active := ha_active b + k\<rparr>), c]"
proof (induction k)
  case 0
  then show ?case by (intro exI [of _ s]) simp
next
  case (Suc k)
  then obtain s' where s': "(group_step run_actor_step run_interrupt run_quiet)\<^sup>*\<^sup>* s s'" "gr_phase s' = Interrupting 0 True e"
    "gr_actors s' = [HttpServer a, HttpServer (b\<lparr>ha_active := ha_active b + k\<rparr>), c]" by blast
  let ?s = "s'\<lparr>gr_actors := [HttpServer a, HttpServer (b\<lparr>ha_active := Suc (ha_active b + k)\<rparr>), c]\<rparr>"
  have "group_step run_actor_step run_interrupt run_quiet s' ?s"
    using group_step.act [of 1 s' run_actor_step _ None] run_actor_step.request [of "b\<lparr>ha_active := ha_active b + k\<rparr>"] s'(3) Suc.prems
    by simp
  with s' show ?case by (intro exI [of _ ?s]) auto
qed

end
