(* ===== verification/Server_Process.thy ===== *)
theory Server_Process
  imports Run_Group Rhelemeter Http_Utils
begin

text \<open>
  The commands \<^verbatim>\<open>telemeter-server\<close> and \<^verbatim>\<open>rhelemeter-server\<close> from their command line to
  their end: the flags and their defaults, the HTTP clients and what their transports are made of, the
  order in which a start can fail, and the servers as actors of a group.
\<close>

section \<open>Flags\<close>

text \<open>
  A variable a flag is bound to, by its type.  Slices are replaced by the first occurrence of their
  flag and extended by the others; those of the servers start empty, so that every occurrence
  extends them.  \<open>pf_csv\<close> splits the value of a \<^verbatim>\<open>StringSlice\<close>, and the other parameters are
  the parsers of \<^verbatim>\<open>pflag\<close>.
\<close>

record pflag_ext =
  pf_csv :: "string \<Rightarrow> string + string list"
  pf_int64 :: "string \<Rightarrow> string + int"
  pf_int32 :: "string \<Rightarrow> string + int"
  pf_duration :: "string \<Rightarrow> string + duration"
  pf_bool :: "string \<Rightarrow> string + bool"
  pf_float64 :: "string \<Rightarrow> string + float64"

datatype 'o flag_var =
    StringVar "string \<Rightarrow> 'o \<Rightarrow> 'o"
  | StringSliceVar "string list \<Rightarrow> 'o \<Rightarrow> 'o"
  | StringArrayVar "string list \<Rightarrow> 'o \<Rightarrow> 'o"
  | Int64Var "int \<Rightarrow> 'o \<Rightarrow> 'o"
  | Int32Var "int \<Rightarrow> 'o \<Rightarrow> 'o"
  | DurationVar "duration \<Rightarrow> 'o \<Rightarrow> 'o"
  | BoolVar "bool \<Rightarrow> 'o \<Rightarrow> 'o"
  | Float64Var "float64 \<Rightarrow> 'o \<Rightarrow> 'o"

fun set_flag :: "pflag_ext \<Rightarrow> 'o flag_var \<Rightarrow> string \<Rightarrow> 'o \<Rightarrow> string + 'o" where
  "set_flag x (StringVar upd) v opt = Inr (upd v opt)"
| "set_flag x (StringSliceVar app) v opt = (case pf_csv x v of Inl e \<Rightarrow> Inl e | Inr vs \<Rightarrow> Inr (app vs opt))"
| "set_flag x (StringArrayVar app) v opt = Inr (app [v] opt)"
| "set_flag x (Int64Var upd) v opt = (case pf_int64 x v of Inl e \<Rightarrow> Inl e | Inr n \<Rightarrow> Inr (upd n opt))"
| "set_flag x (Int32Var upd) v opt = (case pf_int32 x v of Inl e \<Rightarrow> Inl e | Inr n \<Rightarrow> Inr (upd n opt))"
| "set_flag x (DurationVar upd) v opt = (case pf_duration x v of Inl e \<Rightarrow> Inl e | Inr d \<Rightarrow> Inr (upd d opt))"
| "set_flag x (BoolVar upd) v opt = (case pf_bool x v of Inl e \<Rightarrow> Inl e | Inr b \<Rightarrow> Inr (upd b opt))"
| "set_flag x (Float64Var upd) v opt = (case pf_float64 x v of Inl e \<Rightarrow> Inl e | Inr f \<Rightarrow> Inr (upd f opt))"

text \<open>The arguments of a command line, as pairs of a flag and its value, applied in order.\<close>

fun set_flags :: "pflag_ext \<Rightarrow> (string \<times> 'o flag_var) list \<Rightarrow> (string \<times> string) list \<Rightarrow> 'o \<Rightarrow> string + 'o" where
  "set_flags x table [] opt = Inr opt"
| "set_flags x table ((name, v) # args) opt =
     (case map_of table name of
        None \<Rightarrow> Inl (''unknown flag: --'' @ name)
      | Some var \<Rightarrow> (case set_flag x var v opt of Inl e \<Rightarrow> Inl e | Inr opt' \<Rightarrow> set_flags x table args opt'))"

section \<open>The options of the servers\<close>

text \<open>What of the options is not used before the server is set up, and the two listen addresses.\<close>

record server_flags = server_options +
  sf_listen :: string
  sf_listenInternal :: string
  sf_OIDCIssuer :: string
  sf_OIDCClientID :: string
  sf_OIDCClientSecret :: string
  sf_OIDCAudienceEndpoint :: string
  sf_MemcachedExpire :: int
  sf_MemcachedInterval :: int
  sf_LogLevel :: string
  sf_TracingServiceName :: string
  sf_TracingEndpoint :: string
  sf_TracingEndpointType :: string
  sf_TracingSamplingFraction :: float64
  sf_Verbose :: bool

definition receive_DefaultRequestLimit :: int where
  "receive_DefaultRequestLimit = 128 * 1024"

text \<open>The defaults, with those the flags are declared with; \<open>0x3FB999999999999A\<close> is 0.1.\<close>

definition server_defaults :: server_flags where
  "server_defaults = \<lparr>so_LabelFlag = [], so_RequiredLabelFlag = [], so_AuthorizeEndpoint = [],
     so_TLSCertificatePath = [], so_TLSKeyPath = [], so_InternalTLSCertificatePath = [], so_InternalTLSKeyPath = [],
     so_SharedKey = [], so_Whitelist = [], so_WhitelistFile = [], so_ElideLabels = [],
     so_clusterIDKey = ''_id'', so_TokenExpireSeconds = 24 * 60 * 60, so_Ratelimit = 4 * Minute + 30 * Second,
     so_LimitBytes = 500 * 1024, so_LimitReceiveBytes = receive_DefaultRequestLimit, so_ForwardURL = [],
     so_TenantID = ''FB870BF3-9F3A-44FF-9BF7-D7A047A52F43'', so_TenantKey = [], so_Memcacheds = [],
     sf_listen = ''0.0.0.0:9003'', sf_listenInternal = ''localhost:9004'',
     sf_OIDCIssuer = [], sf_OIDCClientID = [], sf_OIDCClientSecret = [], sf_OIDCAudienceEndpoint = [],
     sf_MemcachedExpire = 24 * 60 * 60, sf_MemcachedInterval = 10, sf_LogLevel = [],
     sf_TracingServiceName = ''telemeter-server'', sf_TracingEndpoint = [], sf_TracingEndpointType = ''agent'',
     sf_TracingSamplingFraction = 0x3FB999999999999A, sf_Verbose = False\<rparr>"

definition server_flag_table :: "(string \<times> server_flags flag_var) list" where
  "server_flag_table = [
     (''listen'', StringVar (\<lambda>v op. op\<lparr>sf_listen := v\<rparr>)),
     (''listen-internal'', StringVar (\<lambda>v op. op\<lparr>sf_listenInternal := v\<rparr>)),
     (''tls-key'', StringVar (\<lambda>v op. op\<lparr>so_TLSKeyPath := v\<rparr>)),
     (''tls-crt'', StringVar (\<lambda>v op. op\<lparr>so_TLSCertificatePath := v\<rparr>)),
     (''internal-tls-key'', StringVar (\<lambda>v op. op\<lparr>so_InternalTLSKeyPath := v\<rparr>)),
     (''internal-tls-crt'', StringVar (\<lambda>v op. op\<lparr>so_InternalTLSCertificatePath := v\<rparr>)),
     (''label'', StringSliceVar (\<lambda>vs op. op\<lparr>so_LabelFlag := so_LabelFlag op @ vs\<rparr>)),
     (''partition-label'', StringVar (\<lambda>v op. op\<lparr>so_clusterIDKey := v\<rparr>)),
     (''shared-key'', StringVar (\<lambda>v op. op\<lparr>so_SharedKey := v\<rparr>)),
     (''token-expire-seconds'', Int64Var (\<lambda>v op. op\<lparr>so_TokenExpireSeconds := v\<rparr>)),
     (''authorize'', StringVar (\<lambda>v op. op\<lparr>so_AuthorizeEndpoint := v\<rparr>)),
     (''oidc-issuer'', StringVar (\<lambda>v op. op\<lparr>sf_OIDCIssuer := v\<rparr>)),
     (''client-secret'', StringVar (\<lambda>v op. op\<lparr>sf_OIDCClientSecret := v\<rparr>)),
     (''client-id'', StringVar (\<lambda>v op. op\<lparr>sf_OIDCClientID := v\<rparr>)),
     (''oidc-audience'', StringVar (\<lambda>v op. op\<lparr>sf_OIDCAudienceEndpoint := v\<rparr>)),
     (''tenant-key'', StringVar (\<lambda>v op. op\<lparr>so_TenantKey := v\<rparr>)),
     (''memcached'', StringSliceVar (\<lambda>vs op. op\<lparr>so_Memcacheds := so_Memcacheds op @ vs\<rparr>)),
     (''memcached-expire'', Int32Var (\<lambda>v op. op\<lparr>sf_MemcachedExpire := v\<rparr>)),
     (''memcached-interval'', Int32Var (\<lambda>v op. op\<lparr>sf_MemcachedInterval := v\<rparr>)),
     (''tenant-id'', StringVar (\<lambda>v op. op\<lparr>so_TenantID := v\<rparr>)),
     (''ratelimit'', DurationVar (\<lambda>v op. op\<lparr>so_Ratelimit := v\<rparr>)),
     (''forward-url'', StringVar (\<lambda>v op. op\<lparr>so_ForwardURL := v\<rparr>)),
     (''verbose'', BoolVar (\<lambda>v op. op\<lparr>sf_Verbose := v\<rparr>)),
     (''required-label'', StringSliceVar (\<lambda>vs op. op\<lparr>so_RequiredLabelFlag := so_RequiredLabelFlag op @ vs\<rparr>)),
     (''whitelist'', StringArrayVar (\<lambda>vs op. op\<lparr>so_Whitelist := so_Whitelist op @ vs\<rparr>)),
     (''whitelist-file'', StringVar (\<lambda>v op. op\<lparr>so_WhitelistFile := v\<rparr>)),
     (''elide-label'', StringArrayVar (\<lambda>vs op. op\<lparr>so_ElideLabels := so_ElideLabels op @ vs\<rparr>)),
     (''limit-bytes'', Int64Var (\<lambda>v op. op\<lparr>so_LimitBytes := v\<rparr>)),
     (''limit-receive-bytes'', Int64Var (\<lambda>v op. op\<lparr>so_LimitReceiveBytes := v\<rparr>)),
     (''log-level'', StringVar (\<lambda>v op. op\<lparr>sf_LogLevel := v\<rparr>)),
     (''internal.tracing.service-name'', StringVar (\<lambda>v op. op\<lparr>sf_TracingServiceName := v\<rparr>)),
     (''internal.tracing.endpoint'', StringVar (\<lambda>v op. op\<lparr>sf_TracingEndpoint := v\<rparr>)),
     (''internal.tracing.sampling-fraction'', Float64Var (\<lambda>v op. op\<lparr>sf_TracingSamplingFraction := v\<rparr>)),
     (''internal.tracing.endpoint-type'', StringVar (\<lambda>v op. op\<lparr>sf_TracingEndpointType := v\<rparr>))]"

lemma server_flags_distinct: "distinct (map fst server_flag_table)"
  by (simp add: server_flag_table_def)


text \<open>The same for rhelemeter, which has no flag for required labels.\<close>

record rhelemeter_flags = rhelemeter_options +
  rf_listen :: string
  rf_listenInternal :: string
  rf_InternalTLSKeyPath :: string
  rf_InternalTLSCertificatePath :: string
  rf_OIDCIssuer :: string
  rf_OIDCClientID :: string
  rf_OIDCClientSecret :: string
  rf_OIDCAudienceEndpoint :: string
  rf_TenantID :: string
  rf_LimitBytes :: int
  rf_WhitelistFile :: string
  rf_Ratelimit :: duration
  rf_LogLevel :: string
  rf_TracingServiceName :: string
  rf_TracingEndpoint :: string
  rf_TracingEndpointType :: string
  rf_TracingSamplingFraction :: float64
  rf_TracingInsecure :: bool
  rf_Verbose :: bool

definition rhelemeter_defaults :: rhelemeter_flags where
  "rhelemeter_defaults = \<lparr>ro_LabelFlag = [], ro_RequiredLabelFlag = [], ro_TLSKeyPath = [], ro_TLSCertificatePath = [],
     ro_TLSCACertificatePath = [], ro_ClientInfoFromRequestConfigFile = [], ro_ClientInfoSubjectLabel = ''_id'',
     ro_Whitelist = [], ro_ElideLabels = [], ro_LimitReceiveBytes = receive_DefaultRequestLimit, ro_ForwardURL = [],
     rf_listen = ''0.0.0.0:9003'', rf_listenInternal = ''localhost:9004'', rf_InternalTLSKeyPath = [],
     rf_InternalTLSCertificatePath = [], rf_OIDCIssuer = [], rf_OIDCClientID = [], rf_OIDCClientSecret = [],
     rf_OIDCAudienceEndpoint = [], rf_TenantID = [], rf_LimitBytes = 500 * 1024, rf_WhitelistFile = [],
     rf_Ratelimit = 4 * Minute + 30 * Second, rf_LogLevel = [], rf_TracingServiceName = ''rhelemeter-server'',
     rf_TracingEndpoint = [], rf_TracingEndpointType = ''agent'', rf_TracingSamplingFraction = 0x3FB999999999999A,
     rf_TracingInsecure = False, rf_Verbose = False\<rparr>"

definition rhelemeter_flag_table :: "(string \<times> rhelemeter_flags flag_var) list" where
  "rhelemeter_flag_table = [
     (''listen'', StringVar (\<lambda>v op. op\<lparr>rf_listen := v\<rparr>)),
     (''listen-internal'', StringVar (\<lambda>v op. op\<lparr>rf_listenInternal := v\<rparr>)),
     (''tls-key'', StringVar (\<lambda>v op. op\<lparr>ro_TLSKeyPath := v\<rparr>)),
     (''tls-crt'', StringVar (\<lambda>v op. op\<lparr>ro_TLSCertificatePath := v\<rparr>)),
     (''tls-ca-crt'', StringVar (\<lambda>v op. op\<lparr>ro_TLSCACertificatePath := v\<rparr>)),
     (''client-info-data-file'', StringVar (\<lambda>v op. op\<lparr>ro_ClientInfoFromRequestConfigFile := v\<rparr>)),
     (''client-info-subject-label'', StringVar (\<lambda>v op. op\<lparr>ro_ClientInfoSubjectLabel := v\<rparr>)),
     (''internal-tls-key'', StringVar (\<lambda>v op. op\<lparr>rf_InternalTLSKeyPath := v\<rparr>)),
     (''internal-tls-crt'', StringVar (\<lambda>v op. op\<lparr>rf_InternalTLSCertificatePath := v\<rparr>)),
     (''label'', StringSliceVar (\<lambda>vs op. op\<lparr>ro_LabelFlag := ro_LabelFlag op @ vs\<rparr>)),
     (''oidc-issuer'', StringVar (\<lambda>v op. op\<lparr>rf_OIDCIssuer := v\<rparr>)),
     (''client-secret'', StringVar (\<lambda>v op. op\<lparr>rf_OIDCClientSecret := v\<rparr>)),
     (''client-id'', StringVar (\<lambda>v op. op\<lparr>rf_OIDCClientID := v\<rparr>)),
     (''oidc-audience'', StringVar (\<lambda>v op. op\<lparr>rf_OIDCAudienceEndpoint := v\<rparr>)),
     (''tenant-id'', StringVar (\<lambda>v op. op\<lparr>rf_TenantID := v\<rparr>)),
     (''ratelimit'', DurationVar (\<lambda>v op. op\<lparr>rf_Ratelimit := v\<rparr>)),
     (''forward-url'', StringVar (\<lambda>v op. op\<lparr>ro_ForwardURL := v\<rparr>)),
     (''verbose'', BoolVar (\<lambda>v op. op\<lparr>rf_Verbose := v\<rparr>)),
     (''whitelist'', StringArrayVar (\<lambda>vs op. op\<lparr>ro_Whitelist := ro_Whitelist op @ vs\<rparr>)),
     (''whitelist-file'', StringVar (\<lambda>v op. op\<lparr>rf_WhitelistFile := v\<rparr>)),
     (''elide-label'', StringArrayVar (\<lambda>vs op. op\<lparr>ro_ElideLabels := ro_ElideLabels op @ vs\<rparr>)),
     (''limit-bytes'', Int64Var (\<lambda>v op. op\<lparr>rf_LimitBytes := v\<rparr>)),
     (''limit-receive-bytes'', Int64Var (\<lambda>v op. op\<lparr>ro_LimitReceiveBytes := v\<rparr>)),
     (''log-level'', StringVar (\<lambda>v op. op\<lparr>rf_LogLevel := v\<rparr>)),
     (''internal.tracing.service-name'', StringVar (\<lambda>v op. op\<lparr>rf_TracingServiceName := v\<rparr>)),
     (''internal.tracing.endpoint'', StringVar (\<lambda>v op. op\<lparr>rf_TracingEndpoint := v\<rparr>)),
     (''internal.tracing.insecure'', BoolVar (\<lambda>v op. op\<lparr>rf_TracingInsecure := v\<rparr>)),
     (''internal.tracing.sampling-fraction'', Float64Var (\<lambda>v op. op\<lparr>rf_TracingSamplingFraction := v\<rparr>)),
     (''internal.tracing.endpoint-type'', StringVar (\<lambda>v op. op\<lparr>rf_TracingEndpointType := v\<rparr>))]"

section \<open>The HTTP clients\<close>

text \<open>
  The layers of a transport, the outermost first: what is put around the dialing transport, and the
  default transport or none at all at the bottom.  A timeout of zero is none.
\<close>

record oauth_config =
  oa_ClientID :: string
  oa_ClientSecret :: string
  oa_TokenURL :: string
  oa_audience :: "string option"

datatype layer = OtelDial | DebugLayer | Instrumented string | OAuth oauth_config | CacheLayer | DefaultTransport | NilTransport

record http_client =
  hc_Timeout :: duration
  hc_Transport :: "layer list option"

definition base_transport :: "bool \<Rightarrow> layer list" where
  "base_transport verbose = (if verbose then [DebugLayer, OtelDial] else [OtelDial])"

text \<open>\<open>provider\<close> is \<^verbatim>\<open>oidc.NewProvider\<close>: the token endpoint of an issuer.\<close>

definition oauth_source ::
  "(string \<Rightarrow> string + string) \<Rightarrow> string \<Rightarrow> string \<Rightarrow> string \<Rightarrow> string \<Rightarrow> string + oauth_config option" where
  "oauth_source provider issuerURL clientID secret audienceURL =
     (if issuerURL \<noteq> [] then
        (case provider issuerURL of
           Inl e \<Rightarrow> Inl e
         | Inr tokenURL \<Rightarrow> Inr (Some \<lparr>oa_ClientID = clientID, oa_ClientSecret = secret, oa_TokenURL = tokenURL,
             oa_audience = (if audienceURL \<noteq> [] then Some audienceURL else None)\<rparr>))
      else Inr None)"

text \<open>\<^verbatim>\<open>oauth2.Transport\<close> falls back to the default transport when it has no base.\<close>

definition with_oauth :: "oauth_config option \<Rightarrow> http_client \<Rightarrow> http_client" where
  "with_oauth source c =
     (case source of
        None \<Rightarrow> c
      | Some cfg \<Rightarrow> c\<lparr>hc_Transport := Some (OAuth cfg # (case hc_Transport c of None \<Rightarrow> [DefaultTransport] | Some t \<Rightarrow> t))\<rparr>)"

definition authorize_client :: "server_flags \<Rightarrow> http_client" where
  "authorize_client fl =
     (if length (so_AuthorizeEndpoint fl) > 0
      then \<lparr>hc_Timeout = 20 * Second, hc_Transport = Some (Instrumented ''authorize'' # base_transport (sf_Verbose fl))\<rparr>
      else \<lparr>hc_Timeout = 0, hc_Transport = None\<rparr>)"

definition forward_client :: "bool \<Rightarrow> http_client" where
  "forward_client verbose = \<lparr>hc_Timeout = 0, hc_Transport = Some (Instrumented ''forward'' # base_transport verbose)\<rparr>"

text \<open>
  The client of the cluster authorizer, the client that forwards, and the copy of the former that
  authorizes remote writes, with the cache around it if there are memcached servers.
\<close>

record server_clients =
  sc_authorize :: http_client
  sc_forward :: http_client
  sc_v2Authorize :: http_client

definition cached_client :: "string list \<Rightarrow> http_client \<Rightarrow> http_client" where
  "cached_client servers c =
     (if length servers > 0
      then c\<lparr>hc_Transport := Some (CacheLayer # (case hc_Transport c of None \<Rightarrow> [NilTransport] | Some t \<Rightarrow> t))\<rparr>
      else c)"

definition make_clients :: "(string \<Rightarrow> string + string) \<Rightarrow> server_flags \<Rightarrow> string + server_clients" where
  "make_clients provider fl =
     (case oauth_source provider (sf_OIDCIssuer fl) (sf_OIDCClientID fl) (sf_OIDCClientSecret fl) (sf_OIDCAudienceEndpoint fl) of
        Inl e \<Rightarrow> Inl e
      | Inr source \<Rightarrow>
          (let authorize = with_oauth source (authorize_client fl)
           in Inr \<lparr>sc_authorize = authorize, sc_forward = with_oauth source (forward_client (sf_Verbose fl)),
                   sc_v2Authorize = cached_client (so_Memcacheds fl) authorize\<rparr>))"

section \<open>The commands\<close>

text \<open>
  \<^verbatim>\<open>main\<close> and \<^verbatim>\<open>Run\<close> up to the group: the listeners, then the options in the order
  \<^verbatim>\<open>Run\<close> looks at them.  \<open>listen\<close> is \<^verbatim>\<open>net.Listen\<close>, with its error.
\<close>

datatype server_command_err =
    FlagErr string
  | ListenErr string
  | ServerErr server_err
  | ServerTracerErr tracing_err
  | OIDCErr string

definition flag_pairs_err :: "server_options \<Rightarrow> server_err option" where
  "flag_pairs_err op =
     (case label_flags [] (so_LabelFlag op) of
        Inl flag \<Rightarrow> Some (BadLabelFlag flag)
      | Inr labels \<Rightarrow>
          (case label_flags [] (so_RequiredLabelFlag op) of Inl flag \<Rightarrow> Some (BadRequiredLabel flag) | Inr required \<Rightarrow> None))"

definition server_setup ::
  "('k, 'p) server_ext \<Rightarrow> tracing_ext \<Rightarrow> (string \<Rightarrow> string + string) \<Rightarrow> server_flags \<Rightarrow>
   (server_command_err + ('k, 'p) telemeter_config \<times> server_clients) go" where
  "server_setup sx tx provider fl =
     (let op = server_options.truncate fl
      in (case flag_pairs_err op of
            Some e \<Rightarrow> Ret (Inl (ServerErr e))
          | None \<Rightarrow>
          (case InitTracer tx (sf_TracingEndpoint fl) (sf_TracingEndpointType fl) of
             (tp, Some e) \<Rightarrow> Ret (Inl (ServerTracerErr e))
           | (tp, None) \<Rightarrow>
          (case parse_authorize sx op of
             Inl e \<Rightarrow> Ret (Inl (ServerErr e))
           | Inr u \<Rightarrow>
          (case make_clients provider fl of
             Inl e \<Rightarrow> Ret (Inl (OIDCErr e))
           | Inr clients \<Rightarrow>
               go_bind (server_Run sx op) (\<lambda>r.
                 Ret (case r of Inl e \<Rightarrow> Inl (ServerErr e) | Inr cfg \<Rightarrow> Inr (cfg, clients))))))))"

definition server_command ::
  "pflag_ext \<Rightarrow> (string \<Rightarrow> string option) \<Rightarrow> ('k, 'p) server_ext \<Rightarrow> tracing_ext \<Rightarrow> (string \<Rightarrow> string + string) \<Rightarrow>
   (string \<times> string) list \<Rightarrow> (server_command_err + server_flags \<times> ('k, 'p) telemeter_config \<times> server_clients) go" where
  "server_command px listen sx tx provider args =
     (case set_flags px server_flag_table args server_defaults of
        Inl e \<Rightarrow> Ret (Inl (FlagErr e))
      | Inr fl \<Rightarrow>
     (case listen (sf_listen fl) of
        Some e \<Rightarrow> Ret (Inl (ListenErr e))
      | None \<Rightarrow>
     (case listen (sf_listenInternal fl) of
        Some e \<Rightarrow> Ret (Inl (ListenErr e))
      | None \<Rightarrow>
          go_bind (server_setup sx tx provider fl) (\<lambda>r.
            Ret (case r of Inl e \<Rightarrow> Inl e | Inr started \<Rightarrow> Inr (fl, started))))))"

text \<open>
  rhelemeter sets its client up in the same way, but looks at no pair of TLS files before it serves.
\<close>

definition rhelemeter_client :: "(string \<Rightarrow> string + string) \<Rightarrow> rhelemeter_flags \<Rightarrow> string + http_client" where
  "rhelemeter_client provider fl =
     (case oauth_source provider (rf_OIDCIssuer fl) (rf_OIDCClientID fl) (rf_OIDCClientSecret fl) (rf_OIDCAudienceEndpoint fl) of
        Inl e \<Rightarrow> Inl e
      | Inr source \<Rightarrow> Inr (with_oauth source (forward_client (rf_Verbose fl))))"

datatype rhelemeter_command_err =
    RFlagErr string
  | RListenErr string
  | RhelemeterErr rhelemeter_err
  | RTracerErr tracing_err
  | ROIDCErr string

definition rhelemeter_pairs_err :: "rhelemeter_options \<Rightarrow> rhelemeter_err option" where
  "rhelemeter_pairs_err op =
     (case label_flags [] (ro_LabelFlag op) of
        Inl flag \<Rightarrow> Some (RBadLabel flag)
      | Inr labels \<Rightarrow>
          (case label_flags [] (ro_RequiredLabelFlag op) of Inl flag \<Rightarrow> Some (RBadRequiredLabel flag) | Inr required \<Rightarrow> None))"

definition rhelemeter_setup ::
  "('k, 'p) server_ext \<Rightarrow> (string \<Rightarrow> string + ClientCertConfig) \<Rightarrow> tracing_ext \<Rightarrow> (string \<Rightarrow> string + string) \<Rightarrow>
   rhelemeter_flags \<Rightarrow> (rhelemeter_command_err + (receiver \<times> ClientCertConfig option) \<times> http_client) go" where
  "rhelemeter_setup sx unmarshal tx provider fl =
     (let op = rhelemeter_options.truncate fl
      in (case rhelemeter_pairs_err op of
            Some e \<Rightarrow> Ret (Inl (RhelemeterErr e))
          | None \<Rightarrow>
          (case InitTracer tx (rf_TracingEndpoint fl) (rf_TracingEndpointType fl) of
             (tp, Some e) \<Rightarrow> Ret (Inl (RTracerErr e))
           | (tp, None) \<Rightarrow>
          (case rhelemeter_client provider fl of
             Inl e \<Rightarrow> Ret (Inl (ROIDCErr e))
           | Inr client \<Rightarrow>
               go_bind (rhelemeter_Run sx unmarshal op) (\<lambda>r.
                 Ret (case r of Inl e \<Rightarrow> Inl (RhelemeterErr e) | Inr parts \<Rightarrow> Inr (parts, client)))))))"

definition rhelemeter_command ::
  "pflag_ext \<Rightarrow> (string \<Rightarrow> string option) \<Rightarrow> ('k, 'p) server_ext \<Rightarrow> (string \<Rightarrow> string + ClientCertConfig) \<Rightarrow> tracing_ext \<Rightarrow>
   (string \<Rightarrow> string + string) \<Rightarrow> (string \<times> string) list \<Rightarrow>
   (rhelemeter_command_err + rhelemeter_flags \<times> (receiver \<times> ClientCertConfig option) \<times> http_client) go" where
  "rhelemeter_command px listen sx unmarshal tx provider args =
     (case set_flags px rhelemeter_flag_table args rhelemeter_defaults of
        Inl e \<Rightarrow> Ret (Inl (RFlagErr e))
      | Inr fl \<Rightarrow>
     (case listen (rf_listen fl) of
        Some e \<Rightarrow> Ret (Inl (RListenErr e))
      | None \<Rightarrow>
     (case listen (rf_listenInternal fl) of
        Some e \<Rightarrow> Ret (Inl (RListenErr e))
      | None \<Rightarrow>
          go_bind (rhelemeter_setup sx unmarshal tx provider fl) (\<lambda>r.
            Ret (case r of Inl e \<Rightarrow> Inl e | Inr started \<Rightarrow> Inr (fl, started))))))"

text \<open>
  The actors of the group: the internal and the external server and the context.  \<open>keyPair\<close> is what
  loading a key pair fails with.
\<close>

definition http_server :: "string option \<Rightarrow> run_actor" where
  "http_server certError = HttpServer \<lparr>ha_certError = certError, ha_phase = Created, ha_shutdown = False, ha_active = 0\<rparr>"

definition tls_error :: "(string \<Rightarrow> string \<Rightarrow> string option) \<Rightarrow> string \<Rightarrow> string \<Rightarrow> string option" where
  "tls_error keyPair cert key = (if length cert > 0 then keyPair cert key else None)"

definition server_actors :: "(string \<Rightarrow> string \<Rightarrow> string option) \<Rightarrow> server_flags \<Rightarrow> run_actor list" where
  "server_actors keyPair fl =
     [http_server (tls_error keyPair (so_InternalTLSCertificatePath fl) (so_InternalTLSKeyPath fl)),
      http_server (tls_error keyPair (so_TLSCertificatePath fl) (so_TLSKeyPath fl)),
      UntilDone False False False]"

definition rhelemeter_actors ::
  "('k, 'p) server_ext \<Rightarrow> (string \<Rightarrow> string \<Rightarrow> string option) \<Rightarrow> rhelemeter_flags \<Rightarrow> bool \<Rightarrow> run_actor list" where
  "rhelemeter_actors sx keyPair fl hasClientCertConfig =
     [http_server (tls_error keyPair (rf_InternalTLSCertificatePath fl) (rf_InternalTLSKeyPath fl)),
      http_server (case external_listener sx keyPair (rhelemeter_options.truncate fl) hasClientCertConfig of
                     Inl e \<Rightarrow> Some e | Inr l \<Rightarrow> None),
      UntilDone False False False]"


section \<open>Lemmas\<close>

lemma rhelemeter_flags_distinct: "distinct (map fst rhelemeter_flag_table)"
  by (simp add: rhelemeter_flag_table_def)

text \<open>No command line gives rhelemeter a required label.\<close>

lemma rhelemeter_flag_required:
  "list_all (\<lambda>(name, var). \<forall>v op op'. set_flag x var v op = Inr op' \<longrightarrow> ro_RequiredLabelFlag op' = ro_RequiredLabelFlag op)
     rhelemeter_flag_table"
  by (simp add: rhelemeter_flag_table_def split: sum.split)

lemma rhelemeter_flags_required:
  "set_flags x rhelemeter_flag_table args op = Inr op' \<Longrightarrow> ro_RequiredLabelFlag op' = ro_RequiredLabelFlag op"
proof (induction args arbitrary: op)
  case (Cons a args)
  from Cons.prems obtain var op1 where
    var: "map_of rhelemeter_flag_table (fst a) = Some var" "set_flag x var (snd a) op = Inr op1"
      "set_flags x rhelemeter_flag_table args op1 = Inr op'"
    by (cases a) (auto split: option.splits sum.splits)
  with rhelemeter_flag_required [of x] have "ro_RequiredLabelFlag op1 = ro_RequiredLabelFlag op"
    by (auto simp: list_all_iff dest!: map_of_SomeD)
  with Cons.IH [OF var(3)] show ?case by simp
qed simp

lemma rhelemeter_requires_nothing:
  assumes "set_flags x rhelemeter_flag_table args rhelemeter_defaults = Inr fl"
  shows "rhelemeter_Run sx um (rhelemeter_options.truncate fl) \<noteq> Ret (Inl (RBadRequiredLabel flag))"
proof -
  have "ro_RequiredLabelFlag fl = []"
    using rhelemeter_flags_required [OF assms] by (simp add: rhelemeter_defaults_def)
  then show ?thesis
    by (auto simp: rhelemeter_Run_def rhelemeter_options.truncate_def client_cert_config_def
        split: sum.splits option.splits if_splits)
qed

text \<open>
  The client of the v1 authorizer never answers from the cache; with an OIDC issuer every client asks
  for a token, and the cache is in front of that.
\<close>

lemma clients_layers:
  assumes "make_clients provider fl = Inr c"
  shows "hc_Transport (sc_authorize c) \<noteq> Some (CacheLayer # t)"
    and "sf_OIDCIssuer fl \<noteq> [] \<Longrightarrow> \<exists>cfg t t'. hc_Transport (sc_authorize c) = Some (OAuth cfg # t) \<and>
      hc_Transport (sc_forward c) = Some (OAuth cfg # t')"
    and "hc_Transport (sc_v2Authorize c) =
      (if so_Memcacheds fl = [] then hc_Transport (sc_authorize c)
       else Some (CacheLayer # (case hc_Transport (sc_authorize c) of None \<Rightarrow> [NilTransport] | Some t \<Rightarrow> t)))"
  using assms
  by (auto simp: make_clients_def oauth_source_def with_oauth_def authorize_client_def forward_client_def cached_client_def
      Let_def split: sum.splits if_splits)

text \<open>
  A key without a certificate is an error for telemeter-server, while rhelemeter serves without TLS.
\<close>

lemma tls_key_alone:
  "so_TLSCertificatePath op = [] \<Longrightarrow> so_TLSKeyPath op \<noteq> [] \<Longrightarrow> check_pairs op = Some TLSPair"
  "ro_TLSCertificatePath rop = [] \<Longrightarrow> external_listener sx keyPair rop hasConf = Inr PlainListener"
  by (simp_all add: check_pairs_def external_listener_def)

text \<open>
  A command that starts has a configuration \<open>Run\<close> accepts, and rhelemeter one in which no label is
  required.
\<close>

lemma server_setup_started:
  "server_setup sx tx provider fl = Ret (Inr (cfg, clients)) \<Longrightarrow>
     server_Run sx (server_options.truncate fl) = Ret (Inr cfg) \<and> make_clients provider fl = Inr clients"
  by (auto simp: server_setup_def Let_def case_sum_eq_Inr split: sum.splits option.splits prod.splits)

lemma server_command_started:
  assumes "server_command px listen sx tx provider args = Ret (Inr (fl, cfg, clients))"
  shows "server_Run sx (server_options.truncate fl) = Ret (Inr cfg) \<and> make_clients provider fl = Inr clients"
proof (rule server_setup_started)
  from assms obtain r where "server_setup sx tx provider fl = Ret r" "r = Inr (cfg, clients)"
    by (auto simp: server_command_def case_sum_eq_Inr split: sum.splits option.splits)
  then show "server_setup sx tx provider fl = Ret (Inr (cfg, clients))" by simp
qed

lemma rhelemeter_setup_started:
  "rhelemeter_setup sx um tx provider fl = Ret (Inr (parts, client)) \<Longrightarrow>
     rhelemeter_Run sx um (rhelemeter_options.truncate fl) = Ret (Inr parts)"
  by (auto simp: rhelemeter_setup_def Let_def case_sum_eq_Inr split: sum.splits option.splits prod.splits)

lemma rhelemeter_command_started:
  assumes "rhelemeter_command px listen sx um tx provider args = Ret (Inr (fl, parts, client))"
  shows "rhelemeter_Run sx um (rhelemeter_options.truncate fl) = Ret (Inr parts) \<and> ro_RequiredLabelFlag fl = []"
proof
  from assms obtain r where "rhelemeter_setup sx um tx provider fl = Ret r" "r = Inr (parts, client)"
    and flags: "set_flags px rhelemeter_flag_table args rhelemeter_defaults = Inr fl"
    by (auto simp: rhelemeter_command_def case_sum_eq_Inr split: sum.splits option.splits)
  then show "rhelemeter_Run sx um (rhelemeter_options.truncate fl) = Ret (Inr parts)"
    using rhelemeter_setup_started [of sx um tx provider fl parts client] by simp
  from rhelemeter_flags_required [OF flags] show "ro_RequiredLabelFlag fl = []" by (simp add: rhelemeter_defaults_def)
qed

section \<open>Properties\<close>

text \<open>
  C14: a server process ends, with an error.  Once one of the actors of telemeter-server or rhelemeter
  has returned, the process can always be brought to its end: no actor keeps it from ending, whenever
  it was interrupted, even before it started to serve.  And it only ends with the error of that actor,
  which is never nil, after both servers have answered their last request.
\<close>

theorem server_process_ends:
  assumes "as = server_actors keyPair fl \<or> as = rhelemeter_actors sx keyPair rfl hasConf"
    and "group_reachable run_actor_step run_interrupt run_quiet as s" and "gr_errors s \<noteq> []"
  shows "\<exists>e. hd (gr_errors s) = Some e \<and>
    (\<exists>s'. (group_step run_actor_step run_interrupt run_quiet)\<^sup>*\<^sup>* s s' \<and> gr_phase s' = Finished (Some e)) \<and>
    (\<forall>s' r. (group_step run_actor_step run_interrupt run_quiet)\<^sup>*\<^sup>* s s' \<and> gr_phase s' = Finished r \<longrightarrow>
       r = Some e \<and> list_all (\<lambda>a. run_returned a \<and> run_asked a \<and> run_quiet a) (gr_actors s'))"
proof (rule server_group.group_ends [OF assms(2) _ assms(3)])
  show "list_all (\<lambda>a. \<not> run_asked a \<and> \<not> run_returned a) as"
    using assms(1) by (auto simp: server_actors_def rhelemeter_actors_def http_server_def)
qed

theorem server_process_ends_witness:
  "\<exists>s s'. group_reachable run_actor_step run_interrupt run_quiet
      (server_actors (\<lambda>cert key. Some ''no such file'') (server_defaults\<lparr>so_TLSCertificatePath := ''crt''\<rparr>)) s \<and>
     gr_errors s = [Some ''no such file''] \<and>
     (group_step run_actor_step run_interrupt run_quiet)\<^sup>*\<^sup>* s s' \<and> gr_phase s' = Finished (Some ''no such file'')"
proof -
  let ?as = "server_actors (\<lambda>cert key. Some ''no such file'') (server_defaults\<lparr>so_TLSCertificatePath := ''crt''\<rparr>)"
  let ?a = "\<lparr>ha_certError = Some ''no such file'', ha_phase = Created, ha_shutdown = False, ha_active = 0\<rparr>"
  have as: "?as = [http_server None, HttpServer ?a, UntilDone False False False]"
    by (simp add: server_actors_def tls_error_def http_server_def server_defaults_def)
  let ?s = "group_start ?as\<lparr>gr_actors := ?as[1 := HttpServer (?a\<lparr>ha_phase := Returned\<rparr>)], gr_errors := [Some ''no such file'']\<rparr>"
  have "group_step run_actor_step run_interrupt run_quiet (group_start ?as) ?s"
    using group_step.act [of 1 "group_start ?as" run_actor_step _ "Some (Some ''no such file'')"]
      run_actor_step.no_cert [of ?a "''no such file''"]
    by (simp add: group_start_def as served_def)
  then have r: "group_reachable run_actor_step run_interrupt run_quiet ?as ?s"
    by (rule group_reachable.step [OF group_reachable.start])
  from server_process_ends [OF disjI1 [OF refl] r] obtain s' where
    "(group_step run_actor_step run_interrupt run_quiet)\<^sup>*\<^sup>* ?s s'" "gr_phase s' = Finished (Some ''no such file'')"
    by auto
  with r show ?thesis by (intro exI [of _ ?s] exI [of _ s']) simp
qed

end
