(* ===== verification/Spec2Isabelle.thy ===== *)
theory Spec2Isabelle
  imports Delivery Fnv Token_Store Jwt Client_Cert Response_Cache Forwarder Server_Runs Benchmark Benchmark_Loop Client_Process
    Authorization_Server Server_Process
begin

text \<open>
  A verification development for telemeter, the service that collects metrics from OpenShift
  clusters.

  \<^bold>\<open>The program.\<close>  A client scrapes a Prometheus, filters and labels the metric families it
  gets, and uploads them to the server (v1); the server authorizes the client by a token it issued
  itself, identifies the cluster, limits its rate, validates the families, and forwards them as
  remote-write time series to an upstream.  The second write path (v2, and rhelemeter) takes remote
  writes directly, authorizes them by a token of the client (v2, behind a cache) or a client
  certificate (rhelemeter), filters their series and forwards them.  The families go through
  chains of transformers (\<^verbatim>\<open>src/pkg/metricfamily\<close>) on both sides.  A benchmark sends
  randomized recordings to a server.

  \<^bold>\<open>The theories: common ground.\<close>
  \<^item> \<open>Go_Prelude\<close>: run-time panics as values (\<open>go\<close>, \<open>go_bind\<close>, \<open>deref\<close>, \<open>index\<close>), 64-bit
    integers and time, the string functions the source calls, the contract of
    \<^verbatim>\<open>sort.Sort\<close> and the locale \<open>strict_weak_order\<close> for the orders it is called with.
  \<^item> \<open>Client_Model\<close>: the protobuf structs with pointers as options, and the errors of
    \<^verbatim>\<open>metricfamily\<close>.
  \<^item> \<open>Reader\<close> (\<^verbatim>\<open>pkg/reader\<close>): limited readers and \<^verbatim>\<open>io.ReadAll\<close>, over the locale
    \<open>byte_source\<close>.
  \<^item> \<open>Http_Model\<close>: requests, responses, handlers and the request context.

  \<^bold>\<open>The theories: metric families.\<close>
  \<^item> \<open>Pack\<close> (\<^verbatim>\<open>pack.go\<close>, \<^verbatim>\<open>PackLabels\<close>): one two-pointer loop, three instances,
    shown to be filters through the locale \<open>slice_packer\<close>.
  \<^item> \<open>Sample_Filters\<close>, \<open>Validation\<close>, \<open>Label_Transformer\<close>, \<open>Whitelist\<close>, \<open>Sort_Merge\<close>,
    \<open>Anonymize\<close>: the transformers of \<^verbatim>\<open>metricfamily\<close>, one definition per method, each with
    lemmas that say exactly what it accepts and what it makes of a family.
  \<^item> \<open>Transformers\<close> (\<^verbatim>\<open>transform.go\<close>, \<^verbatim>\<open>multi_transformer.go\<close>): dispatch over all of
    them, chains, and \<^verbatim>\<open>Filter\<close> over the locale \<open>transformer_interface\<close>, which is
    interpreted twice: for any transformer (\<open>dispatch\<close>) and for the chain of a request
    (\<open>upload\<close>).

  \<^bold>\<open>The theories: the server.\<close>
  \<^item> \<open>Rate_Limit\<close> (\<^verbatim>\<open>pkg/server/ratelimited.go\<close>): the limiter per cluster.
  \<^item> \<open>Timeseries\<close> and \<open>Upload\<close> (\<^verbatim>\<open>pkg/server\<close>): the conversion to time series, the
    middlewares, \<^verbatim>\<open>ForwardHandler\<close>, and the upload route composed of them; what leaves the
    route, and that its base transformers are the same after every request.
  \<^item> \<open>Delivery\<close>: that the upload route forwards everything it should, and answers with 200.
  \<^item> \<open>Authorize\<close>, \<open>Jwt\<close>, \<open>Tollbooth\<close>, \<open>Client_Cert\<close>, \<open>Fnv\<close>
    (\<^verbatim>\<open>pkg/authorize\<close>, \<^verbatim>\<open>pkg/fnv\<close>): the two authorizing middlewares, the issue and the check of
    tokens, the authorizer that asks tollbooth with the mock of that service, client certificates
    in headers, and the hash of the stub authorizer.
  \<^item> \<open>Receive\<close> (\<^verbatim>\<open>pkg/receive\<close>): the remote-write path with its in-place loops.
  \<^item> \<open>Response_Cache\<close> (\<^verbatim>\<open>pkg/cache\<close>): the caching round tripper over memcached as a state
    machine.
  \<^item> \<open>Telemeter_Server\<close> (\<^verbatim>\<open>cmd/telemeter-server/main.go\<close>): options, start-up, the three
    routes on the state they share.
  \<^item> \<open>Rhelemeter\<close> (\<^verbatim>\<open>cmd/rhelemeter-server/main.go\<close>): options, the TLS listener, the router with its
    middlewares; who can reach the upstream in its two modes.
  \<^item> \<open>Authorization_Server\<close> (\<^verbatim>\<open>cmd/authorization-server/main.go\<close>): the mock of tollbooth with the
    tokens of a file, and what it means for the tokens telemeter issues.
  \<^item> \<open>Server_Runs\<close>: the server as a state machine; what it can start with, and what can reach its
    upstream.
  \<^item> \<open>Run_Group\<close> (the vendored \<^verbatim>\<open>oklog/run\<close>) and \<open>Server_Process\<close> (\<^verbatim>\<open>main\<close> of both servers): the group
    of actors a process consists of, over the locale \<open>group_actor\<close>; flags, HTTP clients, start and end of
    the two commands.

  \<^bold>\<open>The theories: the client.\<close>
  \<^item> \<open>Token_Store\<close> (\<^verbatim>\<open>token_store.go\<close>, \<^verbatim>\<open>roundtripper.go\<close>): the rotating token as a state
    machine.
  \<^item> \<open>Options\<close> (\<^verbatim>\<open>cmd/telemeter-client/main.go\<close> and the parts other commands share): flags,
    rules, URLs, keys and the transformers of the client.
  \<^item> \<open>Metrics_Client\<close> (\<^verbatim>\<open>pkg/metricsclient\<close>): scraping and sending, with deadlines.
  \<^item> \<open>Client_Chain\<close>: what leaves the transformers of the client.
  \<^item> \<open>Forwarder\<close> (\<^verbatim>\<open>pkg/forwarder\<close>): the worker of the client, its loop and its reconfiguration.
  \<^item> \<open>Client_Process\<close> (\<^verbatim>\<open>cmd/telemeter-client/main.go\<close>): the command from its flags to a running process,
    with reloads by signal and by request, and the array of rules the reloads share.
  \<^item> \<open>Http_Utils\<close> (\<^verbatim>\<open>pkg/http\<close>, \<^verbatim>\<open>pkg/tracing\<close>, \<^verbatim>\<open>pkg/logger\<close>, \<^verbatim>\<open>requestlog.go\<close>): the bearer and debug round
    trippers, the reload route, the set-up of tracing, and the status of the request log.
  \<^item> \<open>Benchmark\<close> and \<open>Benchmark_Loop\<close> (\<^verbatim>\<open>pkg/benchmark\<close>): the workers of the benchmark, and
    the lock and the channel between its loop and its reloads.

  This theory holds the properties that span client and server.

  \<^bold>\<open>Correspondence.\<close>  A struct is a record, a pointer an option, a slice a list, a map that is
  iterated an association list in the order of the iteration; a function that can panic returns
  in \<open>go\<close>, one that returns an error returns it as a value.  A transformer mutates the family it
  is given, so its model returns the new family along with the result.  Handlers take and return
  the state they share.  Code outside the repository is a parameter, with what the code relies on as
  a named contract: sorting, SHA-256, JOSE, JSON, the PromQL parser and matchers, the exposition
  codec, snappy, protobuf, rate limiters, memcached, random numbers and the HTTP client.  State machines
  (\<open>telemeter_run\<close>, \<open>cache_reachable\<close>, \<open>client_reachable\<close>, \<open>mock_reachable\<close>, \<open>loop_step\<close>, \<open>group_step\<close> and that
  of the token store) are inductive relations; a section under a mutex is one step unless it blocks inside.

  \<^bold>\<open>Bounds.\<close>  No definition needs fuel.  Loops are structural recursions or functions with a
  measure: the number of entries not yet visited (\<open>pack_loop\<close>, \<open>series_loop\<close>, \<open>rules_loop\<close>), the
  bytes and chunks a body has left (\<open>ReadAll\<close>), the bytes still to be dumped (\<open>dump_lines\<close>), the value still to be printed (\<open>format_rev\<close>).  The
  loops that run until they are cancelled take the list of the events of their turns.

  \<^bold>\<open>Not modelled.\<close>  The lines that are logged and the counters of \<^verbatim>\<open>promhttp\<close>, spans, and the closing and
  exhausting of bodies (\<^verbatim>\<open>pkg/runutil\<close>); floating-point arithmetic (sample values are copied as bits; the
  mean drift is only logged); the TLS and OIDC protocols, how the flag library splits a command line, signals
  and listeners as such; the HTTP clients of the servers are modelled as the layers of their transports, and
  the debug and bearer round trippers alone, while the handlers and the client take the transport as a
  parameter; the redirects of the HTTP client; routes
  that answer with constants (health checks, indexes).
\<close>

section \<open>From a token to the series that carry it\<close>

lemma map_of_fold_other:
  "k \<notin> fst ` set new \<Longrightarrow> map_of (fold (\<lambda>(k, v). AList.update k v) new kvs) k = map_of kvs k"
  by (induction new arbitrary: kvs) (auto simp: update_conv')

lemma token_labels_key:
  "ah_clusterIDKey a \<notin> fst ` set (ah_labels a) \<Longrightarrow>
     map_of (token_labels a clusterID) (ah_clusterIDKey a) = Some clusterID"
  by (simp add: token_labels_def map_of_fold_other)


text \<open>
  a server whose authorizer has no keys panics on the first upload whose token merely parses: the
  authorizer then returns neither an error nor a client, the handler puts the nil client into the
  context, and \<^verbatim>\<open>ClusterID\<close> dereferences it.
\<close>

theorem upload_without_keys_panics:
  assumes "ca_keys j = []" and "bearer_auth (rq_header r ''Authorization'') = Ret (Inr tok)" and "jo_parse jo tok = Inr t"
  shows "NewAuthorizeClientHandler (AuthorizeClient jo j at)
    (upload_route x newLimiter allowN idKey d limitBytes url tenantID) s r = Panic NilDeref"
proof -
  have "AuthorizeClient jo j at tok = Inr None" using assms by (simp add: AuthorizeClient_nil)
  with assms(2) show ?thesis
    by (simp add: NewAuthorizeClientHandler_def upload_route_def ClusterID_def FromContext_def WithClient_def)
qed

lemma example_bearer_route:
  "\<exists>store' s'. NewAuthorizeClientHandler (AuthorizeClient example_jose example_clients (100 * Second))
      (upload_route example_ext bucket_new bucket_allow ''_id'' 10 0 ''http://up'' ''tenant'') (Map.empty, example_server) example_bearer =
      Ret ((store', s'), empty_response) \<and> sv_upstream s' = [(''http://up'', ''tenant'', ''data'')]"
proof -
  have "example_upload (WithClient example_bearer (Some \<lparr>cl_ID = ''account'', cl_Labels = [(''_id'', ''c1'')]\<rparr>))"
    by (simp add: example_upload_def WithClient_def example_bearer_def example_request_def)
  from example_route [OF this] show ?thesis
    using example_client_accepted [of "[3]"]
    by (simp add: NewAuthorizeClientHandler_def example_bearer_token example_clients_def)
qed


theorem upload_without_keys_panics_witness:
  "NewAuthorizeClientHandler (AuthorizeClient example_jose (example_clients\<lparr>ca_keys := []\<rparr>) 0)
    (upload_route example_ext bucket_new bucket_allow ''_id'' 10 0 ''http://up'' ''tenant'') (Map.empty, example_server) example_bearer =
    Panic NilDeref"
  by (rule upload_without_keys_panics [OF _ example_bearer_token]) (simp_all add: example_jose_def)

section \<open>From the client to the server\<close>

text \<open>Labels a server can put into a token and still accept as labels of a metric.\<close>

definition small_labels :: "(string \<times> string) list \<Rightarrow> bool" where
  "small_labels kvs \<longleftrightarrow> list_all (\<lambda>(k, v). 1 \<le> length k \<and> length k \<le> 255 \<and> length v \<le> 255) kvs"

lemma small_labels_valid:
  assumes "small_labels kvs" and "(k, p) \<in> set (ls_labels (NewLabel kvs r))"
  shows "valid_label (Some p)"
  using assms by (fastforce simp: small_labels_def list_all_iff valid_label_def elim!: NewLabel_pairs)

lemma appendLabels_valid:
  assumes "list_all valid_label ls" and "\<And>k p. (k, p) \<in> set kvs \<Longrightarrow> valid_label (Some p)"
  shows "list_all valid_label (appendLabels ls kvs)"
  using assms by (auto simp: appendLabels_eq list_all_iff split: option.splits dest!: map_of_SomeD)

text \<open>
  A label transformer, before it asked the server for the labels of its token or after, ends up with
  these labels.
\<close>

lemma token_label_step:
  assumes "t = NewLabel [] True \<and> w_labels w (w_labelCalls w) = Inr kvs \<or> t = NewLabel kvs False"
    and "label_Transform t w (Some f) = Ret (w', t', f', True, err)" and "f_Metric f \<noteq> []"
  shows "t' = NewLabel kvs False"
  using assms by (auto simp: label_Transform_def Let_def NewLabel_def)

text \<open>What the client makes of a family: a valid sorted one, and the labels of the token on top.\<close>

definition with_labels :: "(string \<times> string) list \<Rightarrow> family \<Rightarrow> family" where
  "with_labels kvs f =
     f\<lparr>f_Metric := map (map_option (\<lambda>m. m\<lparr>m_Label := appendLabels (m_Label m) (ls_labels (NewLabel kvs False))\<rparr>)) (f_Metric f)\<rparr>"

lemma with_labels_somes:
  "somes (f_Metric (with_labels kvs f)) =
     map (\<lambda>m. m\<lparr>m_Label := appendLabels (m_Label m) (ls_labels (NewLabel kvs False))\<rparr>) (somes (f_Metric f))"
  by (simp add: with_labels_def)

lemma client_chain_result:
  assumes sorts: "sort_contract metric_less (e_sortMetrics e)"
    and token: "t = NewLabel [] True \<and> w_labels w (w_labelCalls w) = Inr kvs \<or> t = NewLabel kvs False"
    and run: "Transform e w (Multi [] [client_transforms labels renames, Basic (T_Label t)]) (Some f) =
      Ret ((w', t'), Some g, True, None)"
  obtains f1 where "g = with_labels kvs f1" and "valid_family (min_ms (w_now w (w_ticks w) - 24 * Hour)) f1"
    and "sorted_by metric_less (f_Metric f1)" and "None \<notin> set (f_Metric f1)" and "f_Metric f1 \<noteq> []"
    and "t' = Multi [] [client_transforms labels renames, Basic (T_Label (NewLabel kvs False))]"
proof -
  obtain w1 t1 h b where first: "Transform e w (client_transforms labels renames) (Some f) = Ret ((w1, t1), h, True, None)"
    and second: "basic_Transform e (w1, T_Label t) h = Ret ((w', b), Some g, True, None)"
    and t': "t' = Multi [] [t1, Basic b]"
    using run by (auto simp: chain_ok simp del: Transform.simps Transform_all.simps basic_Transform.simps)
  from client_transforms_accepts [OF sorts first] obtain f1 where
    f1: "h = Some f1" "valid_family (min_ms (w_now w (w_ticks w) - 24 * Hour)) f1"
    "f_Metric f1 \<noteq> []" "sorted_by metric_less (f_Metric f1)" "None \<notin> set (f_Metric f1)"
    "t1 = client_transforms labels renames" "w1 = w\<lparr>w_ticks := Suc (w_ticks w)\<rparr>" by blast
  from second f1 obtain t2 where lab: "label_Transform t w1 (Some f1) = Ret (w', t2, Some g, True, None)" and b: "b = T_Label t2"
    by auto
  have "t = NewLabel [] True \<and> w_labels w1 (w_labelCalls w1) = Inr kvs \<or> t = NewLabel kvs False"
    using token f1(7) by simp
  then have t2: "t2 = NewLabel kvs False" using lab f1(3) by (rule token_label_step)
  have "g = with_labels kvs f1" using label_Transform_Ret [OF lab] t2 by (simp add: with_labels_def)
  with f1 t' b t2 show thesis by (intro that) simp_all
qed

text \<open>What the server's checks say of such a family.\<close>

lemma with_labels_required:
  assumes "distinct (map fst kvs)"
  shows "requireLabel_Transform kvs (Some (with_labels kvs f)) = Ret (Some (with_labels kvs f), True, None)"
proof -
  have "first_value k (m\<lparr>m_Label := appendLabels (m_Label m) (ls_labels (NewLabel kvs False))\<rparr>) = Some v"
    if "(k, v) \<in> set kvs" for k v m
    using labelled_first_value [OF label_map_ok_NewLabel, of k "mk_label k v" kvs False]
      map_of_fold_update [OF assms that, of "[]"] by (auto simp: NewLabel_def dest: map_of_SomeD)
  then show ?thesis by (auto simp: requireLabel_accepts_iff with_labels_somes)
qed

lemma with_labels_in_order:
  assumes "valid_family now f" and "0 \<le> now" and "sorted_by metric_less (f_Metric f)"
  shows "in_order_from 0 (somes (f_Metric (with_labels kvs f)))"
proof -
  have stamped: "\<forall>m \<in> set (somes (f_Metric f)). \<exists>ts. m_TimestampMs m = Some ts \<and> 0 \<le> ts"
    using assms(1,2) by (fastforce simp: valid_family_def valid_sample_def list_all_iff)
  have "map sample_ts (somes (f_Metric (with_labels kvs f))) = map sample_ts (somes (f_Metric f))"
    by (simp add: with_labels_somes sample_ts_def)
  moreover have "sorted (map sample_ts (somes (f_Metric f)))"
    using sorted_somes_timestamps [OF assms(3) stamped] by (simp add: sorted_map)
  ultimately show ?thesis using stamped by (auto simp: in_order_from_def sample_ts_def)
qed

lemma with_labels_ordered:
  assumes "valid_family now f" and "0 \<le> now" and "sorted_by metric_less (f_Metric f)"
  shows "\<exists>u. errorOnUnsorted_Transform (NewErrorOnUnsorted True) (Some (with_labels kvs f)) = Ret (u, Some (with_labels kvs f), True, None)"
proof -
  have "\<forall>m \<in> set (somes (f_Metric f)). m_TimestampMs m \<noteq> None"
    using assms(1) by (auto simp: valid_family_def valid_sample_def list_all_iff)
  with with_labels_in_order [OF assms] show ?thesis
    by (auto simp: errorOnUnsorted_Transform_def NewErrorOnUnsorted_def case_prod_unfold Let_def unsorted_loop_None with_labels_somes)
qed

lemma with_labels_valid:
  assumes "valid_family now f" and "small_labels kvs"
  shows "valid_family mn (with_labels kvs f) \<longleftrightarrow> list_all (\<lambda>m. mn \<le> sample_ts m) (somes (f_Metric (with_labels kvs f)))"
proof -
  let ?kvs = "ls_labels (NewLabel kvs False)"
  have "valid_sample mn (the (f_Type f)) (m\<lparr>m_Label := appendLabels (m_Label m) ?kvs\<rparr>) \<longleftrightarrow> mn \<le> sample_ts m"
    if "m \<in> set (somes (f_Metric f))" for m
    using that assms(1) appendLabels_valid [of "m_Label m" ?kvs] small_labels_valid [OF assms(2)]
    by (auto simp: valid_family_def valid_sample_def sample_ts_def list_all_iff)
  moreover have "valid_header (with_labels kvs f)" and "f_Type (with_labels kvs f) = f_Type f"
    using assms(1) by (simp_all add: valid_family_def valid_header_def with_labels_def)
  ultimately show ?thesis by (auto simp: valid_family_def with_labels_somes list_all_iff sample_ts_def)
qed

text \<open>
  A family as it leaves the client: accepted by the transformers of its options and labelled with the
  labels the server returned with its token.
\<close>

definition made_by_client :: "env \<Rightarrow> (string \<times> string) list \<Rightarrow> family \<Rightarrow> bool" where
  "made_by_client e kvs g \<longleftrightarrow>
     (\<exists>w t labels renames f w' t'.
        (t = NewLabel [] True \<and> w_labels w (w_labelCalls w) = Inr kvs \<or> t = NewLabel kvs False) \<and>
        0 \<le> min_ms (w_now w (w_ticks w) - 24 * Hour) \<and>
        Transform e w (Multi [] [client_transforms labels renames, Basic (T_Label t)]) (Some f) =
          Ret ((w', t'), Some g, True, None))"

lemma made_by_client_acceptable:
  assumes "sort_contract metric_less (e_sortMetrics e)" and "made_by_client e kvs g"
    and "distinct (map fst kvs)" and "small_labels kvs" and "list_all (\<lambda>m. mn \<le> sample_ts m) (somes (f_Metric g))"
  shows "acceptable kvs mn g \<and> None \<notin> set (f_Metric g)"
proof -
  from assms(2) obtain w t labels renames f w' t' where
    token: "t = NewLabel [] True \<and> w_labels w (w_labelCalls w) = Inr kvs \<or> t = NewLabel kvs False"
    and clock: "0 \<le> min_ms (w_now w (w_ticks w) - 24 * Hour)"
    and run: "Transform e w (Multi [] [client_transforms labels renames, Basic (T_Label t)]) (Some f) =
      Ret ((w', t'), Some g, True, None)"
    unfolding made_by_client_def by blast
  obtain f1 where g: "g = with_labels kvs f1"
    and f1: "valid_family (min_ms (w_now w (w_ticks w) - 24 * Hour)) f1" "sorted_by metric_less (f_Metric f1)"
      "None \<notin> set (f_Metric f1)" "f_Metric f1 \<noteq> []"
    using client_chain_result [OF assms(1) token run] by blast
  have "somes (f_Metric f1) \<noteq> []" using f1(3,4) unfolding somes_eq_Nil by (metis list.set_sel(1))
  then have "somes (f_Metric g) \<noteq> []" by (simp add: g with_labels_somes)
  moreover have "None \<notin> set (f_Metric g)" using f1(3) by (auto simp: g with_labels_def)
  ultimately show ?thesis
    using with_labels_required [OF assms(3), of f1] with_labels_in_order [OF f1(1) clock f1(2)]
      with_labels_valid [OF f1(1) assms(4), of mn] assms(5)
    by (auto simp: g acceptable_def requireLabel_accepts_iff)
qed

text \<open>
  C6: client and server agree.  A family that leaves the transformers of the client, the last of which
  adds the labels the server returned with the token, has all the labels the server requires for that
  token, its samples are in the order the server wants, and the only thing left that can make the
  server reject it is the age of a sample: it is valid for the server exactly when every sample is at
  least as recent as the server's limit.
\<close>

theorem client_families_pass_validation:
  assumes sorts: "sort_contract metric_less (e_sortMetrics e)"
    and token: "t = NewLabel [] True \<and> w_labels w (w_labelCalls w) = Inr kvs \<or> t = NewLabel kvs False"
    and run: "Transform e w (Multi [] [client_transforms labels renames, Basic (T_Label t)]) (Some f) =
      Ret ((w', t'), Some g, True, None)"
    and labels: "distinct (map fst kvs)" "small_labels kvs"
    and clock: "0 \<le> min_ms (w_now w (w_ticks w) - 24 * Hour)"
  shows "requireLabel_Transform kvs (Some g) = Ret (Some g, True, None) \<and>
    (\<exists>u. errorOnUnsorted_Transform (NewErrorOnUnsorted True) (Some g) = Ret (u, Some g, True, None)) \<and>
    (errorInvalid_Transform mn (Some g) = Ret (Some g, True, None) \<longleftrightarrow>
       list_all (\<lambda>m. mn \<le> sample_ts m) (somes (f_Metric g))) \<and>
    t' = Multi [] [client_transforms labels renames, Basic (T_Label (NewLabel kvs False))]"
proof -
  obtain f1 where g: "g = with_labels kvs f1"
    and f1: "valid_family (min_ms (w_now w (w_ticks w) - 24 * Hour)) f1" "sorted_by metric_less (f_Metric f1)"
    and t': "t' = Multi [] [client_transforms labels renames, Basic (T_Label (NewLabel kvs False))]"
    using client_chain_result [OF sorts token run] by blast
  show ?thesis
    using with_labels_required [OF labels(1)] with_labels_ordered [OF f1(1) clock f1(2)]
      with_labels_valid [OF f1(1) labels(2)] t'
    by (simp add: g errorInvalid_accepts_iff)
qed

definition example_labelled_world :: world where
  "example_labelled_world = (still_world (100000 * Second))\<lparr>w_labels := \<lambda>_. Inr [(''_id'', ''c1'')]\<rparr>"

lemma example_labelling:
  "\<exists>w' t'. Transform example_env example_labelled_world
     (Multi [] [client_transforms [] [], Basic (T_Label (NewLabel [] True))])
     (Some (counter_family ''up'' [Some (counter_metric [(''_id'', ''x'')] (Some 90000000))])) =
   Ret ((w', t'), Some (counter_family ''up'' [Some (counter_metric [(''_id'', ''c1'')] (Some 90000000))]), True, None)"
  by (simp add: example_labelled_world_def client_transforms_def Let_def read_now_def still_world_def stateless_def example_defs
      dropInvalid_Transform_def scrub_metric_def keep_sample_def min_ms_def PackMetrics_filter SortMetrics_def
      bad_name_def bad_value_def example_env_def wrap64_def Unix_def Hour_def Minute_def Second_def
      label_Transform_def NewLabel_def appendLabels_def)

theorem client_families_pass_validation_witness:
  "\<exists>g. f_Metric g = [Some (counter_metric [(''_id'', ''c1'')] (Some 90000000))] \<and>
     requireLabel_Transform [(''_id'', ''c1'')] (Some g) = Ret (Some g, True, None) \<and>
     errorInvalid_Transform 14000000 (Some g) = Ret (Some g, True, None)"
proof -
  let ?g = "counter_family ''up'' [Some (counter_metric [(''_id'', ''c1'')] (Some 90000000))]"
  have srt: "sort_contract metric_less (e_sortMetrics example_env)"
    using by_timestamp.insertion_sort_contract by (simp add: example_env_def)
  have tok: "NewLabel [] True = NewLabel [] True \<and> w_labels example_labelled_world (w_labelCalls example_labelled_world) =
      Inr [(''_id'', ''c1'')] \<or> NewLabel [] True = NewLabel [(''_id'', ''c1'')] False"
    by (simp add: example_labelled_world_def still_world_def)
  have side: "distinct (map fst [(''_id'', ''c1'')])" "small_labels [(''_id'', ''c1'')]"
    "0 \<le> min_ms (w_now example_labelled_world (w_ticks example_labelled_world) - 24 * Hour)"
    by (simp_all add: small_labels_def example_labelled_world_def still_world_def min_ms_def wrap64_def Unix_def Hour_def
        Minute_def Second_def)
  obtain w' t' where run: "Transform example_env example_labelled_world
     (Multi [] [client_transforms [] [], Basic (T_Label (NewLabel [] True))])
     (Some (counter_family ''up'' [Some (counter_metric [(''_id'', ''x'')] (Some 90000000))])) = Ret ((w', t'), Some ?g, True, None)"
    using example_labelling by blast
  have recent: "list_all (\<lambda>m. 14000000 \<le> sample_ts m) (somes (f_Metric ?g))"
    by (simp add: example_defs sample_ts_def)
  from client_families_pass_validation [OF srt tok run side, of 14000000] recent
  have "requireLabel_Transform [(''_id'', ''c1'')] (Some ?g) = Ret (Some ?g, True, None) \<and>
      errorInvalid_Transform 14000000 (Some ?g) = Ret (Some ?g, True, None)" by blast
  then show ?thesis by (intro exI [of _ ?g]) (simp add: counter_family_def)
qed


text \<open>A client whose clock says a day and 50 seconds makes the family of the example.\<close>

lemma example_made_by_client: "made_by_client example_env [(''_id'', ''c1'')] (example_up 99000)"
proof -
  let ?w = "still_world (86450 * Second)" and ?t = "NewLabel [(''_id'', ''c1'')] False"
  have clock: "0 \<le> min_ms (w_now ?w (w_ticks ?w) - 24 * Hour)"
    by (simp add: still_world_def min_ms_def wrap64_def Unix_def Hour_def Minute_def Second_def)
  have "\<exists>w' t'. Transform example_env ?w (Multi [] [client_transforms [] [], Basic (T_Label ?t)])
     (Some (counter_family ''up'' [Some (counter_metric [] (Some 99000))])) = Ret ((w', t'), Some (example_up 99000), True, None)"
    by (simp add: client_transforms_def Let_def read_now_def still_world_def stateless_def example_defs example_metric_def
        dropInvalid_Transform_def scrub_metric_def keep_sample_def min_ms_def PackMetrics_filter SortMetrics_def
        bad_name_def bad_value_def example_env_def wrap64_def Unix_def Hour_def Minute_def Second_def
        label_Transform_def NewLabel_def appendLabels_def)
  with clock show ?thesis unfolding made_by_client_def by blast
qed


end
